theory Spec2Isabelle
  imports Main
begin

section \<open>JavaScript values\<close>

text \<open>
  The scripts work on parsed JSON/YAML/CSV data and on object literals used as lookup
  tables. A value is modelled by \<open>jsval\<close>. Numbers are the integer-valued ones. A
  string is a sequence of the characters U+0000 to U+00FF (Basic Latin and the Latin-1
  Supplement), a \<open>char\<close> being the code unit of its character. An object is the list
  of its own enumerable properties in enumeration order.

  A lookup \<open>table[key]\<close> on an object literal also finds the members that every plain
  object inherits from \<open>Object.prototype\<close>: \<open>JBuiltin name\<close> stands for such an
  inherited built-in function and \<open>JObjectPrototype\<close> for the prototype object itself,
  which is what \<open>obj['__proto__']\<close> reads.
\<close>

datatype jsval =
    JUndefined
  | JNull
  | JBool bool
  | JNum int
  | JStr string
  | JArr "jsval list"
  | JObj "(string \<times> jsval) list"
  | JBuiltin string
  | JObjectPrototype

datatype js_error = TypeError | SyntaxError | RangeError

type_synonym props = "(string \<times> jsval) list"

text \<open>Truthiness, as tested by \<open>!v\<close>, \<open>a || b\<close>, \<open>a && b\<close> and \<open>if (v)\<close>.\<close>

fun truthy :: "jsval \<Rightarrow> bool" where
  "truthy JUndefined = False"
| "truthy JNull = False"
| "truthy (JBool b) = b"
| "truthy (JNum n) = (n \<noteq> 0)"
| "truthy (JStr s) = (s \<noteq> [])"
| "truthy (JArr xs) = True"
| "truthy (JObj kvs) = True"
| "truthy (JBuiltin f) = True"
| "truthy JObjectPrototype = True"

text \<open>\<open>a || b\<close>\<close>

definition js_or :: "jsval \<Rightarrow> jsval \<Rightarrow> jsval" where
  "js_or a b = (if truthy a then a else b)"

text \<open>The names every plain object inherits from \<open>Object.prototype\<close>.\<close>

definition builtin_names :: "string list" where
  "builtin_names =
    [''constructor'', ''__defineGetter__'', ''__defineSetter__'', ''hasOwnProperty'',
     ''__lookupGetter__'', ''__lookupSetter__'', ''isPrototypeOf'',
     ''propertyIsEnumerable'', ''toString'', ''valueOf'', ''toLocaleString'']"

definition proto_get :: "string \<Rightarrow> jsval" where
  "proto_get k =
    (if k = ''__proto__'' then JObjectPrototype
     else if k \<in> set builtin_names then JBuiltin k
     else JUndefined)"

definition inherited_names :: "string list" where
  "inherited_names = ''__proto__'' # builtin_names"

text \<open>\<open>obj[k]\<close> for a plain object \<open>obj\<close>: an own property, else an inherited one.\<close>

definition obj_get :: "props \<Rightarrow> string \<Rightarrow> jsval" where
  "obj_get kvs k = (case map_of kvs k of Some v \<Rightarrow> v | None \<Rightarrow> proto_get k)"

text \<open>
  Decimal digits of a natural number, and \<open>String(n)\<close> for an integer below
  \<open>10^21\<close> in magnitude, which \<open>String\<close> writes in decimal digits (from
  \<open>10^21\<close> on it writes a mantissa and an exponent; see \<open>decimal_numbers\<close> below).
\<close>

fun digits :: "nat \<Rightarrow> string" where
  "digits n =
    (if n < 10 then [char_of (48 + n)]
     else digits (n div 10) @ [char_of (48 + n mod 10)])"

definition num_to_string :: "int \<Rightarrow> string" where
  "num_to_string i = (if i < 0 then CHR ''-'' # digits (nat (- i)) else digits (nat i))"

text \<open>
  \<open>s.toLowerCase()\<close>, the lower-casing of the Unicode standard, which does not depend
  on the locale. Of the characters up to U+00FF it changes the letters A to Z (U+0041 to
  U+005A) and the letters U+00C0 to U+00DE other than the multiplication sign U+00D7, each
  to the character 32 places on; every other character up to U+00FF stays (also
  U+00DF and U+00B5, whose lower case they are themselves).
\<close>

definition char_lower :: "char \<Rightarrow> char" where
  "char_lower c =
    (let n = (of_char c :: nat)
     in if (65 \<le> n \<and> n \<le> 90) \<or> (192 \<le> n \<and> n \<le> 222 \<and> n \<noteq> 215)
        then char_of (n + 32) else c)"

definition toLowerCase :: "string \<Rightarrow> string" where
  "toLowerCase s = map char_lower s"

definition endsWith :: "string \<Rightarrow> string \<Rightarrow> bool" where
  "endsWith s suf = (length suf \<le> length s \<and> drop (length s - length suf) s = suf)"

definition startsWith :: "string \<Rightarrow> string \<Rightarrow> bool" where
  "startsWith s pre = (take (length pre) s = pre)"

text \<open>\<open>s.includes(sub)\<close>\<close>

fun includes_str :: "string \<Rightarrow> string \<Rightarrow> bool" where
  "includes_str [] sub = (sub = [])"
| "includes_str (c # cs) sub = (startsWith (c # cs) sub \<or> includes_str cs sub)"

text \<open>\<open>s.slice(0, -1)\<close>\<close>

definition slice_0_m1 :: "string \<Rightarrow> string" where
  "slice_0_m1 s = butlast s"

text \<open>\<open>xs.join(sep)\<close> on strings.\<close>

fun join :: "string \<Rightarrow> string list \<Rightarrow> string" where
  "join sep [] = []"
| "join sep [x] = x"
| "join sep (x # y # ys) = x @ sep @ join sep (y # ys)"

text \<open>
  \<open>String(v)\<close>, which is also how a value is turned into a property key and how a
  template literal renders it. An array joins its elements with a comma, \<open>null\<close> and
  \<open>undefined\<close> elements giving the empty string. A plain object gives
  \<open>[object Object]\<close> through the inherited \<open>toString\<close>; an object with an own
  property \<open>toString\<close> (in parsed data never a function) cannot be converted: TypeError.
\<close>

fun sequence_err :: "(js_error + 'a) list \<Rightarrow> js_error + 'a list" where
  "sequence_err [] = Inr []"
| "sequence_err (x # xs) =
    (case x of Inl e \<Rightarrow> Inl e
     | Inr v \<Rightarrow> (case sequence_err xs of Inl e \<Rightarrow> Inl e | Inr vs \<Rightarrow> Inr (v # vs)))"

fun js_to_string :: "jsval \<Rightarrow> js_error + string" where
  "js_to_string JUndefined = Inr ''undefined''"
| "js_to_string JNull = Inr ''null''"
| "js_to_string (JBool b) = Inr (if b then ''true'' else ''false'')"
| "js_to_string (JNum n) = Inr (num_to_string n)"
| "js_to_string (JStr s) = Inr s"
| "js_to_string (JArr xs) =
    (case sequence_err
       (map (\<lambda>x. if x = JNull \<or> x = JUndefined then Inr [] else js_to_string x) xs) of
       Inl e \<Rightarrow> Inl e
     | Inr ss \<Rightarrow> Inr (join '','' ss))"
| "js_to_string (JObj kvs) =
    (if ''toString'' \<in> fst ` set kvs then Inl TypeError else Inr ''[object Object]'')"
| "js_to_string (JBuiltin f) =
    Inr (''function '' @ (if f = ''constructor'' then ''Object'' else f) @ ''() { [native code] }'')"
| "js_to_string JObjectPrototype = Inr ''[object Object]''"

section \<open>Mapping utilities (scripts/utils/mapping-utils.js)\<close>

definition TABLE_TO_SCHEMA_MAP :: props where
  "TABLE_TO_SCHEMA_MAP =
    [(''project'', JObj [(''schemaName'', JStr ''project''), (''idField'', JStr ''project_id'')]),
     (''process_instance'', JObj [(''schemaName'', JStr ''process''), (''idField'', JStr ''process_id'')]),
     (''document'', JObj [(''schemaName'', JStr ''document''), (''idField'', JStr ''document_id'')]),
     (''comment'', JObj [(''schemaName'', JStr ''public_comment''), (''idField'', JStr ''comment_id'')]),
     (''engagement'', JObj [(''schemaName'', JStr ''public_engagement_event''), (''idField'', JStr ''event_id'')]),
     (''case_event'', JObj [(''schemaName'', JStr ''case_event''), (''idField'', JStr ''case_event_id'')]),
     (''gis_data'', JObj [(''schemaName'', JStr ''gis_data''), (''idField'', JStr ''gis_id'')]),
     (''gis_data_element'', JObj [(''schemaName'', JStr ''gis_data_element''), (''idField'', JStr ''gis_element_id'')]),
     (''user_role'', JObj [(''schemaName'', JStr ''user_role''), (''idField'', JStr ''role_id'')]),
     (''legal_structure'', JObj [(''schemaName'', JStr ''legal_structure''), (''idField'', JStr ''legal_structure_id'')]),
     (''decision_element'', JObj [(''schemaName'', JStr ''decision_element''), (''idField'', JStr ''decision_element_id'')]),
     (''process_model'', JObj [(''schemaName'', JStr ''process_model''), (''idField'', JStr ''process_model_id'')]),
     (''process_decision_payload'', JObj [(''schemaName'', JStr ''decision_payload''), (''idField'', JStr ''decision_payload_id'')])]"

text \<open>
  \<open>v.name\<close> for one of the fixed member names the scripts read (\<open>schemaName\<close>,
  \<open>idField\<close>, \<open>properties\<close>, \<open>items\<close>, \<open>type\<close>): on a plain object the lookup
  above; strings, numbers, booleans, arrays and built-in functions have no member of
  these names, so the read gives \<open>undefined\<close>.
\<close>

definition js_member :: "jsval \<Rightarrow> string \<Rightarrow> jsval" where
  "js_member v k = (case v of JObj kvs \<Rightarrow> obj_get kvs k | _ \<Rightarrow> JUndefined)"

definition getSchemaMapping :: "string \<Rightarrow> jsval" where
  "getSchemaMapping tableName =
    js_or (obj_get TABLE_TO_SCHEMA_MAP tableName)
          (JObj [(''schemaName'', JStr tableName), (''idField'', JStr (tableName @ ''_id''))])"

definition mapEntityId :: "string \<Rightarrow> jsval" where
  "mapEntityId tableName = js_member (getSchemaMapping tableName) ''idField''"

definition statusMap :: props where
  "statusMap =
    [(''Pre-application'', JStr ''pre-application''),
     (''Complete'', JStr ''completed''),
     (''Completed'', JStr ''completed''),
     (''In Progress'', JStr ''in-progress''),
     (''Pending'', JStr ''pending''),
     (''Active'', JStr ''underway''),
     (''Cancelled'', JStr ''cancelled'')]"

text \<open>
  \<open>status?.toLowerCase()\<close>: \<open>undefined\<close> for \<open>null\<close> and \<open>undefined\<close>, the
  lower-cased copy of a string, and a TypeError for any other value (it has no callable
  member \<open>toLowerCase\<close>).
\<close>

definition opt_toLowerCase :: "jsval \<Rightarrow> js_error + jsval" where
  "opt_toLowerCase v =
    (case v of
       JUndefined \<Rightarrow> Inr JUndefined
     | JNull \<Rightarrow> Inr JUndefined
     | JStr s \<Rightarrow> Inr (JStr (toLowerCase s))
     | _ \<Rightarrow> Inl TypeError)"

definition mapStatus :: "jsval \<Rightarrow> js_error + jsval" where
  "mapStatus status =
    (case js_to_string status of
       Inl e \<Rightarrow> Inl e
     | Inr k \<Rightarrow>
        (if truthy (obj_get statusMap k) then Inr (obj_get statusMap k)
         else (case opt_toLowerCase status of
                 Inl e \<Rightarrow> Inl e
               | Inr l \<Rightarrow> Inr (js_or l (JStr ''underway'')))))"

definition documentTypeMap :: props where
  "documentTypeMap =
    [(''FEIS'', JStr ''Final EIS''),
     (''DEIS'', JStr ''Draft EIS''),
     (''EA'', JStr ''Environmental Assessment''),
     (''FONSI'', JStr ''Finding of No Significant Impact''),
     (''NOI'', JStr ''Notice of Intent''),
     (''ROD'', JStr ''Record of Decision'')]"

definition mapDocumentType :: "jsval \<Rightarrow> js_error + jsval" where
  "mapDocumentType type =
    (case js_to_string type of
       Inl e \<Rightarrow> Inl e
     | Inr k \<Rightarrow> Inr (js_or (obj_get documentTypeMap k) type))"

definition engagementTypeMap :: props where
  "engagementTypeMap =
    [(''public meeting'', JStr ''public meeting''),
     (''notice'', JStr ''notice''),
     (''solicitation'', JStr ''solicitation''),
     (''hearing'', JStr ''public hearing''),
     (''workshop'', JStr ''workshop''),
     (''scoping'', JStr ''scoping meeting'')]"

definition mapEngagementType :: "jsval \<Rightarrow> js_error + jsval" where
  "mapEngagementType type =
    (case js_to_string type of
       Inl e \<Rightarrow> Inl e
     | Inr k \<Rightarrow> Inr (js_or (obj_get engagementTypeMap k) (JStr ''public meeting'')))"

definition eventStatusMap :: props where
  "eventStatusMap =
    [(''Completed'', JStr ''completed''),
     (''Complete'', JStr ''completed''),
     (''In Progress'', JStr ''in-progress''),
     (''Pending'', JStr ''pending''),
     (''Cancelled'', JStr ''cancelled''),
     (''Scheduled'', JStr ''scheduled'')]"

definition mapEventStatus :: "jsval \<Rightarrow> js_error + jsval" where
  "mapEventStatus status =
    (case js_to_string status of
       Inl e \<Rightarrow> Inl e
     | Inr k \<Rightarrow>
        (if truthy (obj_get eventStatusMap k) then Inr (obj_get eventStatusMap k)
         else (case opt_toLowerCase status of
                 Inl e \<Rightarrow> Inl e
               | Inr l \<Rightarrow> Inr (js_or l (JStr ''pending'')))))"


text \<open>
  The string of a value that is not an object or an array, where the conversion cannot
  fail: the schema key a field is mapped to, and the values rendered in messages.
\<close>

definition key_of :: "jsval \<Rightarrow> string" where
  "key_of v = (case js_to_string v of Inr s \<Rightarrow> s | Inl e \<Rightarrow> [])"

definition shouldIgnoreField :: "string \<Rightarrow> bool" where
  "shouldIgnoreField fieldName =
    (let systemFields = [''created_at'', ''updated_at'', ''_id'', ''other'', ''notes''];
         ignoredParentFields =
           [''parent_comment_id'', ''parent_event_id'', ''parent_engagement_id'',
            ''parent_case_event_id'']
     in if fieldName \<in> set systemFields \<or> fieldName \<in> set ignoredParentFields then True
        else if startsWith fieldName ''_'' \<or> includes_str fieldName ''_json'' then True
        else if endsWith fieldName ''_id'' \<and> startsWith fieldName ''parent_'' then
          (let importantParentFields =
                 [''parent_project_id'', ''parent_process_id'', ''parent_document_id'']
           in fieldName \<notin> set importantParentFields)
        else False)"

definition fieldMappingsByTable :: props where
  "fieldMappingsByTable =
    [(''project'', JObj
       [(''id'', JStr ''project_id''),
        (''title'', JStr ''project_title''),
        (''description'', JStr ''project_description''),
        (''sector'', JStr ''project_sector''),
        (''sponsor'', JStr ''project_sponsor''),
        (''type'', JStr ''project_type''),
        (''funding'', JStr ''funding_source'')]),
     (''document'', JObj
       [(''id'', JStr ''document_id''),
        (''revision_no'', JStr ''revision_number''),
        (''supplement_no'', JStr ''supplement_number''),
        (''public_access'', JStr ''public_access''),
        (''parent_process_id'', JStr ''process_id'')]),
     (''process_instance'', JObj
       [(''id'', JStr ''process_id''),
        (''parent_project_id'', JStr ''project_id''),
        (''comment_start'', JStr ''comment_period_start''),
        (''comment_end'', JStr ''comment_period_end''),
        (''process_model'', JStr ''process_model_id''),
        (''federal_id'', JStr ''federal_unique_id''),
        (''description'', JStr ''description''),
        (''type'', JStr ''process_type''),
        (''status'', JStr ''process_status''),
        (''stage'', JStr ''process_stage''),
        (''complete_date'', JStr ''completion_date''),
        (''outcome'', JStr ''process_outcome'')]),
     (''gis_data'', JObj
       [(''id'', JStr ''gis_id''),
        (''centroid_lat'', JStr ''centroid_latitude''),
        (''centroid_lon'', JStr ''centroid_longitude''),
        (''creator_contact'', JStr ''creator_contact_info''),
        (''map_image'', JStr ''map_image_url''),
        (''data_container'', JStr ''container_inventory''),
        (''address'', JStr ''location_address''),
        (''updated_last'', JStr ''last_updated''),
        (''creator'', JStr ''creator''),
        (''description'', JStr ''description''),
        (''extent'', JStr ''extent''),
        (''notes'', JStr ''notes'')]),
     (''comment'', JObj
       [(''id'', JStr ''comment_id''),
        (''parent_document_id'', JStr ''related_document_id''),
        (''commenter_entity'', JStr ''commenter_name''),
        (''content_text'', JStr ''content''),
        (''submission_method'', JStr ''method_of_submission''),
        (''public_acess'', JStr ''public_access''),
        (''response_text'', JStr ''agency_response'')]),
     (''case_event'', JObj
       [(''id'', JStr ''case_event_id''),
        (''name'', JStr ''event_name''),
        (''type'', JStr ''event_type''),
        (''datetime'', JStr ''event_date''),
        (''parent_process_id'', JStr ''process_id'')]),
     (''engagement'', JObj
       [(''id'', JStr ''event_id''),
        (''parent_process_id'', JStr ''related_process_id''),
        (''participation'', JStr ''participation_method''),
        (''start_datetime'', JStr ''date''),
        (''related_document_id'', JStr ''related_document_id'')]),
     (''decision_element'', JObj
       [(''id'', JStr ''decision_element_id''),
        (''process_model'', JStr ''process_model_id''),
        (''title'', JStr ''element_title''),
        (''description'', JStr ''element_description''),
        (''threshold'', JStr ''threshold''),
        (''spatial'', JStr ''spatial''),
        (''category'', JStr ''category'')]),
     (''process_decision_payload'', JObj
       [(''id'', JStr ''decision_payload_id''),
        (''process'', JStr ''process_id''),
        (''project'', JStr ''project_id''),
        (''process_decision_element'', JStr ''decision_element_id''),
        (''evaluation_data'', JStr ''payload_data''),
        (''created_at'', JStr ''created_date'')]),
     (''process_model'', JObj
       [(''id'', JStr ''process_model_id''),
        (''title'', JStr ''name'')]),
     (''gis_data_element'', JObj
       [(''id'', JStr ''gis_element_id''),
        (''parent_gis'', JStr ''gis_id''),
        (''format'', JStr ''data_type''),
        (''container_reference'', JStr ''container_reference''),
        (''access_method'', JStr ''access_method''),
        (''coordinate_system'', JStr ''coordinate_system''),
        (''top_left_lat'', JStr ''top_left_lat''),
        (''top_left_lon'', JStr ''top_left_lon''),
        (''bot_right_lat'', JStr ''bot_right_lat''),
        (''bot_right_lon'', JStr ''bot_right_lon''),
        (''purpose'', JStr ''purpose''),
        (''data_match'', JStr ''data_match''),
        (''access_info'', JStr ''access_info'')]),
     (''legal_structure'', JObj [(''id'', JStr ''legal_structure_id'')]),
     (''user_role'', JObj [(''id'', JStr ''role_id'')])]"

definition specialMappings :: props where
  "specialMappings =
    [(''sponsor'', JStr ''project_sponsor''),
     (''location_text'', JStr ''location''),
     (''location_object'', JStr ''location''),
     (''content_text'', JStr ''content''),
     (''response_text'', JStr ''agency_response''),
     (''commenter_entity'', JStr ''commenter_name''),
     (''submission_method'', JStr ''method_of_submission''),
     (''public_acess'', JStr ''public_access''),
     (''related_process_id'', JStr ''process_id'')]"

text \<open>
  The result is a string, or a member inherited from \<open>Object.prototype\<close> when the
  field name names one, or \<open>undefined\<close> (field \<open>id\<close> of a table named like an
  inherited member). For a table named like an inherited member the table-specific entry
  \<open>fieldMappingsByTable[tableName]\<close> is a built-in, whose own members are not
  modelled: the read \<open>[fieldName]\<close> on it is taken as \<open>undefined\<close>.
\<close>

definition mapDatabaseFieldToSchema :: "string \<Rightarrow> string \<Rightarrow> jsval" where
  "mapDatabaseFieldToSchema fieldName tableName =
    (if fieldName = ''id'' then mapEntityId tableName
     else
       (let byTable = obj_get fieldMappingsByTable tableName
        in if truthy byTable \<and> truthy (js_member byTable fieldName)
           then js_member byTable fieldName
           else js_or (obj_get specialMappings fieldName) (JStr fieldName)))"


section \<open>Transformation utilities (scripts/utils/transformation-utils.js)\<close>

definition getDefaultValueForType :: "jsval \<Rightarrow> jsval" where
  "getDefaultValueForType type =
    (if type = JStr ''string'' then JStr []
     else if type = JStr ''integer'' \<or> type = JStr ''number'' then JNum 0
     else if type = JStr ''boolean'' then JBool False
     else if type = JStr ''object'' then JObj []
     else if type = JStr ''array'' then JArr []
     else JNull)"

text \<open>The index keys \<open>'0'\<close>, \<open>'1'\<close>, ... of an array or a string, with the elements.\<close>

definition index_entries :: "'a list \<Rightarrow> (string \<times> 'a) list" where
  "index_entries xs = zip (map digits [0..<length xs]) xs"

text \<open>
  \<open>v[k]\<close> with a computed key, as in \<open>schemaProperties[key]\<close>. A plain object gives an
  own or inherited member; an array or a string gives an element or its length. Methods
  of the other built-in prototypes are not modelled and read as \<open>undefined\<close>: the
  transformers only ask of such a read whether it is one of the six type names and
  whether it has a member \<open>properties\<close> or \<open>items\<close>, which no built-in method has.
\<close>

definition js_get :: "jsval \<Rightarrow> string \<Rightarrow> jsval" where
  "js_get v k =
    (case v of
       JObj kvs \<Rightarrow> obj_get kvs k
     | JArr xs \<Rightarrow>
        (case map_of (index_entries xs) k of
           Some x \<Rightarrow> x
         | None \<Rightarrow> if k = ''length'' then JNum (int (length xs)) else proto_get k)
     | JStr s \<Rightarrow>
        (case map_of (index_entries s) k of
           Some c \<Rightarrow> JStr [c]
         | None \<Rightarrow> if k = ''length'' then JNum (int (length s)) else proto_get k)
     | _ \<Rightarrow> JUndefined)"

text \<open>The keys and values a \<open>for (const key in v)\<close> loop visits.\<close>

definition forin_entries :: "jsval \<Rightarrow> props" where
  "forin_entries v =
    (case v of
       JObj kvs \<Rightarrow> kvs
     | JArr xs \<Rightarrow> index_entries xs
     | JStr s \<Rightarrow> index_entries (map (\<lambda>c. JStr [c]) s)
     | _ \<Rightarrow> [])"

text \<open>
  \<open>obj[k] = v\<close> on an object built from the literal \<open>{}\<close>: an existing property keeps
  its place, a new one goes last. The key \<open>__proto__\<close> is the inherited accessor and
  creates no own property. When \<open>v\<close> is an object or \<open>null\<close> the accessor makes it
  the prototype of \<open>obj\<close>, and a later \<open>for (key in obj)\<close> also visits what
  \<open>obj\<close> then inherits; objects here have no prototype of their own, so this effect
  is left out. It arises only from a property named \<open>__proto__\<close> in the data: the
  statements about what a later pass reads from a transformed object are made for
  documents without such a property (\<open>no_proto_keys\<close> below).
\<close>

fun update_prop :: "(string \<times> 'a) list \<Rightarrow> string \<Rightarrow> 'a \<Rightarrow> (string \<times> 'a) list" where
  "update_prop [] k v = [(k, v)]"
| "update_prop ((k', v') # kvs) k v =
    (if k' = k then (k, v) # kvs else (k', v') # update_prop kvs k v)"

definition set_prop :: "(string \<times> 'a) list \<Rightarrow> string \<Rightarrow> 'a \<Rightarrow> (string \<times> 'a) list" where
  "set_prop kvs k v = (if k = ''__proto__'' then kvs else update_prop kvs k v)"

text \<open>\<open>delete obj[k]\<close>\<close>

definition delete_prop :: "(string \<times> 'a) list \<Rightarrow> string \<Rightarrow> (string \<times> 'a) list" where
  "delete_prop kvs k = filter (\<lambda>(k', v). k' \<noteq> k) kvs"

text \<open>\<open>typeof v === 'object' && v !== null\<close>, and \<open>Array.isArray(v)\<close>.\<close>

fun is_object :: "jsval \<Rightarrow> bool" where
  "is_object (JObj kvs) = True"
| "is_object (JArr xs) = True"
| "is_object JObjectPrototype = True"
| "is_object v = False"

fun is_array :: "jsval \<Rightarrow> bool" where
  "is_array (JArr xs) = True"
| "is_array v = False"

text \<open>
  \<open>schemaProperties[key] && schemaProperties[key].properties ? schemaProperties[key].properties : {}\<close>
\<close>

definition nested_props :: "jsval \<Rightarrow> string \<Rightarrow> jsval" where
  "nested_props schemaProperties key =
    (if truthy (js_get schemaProperties key)
        \<and> truthy (js_member (js_get schemaProperties key) ''properties'')
     then js_member (js_get schemaProperties key) ''properties''
     else JObj [])"

text \<open>
  Lines 52 to 63 of \<open>transformProperties\<close>: the null-to-default replacement. Under
  \<open>value === null\<close> the test \<open>entity[key] !== defaultValue\<close> compares \<open>null\<close> with a
  default that is not \<open>null\<close>, so it holds.
\<close>

definition tp_default ::
  "string \<Rightarrow> string \<Rightarrow> jsval \<Rightarrow> jsval \<Rightarrow> string list \<Rightarrow> jsval \<times> string list" where
  "tp_default entityType key expectedType v fixes =
    (if v = JNull \<and> truthy expectedType then
       (let defaultValue = getDefaultValueForType expectedType
        in if defaultValue \<noteq> JNull \<or> endsWith key ''_id'' then
             (if defaultValue \<noteq> JNull then
                (defaultValue,
                 fixes @ [''Replaced null with default '' @ [CHR 0x27] @ key_of defaultValue
                          @ [CHR 0x27] @ '' for '' @ entityType @ ''.'' @ key
                          @ '' (expected '' @ key_of expectedType @ '')''])
              else (v, fixes))
           else (v, fixes))
     else (v, fixes))"

fun jsize :: "jsval \<Rightarrow> nat" where
  "jsize (JArr xs) = Suc (sum_list (map (\<lambda>x. Suc (jsize x)) xs))"
| "jsize (JObj kvs) = Suc (sum_list (map (\<lambda>p. Suc (jsize (snd p))) kvs))"
| "jsize v = 1"

text \<open>
  \<open>transformProperties\<close>; \<open>fixes\<close> is the array the function appends to, returned
  with the result. \<open>tp_loop\<close> is the \<open>for (const key in entity)\<close> loop, \<open>out\<close> being
  \<open>transformedEntity\<close>. The parameter default \<open>schemaProperties = {}\<close> applies to
  \<open>undefined\<close>.
\<close>

function transformProperties ::
    "jsval \<Rightarrow> string \<Rightarrow> string list \<Rightarrow> jsval \<Rightarrow> jsval \<times> string list"
  and tp_loop ::
    "props \<Rightarrow> string \<Rightarrow> jsval \<Rightarrow> props \<Rightarrow> string list \<Rightarrow> props \<times> string list"
where
  "transformProperties entity entityType fixes schemaProperties =
    (if \<not> is_object entity then (entity, fixes)
     else
       (let sp = (if schemaProperties = JUndefined then JObj [] else schemaProperties);
            (out, fixes') = tp_loop (forin_entries entity) entityType sp [] fixes
        in (JObj out, fixes')))"
| "tp_loop [] entityType sp out fixes = (out, fixes)"
| "tp_loop ((key, v) # rest) entityType sp out fixes =
    (let expectedType = js_get sp key;
         (value, fixes1) = tp_default entityType key expectedType v fixes
     in if entityType = ''gis_data'' \<and> key = ''container_inventory'' \<and> is_array value then
          (case value of
             JArr (x # xs) \<Rightarrow>
               tp_loop rest entityType sp (set_prop out key x)
                 (fixes1 @ [''Fixed container_inventory structure to object for '' @ entityType])
           | _ \<Rightarrow>
               tp_loop rest entityType sp (set_prop out key (JObj []))
                 (fixes1 @ [''Set empty container_inventory to object for '' @ entityType]))
        else if is_object value \<and> \<not> is_array value then
          (let (r, fixes2) =
                 transformProperties value (entityType @ ''.'' @ key) fixes1 (nested_props sp key)
           in tp_loop rest entityType sp (set_prop out key r) fixes2)
        else tp_loop rest entityType sp (set_prop out key value) fixes1)"
  by pat_completeness auto


lemma jsize_pos: "0 < jsize v"
  by (cases v) auto

lemma jsize_default: "jsize (getDefaultValueForType t) = 1"
  by (simp add: getDefaultValueForType_def)

lemma jsize_tp_default:
  "tp_default et k t v f = (v', f') \<Longrightarrow> jsize v' \<le> jsize v"
  using jsize_pos [of v]
  by (auto simp: tp_default_def Let_def jsize_default split: if_splits)

lemma map_snd_index_entries: "map snd (index_entries xs) = xs"
  by (simp add: index_entries_def)

lemma loop_size_index_entries:
  "sum_list (map (\<lambda>p. Suc (jsize (snd p))) (index_entries xs))
     = sum_list (map (\<lambda>x. Suc (jsize x)) xs)"
proof -
  have "map (\<lambda>p. Suc (jsize (snd p))) (index_entries xs)
          = map (\<lambda>x. Suc (jsize x)) (map snd (index_entries xs))"
    by (simp add: comp_def)
  then show ?thesis by (simp add: map_snd_index_entries)
qed

lemma loop_size_forin:
  "is_object e \<Longrightarrow> sum_list (map (\<lambda>p. Suc (jsize (snd p))) (forin_entries e)) < jsize e"
  by (cases e) (simp_all add: forin_entries_def loop_size_index_entries)

termination transformProperties
  apply (relation "measure (\<lambda>x. case x of
          Inl (e, _, _, _) \<Rightarrow> jsize e
        | Inr (es, _, _, _, _) \<Rightarrow> sum_list (map (\<lambda>p. Suc (jsize (snd p))) es))")
  apply (simp_all add: loop_size_forin)
  apply (auto dest!: jsize_tp_default sym [of "(_, _)" "tp_default _ _ _ _ _"])
  done

declare transformProperties.simps [simp del]

text \<open>\<open>value.map(arrItem => transformProperties(arrItem, entityType, fixes, props))\<close>\<close>

fun tp_map :: "jsval list \<Rightarrow> string \<Rightarrow> string list \<Rightarrow> jsval \<Rightarrow> jsval list \<times> string list" where
  "tp_map [] entityType fixes sp = ([], fixes)"
| "tp_map (x # xs) entityType fixes sp =
    (let (r, fixes1) = transformProperties x entityType fixes sp;
         (rs, fixes2) = tp_map xs entityType fixes1 sp
     in (r # rs, fixes2))"

text \<open>
  Lines 127 to 131 of \<open>transformEntity\<close>: the value translators, chosen by the
  schema key.
\<close>

definition te_translate :: "jsval \<Rightarrow> string \<Rightarrow> string \<Rightarrow> jsval \<Rightarrow> js_error + jsval" where
  "te_translate schemaKey originalType targetType v =
    (if schemaKey = JStr ''status'' \<or> schemaKey = JStr ''process_status''
        \<or> schemaKey = JStr ''project_status'' then mapStatus v
     else if schemaKey = JStr ''document_type'' then mapDocumentType v
     else if schemaKey = JStr ''event_type''
        \<and> (targetType = ''public_engagement_events'' \<or> originalType = ''engagement'')
       then mapEngagementType v
     else if schemaKey = JStr ''event_status''
        \<and> (targetType = ''public_engagement_events'' \<or> originalType = ''engagement'')
       then mapEventStatus v
     else Inr v)"

text \<open>
  \<open>a !== d\<close> where \<open>d\<close> was just returned by \<open>getDefaultValueForType\<close>: a new
  object or array is identical to nothing else.
\<close>

definition differs_from_default :: "jsval \<Rightarrow> jsval \<Rightarrow> bool" where
  "differs_from_default a d = (case d of JObj kvs \<Rightarrow> True | JArr xs \<Rightarrow> True | _ \<Rightarrow> a \<noteq> d)"

text \<open>Lines 135 to 144: the null-to-default replacement of \<open>transformEntity\<close>.\<close>

definition te_default ::
  "string \<Rightarrow> string \<Rightarrow> jsval \<Rightarrow> jsval \<Rightarrow> jsval \<Rightarrow> jsval \<Rightarrow> jsval \<Rightarrow> string list
    \<Rightarrow> jsval \<times> string list" where
  "te_default originalType key schemaKey idField expectedType itemValue v fixes =
    (if v = JNull \<and> truthy expectedType then
       (let defaultValue = getDefaultValueForType expectedType
        in if defaultValue \<noteq> JNull \<or> schemaKey = idField then
             (if differs_from_default itemValue defaultValue then
                (defaultValue,
                 fixes @ [''Replaced null with default '' @ [CHR 0x27] @ key_of defaultValue
                          @ [CHR 0x27] @ '' for '' @ originalType @ ''.'' @ key
                          @ '' (mapped to '' @ key_of schemaKey
                          @ '', expected '' @ key_of expectedType @ '')''])
              else (v, fixes))
           else (v, fixes))
     else (v, fixes))"

text \<open>
  Lines 146 to 153: identifiers to strings. The value never is a bigint: parsed data has
  none.
\<close>

definition te_id_string ::
  "string \<Rightarrow> string \<Rightarrow> string \<Rightarrow> jsval \<Rightarrow> string list \<Rightarrow> jsval \<times> string list" where
  "te_id_string originalType key schemaKey v fixes =
    (if endsWith schemaKey ''_id'' then
       (case v of
          JNum n \<Rightarrow>
            (JStr (num_to_string n),
             fixes @ [''Converted numeric ID '' @ originalType @ ''.'' @ key
                      @ '' (mapped to '' @ schemaKey @ '') to string: '' @ num_to_string n
                      @ '' -> '' @ num_to_string n])
        | _ \<Rightarrow> (v, fixes))
     else (v, fixes))"

text \<open>Lines 156 to 169: nested objects and arrays, and the assignment.\<close>

definition te_store ::
  "string \<Rightarrow> string \<Rightarrow> jsval \<Rightarrow> jsval \<Rightarrow> props \<Rightarrow> string list \<Rightarrow> props \<times> string list" where
  "te_store originalType schemaKey esp v out fixes =
    (if is_object v \<and> \<not> is_array v then
       (let (r, fixes1) =
              transformProperties v (originalType @ ''.'' @ schemaKey) fixes
                (nested_props esp schemaKey)
        in (set_prop out schemaKey r, fixes1))
     else if is_array v \<and> truthy (js_get esp schemaKey)
          \<and> truthy (js_member (js_get esp schemaKey) ''items'')
          \<and> truthy (js_member (js_member (js_get esp schemaKey) ''items'') ''properties'') then
       (let (rs, fixes1) =
              tp_map (case v of JArr xs \<Rightarrow> xs | _ \<Rightarrow> [])
                (originalType @ ''.'' @ schemaKey @ ''[]'') fixes
                (js_member (js_member (js_get esp schemaKey) ''items'') ''properties'')
        in (set_prop out schemaKey (JArr rs), fixes1))
     else (set_prop out schemaKey v, fixes))"

text \<open>
  One round of the loop \<open>for (const key in item)\<close>. A schema key that is no string
  (the field name names a member inherited from \<open>Object.prototype\<close>) has no method
  \<open>endsWith\<close>: the call on line 147 throws a TypeError.
\<close>

definition te_entry ::
  "string \<Rightarrow> string \<Rightarrow> jsval \<Rightarrow> jsval \<Rightarrow> string \<Rightarrow> jsval \<Rightarrow> props \<Rightarrow> string list
    \<Rightarrow> js_error + props \<times> string list" where
  "te_entry originalType targetType esp idField key itemValue out fixes =
    (let schemaKey = mapDatabaseFieldToSchema key originalType
     in case te_translate schemaKey originalType targetType itemValue of
          Inl e \<Rightarrow> Inl e
        | Inr v1 \<Rightarrow>
           (let expectedType = js_get esp (key_of schemaKey);
                (v2, fixes1) =
                  te_default originalType key schemaKey idField expectedType itemValue v1 fixes
            in case schemaKey of
                 JStr sk \<Rightarrow>
                   (let (v3, fixes2) = te_id_string originalType key sk v2 fixes1
                    in Inr (te_store originalType sk esp v3 out fixes2))
               | _ \<Rightarrow> Inl TypeError))"

fun te_loop ::
  "props \<Rightarrow> string \<Rightarrow> string \<Rightarrow> jsval \<Rightarrow> jsval \<Rightarrow> props \<Rightarrow> string list
    \<Rightarrow> js_error + props \<times> string list" where
  "te_loop [] originalType targetType esp idField out fixes = Inr (out, fixes)"
| "te_loop ((key, itemValue) # rest) originalType targetType esp idField out fixes =
    (case te_entry originalType targetType esp idField key itemValue out fixes of
       Inl e \<Rightarrow> Inl e
     | Inr (out1, fixes1) \<Rightarrow> te_loop rest originalType targetType esp idField out1 fixes1)"

text \<open>Lines 172 to 181: the identifier of the target entity.\<close>

definition te_target_id :: "string \<Rightarrow> jsval \<Rightarrow> props \<Rightarrow> string list \<Rightarrow> props \<times> string list" where
  "te_target_id targetType esp out fixes =
    (let targetIdField = key_of (mapEntityId (slice_0_m1 targetType))
     in if \<not> truthy (obj_get out targetIdField) \<and> truthy (js_get esp targetIdField) then
          (let idDefaultValue = getDefaultValueForType (js_get esp targetIdField)
           in if idDefaultValue \<noteq> JNull then
                (set_prop out targetIdField idDefaultValue,
                 fixes @ [''Added missing ID field '' @ [CHR 0x27] @ targetIdField @ [CHR 0x27]
                          @ '' with default '' @ [CHR 0x27] @ key_of idDefaultValue
                          @ [CHR 0x27] @ '' for '' @ targetType])
              else (out, fixes))
        else (out, fixes))"

text \<open>
  Lines 185 to 196: a missing GIS field gets the default of its type or, when that is
  falsy, the fallback.
\<close>

definition te_gis_field ::
  "string \<Rightarrow> string \<Rightarrow> jsval \<Rightarrow> jsval \<Rightarrow> props \<Rightarrow> string list \<Rightarrow> props \<times> string list" where
  "te_gis_field originalType field fallback esp out fixes =
    (if \<not> truthy (obj_get out field) \<and> truthy (js_get esp field) then
       (set_prop out field (js_or (getDefaultValueForType (js_get esp field)) fallback),
        fixes @ [''Added missing required '' @ field @ '' for '' @ originalType])
     else (out, fixes))"

text \<open>
  Lines 197 to 209. In the first branch the value is truthy and \<open>typeof\<close> is not
  \<open>'object'\<close>, so it is no array and the inner \<open>else\<close> is taken.
\<close>

definition te_gis_container :: "string \<Rightarrow> jsval \<Rightarrow> props \<Rightarrow> string list \<Rightarrow> props \<times> string list" where
  "te_gis_container originalType esp out fixes =
    (let ci = obj_get out ''container_inventory'';
         expectsObject =
           (truthy (js_get esp ''container_inventory'')
            \<and> js_member (js_get esp ''container_inventory'') ''type'' = JStr ''object'')
     in if truthy ci \<and> \<not> is_object ci \<and> expectsObject then
          (set_prop out ''container_inventory'' (getDefaultValueForType (JStr ''object'')),
           fixes @ [''Fixed container_inventory structure to object for '' @ originalType])
        else if \<not> truthy ci \<and> expectsObject then
          (set_prop out ''container_inventory'' (getDefaultValueForType (JStr ''object'')),
           fixes @ [''Added missing container_inventory as empty object for '' @ originalType])
        else (out, fixes))"

text \<open>
  \<open>transformEntity\<close>. \<open>now\<close> is the value of \<open>Date.now()\<close>. The parameter default
  \<open>entitySchemaProperties = {}\<close> applies to \<open>undefined\<close>.
\<close>

definition transformEntity ::
  "int \<Rightarrow> jsval \<Rightarrow> string \<Rightarrow> string \<Rightarrow> string list \<Rightarrow> jsval
    \<Rightarrow> js_error + props \<times> string list" where
  "transformEntity now item originalType targetType fixes entitySchemaProperties =
    (let esp = (if entitySchemaProperties = JUndefined then JObj [] else entitySchemaProperties);
         idField = mapEntityId originalType
     in case te_loop (forin_entries item) originalType targetType esp idField [] fixes of
          Inl e \<Rightarrow> Inl e
        | Inr (out1, fixes1) \<Rightarrow>
           (let (out2, fixes2) = te_target_id targetType esp out1 fixes1
            in if originalType = ''gis_data'' \<or> targetType = ''gis_data'' then
                 (let (out3, fixes3) =
                        te_gis_field originalType ''gis_id''
                          (JStr (''gis-'' @ num_to_string now)) esp out2 fixes2;
                      (out4, fixes4) =
                        te_gis_field originalType ''data_type'' (JStr ''point'') esp out3 fixes3;
                      (out5, fixes5) =
                        te_gis_field originalType ''coordinate_system'' (JStr ''WGS84'') esp
                          out4 fixes4
                  in Inr (te_gis_container originalType esp out5 fixes5))
               else Inr (out2, fixes2)))"


text \<open>
  \<open>JSON.parse(JSON.stringify(v))\<close>. \<open>json_value v\<close> is \<open>None\<close> where
  \<open>JSON.stringify\<close> gives \<open>undefined\<close>: such a property is left out of an object
  and becomes \<open>null\<close> in an array. (No value of parsed data has a callable member
  \<open>toJSON\<close>.)
\<close>

fun json_value :: "jsval \<Rightarrow> jsval option" where
  "json_value JUndefined = None"
| "json_value (JBuiltin f) = None"
| "json_value JObjectPrototype = Some (JObj [])"
| "json_value (JArr xs) =
    Some (JArr (map (\<lambda>x. case json_value x of None \<Rightarrow> JNull | Some y \<Rightarrow> y) xs))"
| "json_value (JObj kvs) =
    Some (JObj (concat (map (\<lambda>p. case json_value (snd p) of None \<Rightarrow> []
                                     | Some y \<Rightarrow> [(fst p, y)]) kvs)))"
| "json_value v = Some v"

definition json_clone :: "props \<Rightarrow> props" where
  "json_clone d = (case json_value (JObj d) of Some (JObj kvs) \<Rightarrow> kvs | _ \<Rightarrow> [])"

definition object_string_props :: jsval where
  "object_string_props =
    JObj [(''type'', JStr ''object''),
          (''properties'', JObj [(''description'', JStr ''string''),
                                 (''gis_reference'', JStr ''string'')])]"

definition simplifiedSchemas :: props where
  "simplifiedSchemas =
    [(''project'', JObj
       [(''project_id'', JStr ''string''), (''project_title'', JStr ''string''),
        (''project_status'', JStr ''string''),
        (''project_sponsor'', JObj
           [(''type'', JStr ''object''),
            (''properties'', JObj [(''name'', JStr ''string''),
                                   (''contact_info'', JStr ''string'')])]),
        (''location'', object_string_props),
        (''notes'', JStr ''string'')]),
     (''process'', JObj
       [(''process_id'', JStr ''string''), (''parent_process_id'', JStr ''string''),
        (''process_stage'', JStr ''string''), (''notes'', JStr ''string''),
        (''purpose_need'', JStr ''string''), (''process_model'', JStr ''string''),
        (''description'', JStr ''string'')]),
     (''document'', JObj
       [(''document_id'', JStr ''string''), (''document_type'', JStr ''string''),
        (''volume_title'', JStr ''string''),
        (''revision_number'', JStr ''integer''), (''supplement_number'', JStr ''integer''),
        (''url'', JStr ''string''),
        (''notes'', JStr ''string''), (''document_summary'', JStr ''string''),
        (''document_toc'', JStr ''string''),
        (''document_revision'', JStr ''string'')]),
     (''public_comment'', JObj
       [(''comment_id'', JStr ''string''), (''method_of_submission'', JStr ''string'')]),
     (''public_engagement_event'', JObj
       [(''event_id'', JStr ''string''),
        (''location'', object_string_props)]),
     (''case_event'', JObj
       [(''case_event_id'', JStr ''string''), (''source'', JStr ''string''),
        (''outcome'', JStr ''string''),
        (''parent_event_id'', JStr ''integer''), (''related_engagement_id'', JStr ''integer''),
        (''following_segment'', JStr ''string'')]),
     (''gis_data'', JObj
       [(''gis_id'', JStr ''string''), (''data_type'', JStr ''string''),
        (''coordinate_system'', JStr ''string''), (''extent'', JStr ''string''),
        (''notes'', JStr ''string''),
        (''parent_project_id'', JStr ''integer''), (''parent_process_id'', JStr ''integer''),
        (''parent_document_id'', JStr ''integer''),
        (''parent_case_event_id'', JStr ''integer''), (''parent_comment_id'', JStr ''integer''),
        (''parent_engagement_id'', JStr ''integer''),
        (''container_inventory'', JObj [(''type'', JStr ''object''), (''properties'', JObj [])])]),
     (''legal_structure'', JObj
       [(''legal_structure_id'', JStr ''string''), (''effective_date'', JStr ''string''),
        (''context'', JStr ''string'')]),
     (''decision_element'', JObj
       [(''decision_element_id'', JStr ''string''), (''intersect'', JStr ''string''),
        (''spatial_reference'', JStr ''string''),
        (''evaluation_dmn'', JStr ''string''), (''spatial'', JStr ''string'')]),
     (''process_model'', JObj
       [(''process_model_id'', JStr ''string''), (''name'', JStr ''string''),
        (''bpmn_model'', JStr ''string''), (''DMN_model'', JStr ''string'')]),
     (''decision_payload'', JObj
       [(''decision_payload_id'', JStr ''string''), (''evaluation_data'', JStr ''object''),
        (''response'', JStr ''string''), (''result'', JStr ''string''),
        (''result_bool'', JStr ''boolean''), (''result_notes'', JStr ''string''),
        (''result_source'', JStr ''string''),
        (''data_annotation'', JStr ''string''),
        (''evaluation_data_annotation'', JStr ''string'')])]"

text \<open>
  \<open>entityTypesMap\<close> in the order of its keys: the source type, the target array and
  the schema properties \<open>simplifiedSchemas.<name>\<close> (\<open>undefined\<close> for
  \<open>user_role\<close>, which has no entry).
\<close>

definition entityTypesMap :: "(string \<times> string \<times> jsval) list" where
  "entityTypesMap =
    [(''project'', ''projects'', obj_get simplifiedSchemas ''project''),
     (''process_instance'', ''processes'', obj_get simplifiedSchemas ''process''),
     (''document'', ''documents'', obj_get simplifiedSchemas ''document''),
     (''comment'', ''public_comments'', obj_get simplifiedSchemas ''public_comment''),
     (''engagement'', ''public_engagement_events'',
        obj_get simplifiedSchemas ''public_engagement_event''),
     (''case_event'', ''case_events'', obj_get simplifiedSchemas ''case_event''),
     (''gis_data_element'', ''gis_data'', obj_get simplifiedSchemas ''gis_data''),
     (''gis_data'', ''gis_data'', obj_get simplifiedSchemas ''gis_data''),
     (''user_role'', ''user_roles'', obj_get simplifiedSchemas ''user_role''),
     (''legal_structure'', ''legal_structures'', obj_get simplifiedSchemas ''legal_structure''),
     (''decision_element'', ''decision_elements'', obj_get simplifiedSchemas ''decision_element''),
     (''process_model'', ''process_models'', obj_get simplifiedSchemas ''process_model''),
     (''process_decision_payload'', ''decision_payloads'',
        obj_get simplifiedSchemas ''decision_payload'')]"

text \<open>\<open>itemsToTransform.forEach(item => ... transformEntity(item, ...))\<close>, collecting the results.\<close>

fun te_all ::
  "int \<Rightarrow> jsval list \<Rightarrow> string \<Rightarrow> string \<Rightarrow> string list \<Rightarrow> jsval
    \<Rightarrow> js_error + jsval list \<times> string list" where
  "te_all now [] originalType target fixes schemaProps = Inr ([], fixes)"
| "te_all now (item # items) originalType target fixes schemaProps =
    (case transformEntity now item originalType target fixes schemaProps of
       Inl e \<Rightarrow> Inl e
     | Inr (out, fixes1) \<Rightarrow>
        (case te_all now items originalType target fixes1 schemaProps of
           Inl e \<Rightarrow> Inl e
         | Inr (outs, fixes2) \<Rightarrow> Inr (JObj out # outs, fixes2)))"

text \<open>
  One round of the loop over \<open>entityTypesMap\<close> (lines 314 to 328). The results are
  pushed onto \<open>transformedData[target]\<close>; a value there that is truthy and no array
  has no method \<open>push\<close>, so the first push throws a TypeError. \<open>forEach\<close> visits the
  elements the array had when the loop started, also when the target is that same array
  (\<open>gis_data\<close>).
\<close>

definition legacy_step ::
  "int \<Rightarrow> string \<times> string \<times> jsval \<Rightarrow> props \<times> string list \<Rightarrow> js_error + props \<times> string list" where
  "legacy_step now entry state =
    (case entry of (originalType, target, schemaProps) \<Rightarrow>
     case state of (transformedData, fixes) \<Rightarrow>
       if truthy (obj_get transformedData originalType) then
         (let data1 = (if \<not> truthy (obj_get transformedData target)
                       then set_prop transformedData target (JArr [])
                       else transformedData);
              itemsToTransform =
                (case obj_get data1 originalType of JArr xs \<Rightarrow> xs | v \<Rightarrow> [v])
          in case te_all now itemsToTransform originalType target fixes schemaProps of
               Inl e \<Rightarrow> Inl e
             | Inr (outs, fixes1) \<Rightarrow>
                (let done = ''Transformed '' @ originalType @ '' data to NEPA '' @ target
                            @ '' format''
                 in if itemsToTransform = [] then
                      Inr (delete_prop data1 originalType, fixes1 @ [done])
                    else
                      (case obj_get data1 target of
                         JArr ys \<Rightarrow>
                           Inr (delete_prop (set_prop data1 target (JArr (ys @ outs))) originalType,
                                fixes1 @ [done])
                       | _ \<Rightarrow> Inl TypeError)))
       else Inr (transformedData, fixes))"

fun legacy_loop ::
  "int \<Rightarrow> (string \<times> string \<times> jsval) list \<Rightarrow> props \<times> string list
    \<Rightarrow> js_error + props \<times> string list" where
  "legacy_loop now [] state = Inr state"
| "legacy_loop now (entry # entries) state =
    (case legacy_step now entry state of
       Inl e \<Rightarrow> Inl e
     | Inr state1 \<Rightarrow> legacy_loop now entries state1)"

text \<open>
  The second pass (lines 330 to 342): every top-level array is mapped through
  \<open>transformProperties\<close>, with the schema properties found under the key without its
  last character. The loop assigns to keys that exist, so it visits the keys in place.
\<close>

fun second_pass :: "props \<Rightarrow> string list \<Rightarrow> props \<times> string list" where
  "second_pass [] fixes = ([], fixes)"
| "second_pass ((nepaKey, v) # rest) fixes =
    (case v of
       JArr xs \<Rightarrow>
         (let entityType = slice_0_m1 nepaKey;
              schemaProps = js_or (obj_get simplifiedSchemas entityType) (JObj []);
              (ys, fixes1) = tp_map xs entityType fixes schemaProps;
              (rest', fixes2) = second_pass rest fixes1
          in ((nepaKey, JArr ys) # rest', fixes2))
     | _ \<Rightarrow>
         (let (rest', fixes1) = second_pass rest fixes
          in ((nepaKey, v) # rest', fixes1)))"

text \<open>
  \<open>transformToNepaFormat\<close>, for a document \<open>data\<close> that is an object; the result is
  the pair of \<open>data\<close> and \<open>fixes\<close> of the returned object.
\<close>

definition transformToNepaFormat :: "int \<Rightarrow> props \<Rightarrow> js_error + props \<times> string list" where
  "transformToNepaFormat now data =
    (let transformedData = json_clone data;
         state0 =
           (if \<not> truthy (obj_get transformedData ''projects'') then
              (set_prop transformedData ''projects'' (JArr []),
               [''Added missing required projects array to root level''])
            else (transformedData, []))
     in case legacy_loop now entityTypesMap state0 of
          Inl e \<Rightarrow> Inl e
        | Inr (data1, fixes1) \<Rightarrow> Inr (second_pass data1 fixes1))"


section \<open>Crosswalk validation (scripts/validate-database-crosswalk.js)\<close>

text \<open>
  A row of the crosswalk, and one definition of the NEPA schema: its \<open>properties\<close>
  object and its \<open>required\<close> array of names, each possibly absent. The schema
  definitions are an object from names to definitions.
\<close>

record crosswalk_column =
  column :: string
  data_type :: string
  description :: string

record schema_def =
  sd_properties :: "props option"
  sd_required :: "string list option"

type_synonym schema_defs = "(string \<times> schema_def) list"

text \<open>
  \<open>schemaDefinitions[schemaName]\<close>, \<open>None\<close> when the value is falsy. A name
  inherited from \<open>Object.prototype\<close> finds a built-in, which is truthy and has neither
  \<open>properties\<close> nor \<open>required\<close>.
\<close>

definition lookup_def :: "schema_defs \<Rightarrow> jsval \<Rightarrow> schema_def option" where
  "lookup_def defs schemaName =
    (case map_of defs (key_of schemaName) of
       Some d \<Rightarrow> Some d
     | None \<Rightarrow>
        if key_of schemaName \<in> set inherited_names
        then Some \<lparr>sd_properties = None, sd_required = None\<rparr>
        else None)"

text \<open>\<open>schemaDef.properties || {}\<close> and \<open>schemaDef.required || []\<close>\<close>

definition properties_of :: "schema_def \<Rightarrow> props" where
  "properties_of d = (case sd_properties d of Some p \<Rightarrow> p | None \<Rightarrow> [])"

definition required_of :: "schema_def \<Rightarrow> string list" where
  "required_of d = (case sd_required d of Some r \<Rightarrow> r | None \<Rightarrow> [])"

text \<open>The messages pushed to \<open>errors\<close> and \<open>warnings\<close>, with the values their templates insert.\<close>

datatype message =
    NoNepaDefinition string jsval
  | RequiredSchemaPropertyMissing string string
  | SchemaPropertyNotFound string string
  | UnmatchedColumn string string jsval jsval
  | SchemaDefinitionNotFound jsval string
  | RequiredNepaPropertyMissing string string
  | UnmatchedNepaColumn string string jsval jsval

fun render :: "message \<Rightarrow> string" where
  "render (NoNepaDefinition tableName schemaName) =
    ''No NEPA schema definition found for table: '' @ tableName @ '' (mapped to: ''
      @ key_of schemaName @ '')''"
| "render (RequiredSchemaPropertyMissing propName tableName) =
    ''Required schema property '' @ [CHR 0x27] @ propName @ [CHR 0x27]
      @ '' missing in database table '' @ [CHR 0x27] @ tableName @ [CHR 0x27]"
| "render (SchemaPropertyNotFound propName tableName) =
    ''Schema property '' @ [CHR 0x27] @ propName @ [CHR 0x27]
      @ '' not found in database table '' @ [CHR 0x27] @ tableName @ [CHR 0x27]"
| "render (UnmatchedColumn tableName columnName mappedName schemaName) =
    ''Database column '' @ [CHR 0x27] @ tableName @ ''.'' @ columnName @ [CHR 0x27]
      @ '' (mapped to '' @ [CHR 0x27] @ key_of mappedName @ [CHR 0x27]
      @ '') does not match any property in schema '' @ [CHR 0x27] @ key_of schemaName
      @ [CHR 0x27]"
| "render (SchemaDefinitionNotFound schemaName tableName) =
    ''Schema definition not found for: '' @ key_of schemaName @ '' (table: '' @ tableName
      @ '')''"
| "render (RequiredNepaPropertyMissing names tableName) =
    ''Required NEPA schema property '' @ [CHR 0x27] @ names @ [CHR 0x27]
      @ '' missing in database table '' @ [CHR 0x27] @ tableName @ [CHR 0x27]"
| "render (UnmatchedNepaColumn tableName dbField mappedName schemaName) =
    ''Database column '' @ [CHR 0x27] @ tableName @ ''.'' @ dbField @ [CHR 0x27]
      @ '' (mapped to '' @ [CHR 0x27] @ key_of mappedName @ [CHR 0x27]
      @ '') does not match any property in NEPA schema '' @ [CHR 0x27] @ key_of schemaName
      @ [CHR 0x27]"

subsection \<open>validateTableAgainstSchema\<close>

text \<open>
  The result object; \<open>cw_found\<close> and \<open>cw_total\<close> are \<open>coverage.found\<close> and
  \<open>coverage.total\<close>. The function is modelled at the default
  \<open>databaseSchemaDefinitions = null\<close>: the code under that parameter writes
  \<open>databaseCoverage\<close>, \<open>unmatchedDatabaseFields\<close>, \<open>errors\<close> and \<open>valid\<close>, never
  \<open>coverage\<close>.
\<close>

record crosswalk_result =
  cw_tableName :: string
  cw_valid :: bool
  cw_errors :: "message list"
  cw_warnings :: "message list"
  cw_found :: nat
  cw_total :: nat
  cw_mappingWarnings :: "message list"
  cw_unmatchedProperties :: "string list"
  cw_missingRequiredFields :: "string list option"

text \<open>
  The loop \<open>columns.forEach\<close> (lines 122 to 149); \<open>covered\<close> is the set
  \<open>coveredSchemaProps\<close>, kept as a list without repetitions.
\<close>

fun cw_columns ::
  "string \<Rightarrow> jsval \<Rightarrow> props \<Rightarrow> string list \<Rightarrow> crosswalk_column list
     \<Rightarrow> jsval list \<times> crosswalk_result \<Rightarrow> jsval list \<times> crosswalk_result" where
  "cw_columns tableName schemaName schemaProperties requiredFields [] state = state"
| "cw_columns tableName schemaName schemaProperties requiredFields (col # cols) (covered, results) =
    (let dbField = column col
     in if shouldIgnoreField dbField then
          cw_columns tableName schemaName schemaProperties requiredFields cols (covered, results)
        else
          (let mappedSchemaField = mapDatabaseFieldToSchema dbField tableName
           in if truthy (obj_get schemaProperties (key_of mappedSchemaField)) then
                cw_columns tableName schemaName schemaProperties requiredFields cols
                  (List.insert mappedSchemaField covered, results)
              else if mappedSchemaField \<in> JStr ` set requiredFields then
                cw_columns tableName schemaName schemaProperties requiredFields cols
                  (covered,
                   results\<lparr>cw_errors := cw_errors results
                              @ [RequiredNepaPropertyMissing (key_of mappedSchemaField) tableName],
                           cw_valid := False\<rparr>)
              else
                cw_columns tableName schemaName schemaProperties requiredFields cols
                  (covered,
                   results\<lparr>cw_mappingWarnings := cw_mappingWarnings results
                              @ [UnmatchedNepaColumn tableName dbField mappedSchemaField
                                   schemaName]\<rparr>)))"

definition validateTableAgainstSchema ::
  "string \<Rightarrow> crosswalk_column list \<Rightarrow> schema_defs \<Rightarrow> crosswalk_result" where
  "validateTableAgainstSchema tableName columns schemaDefinitions =
    (let results = \<lparr>cw_tableName = tableName, cw_valid = True, cw_errors = [],
                     cw_warnings = [], cw_found = 0, cw_total = 0, cw_mappingWarnings = [],
                     cw_unmatchedProperties = [], cw_missingRequiredFields = None\<rparr>;
         mapping = getSchemaMapping tableName;
         schemaName = js_member mapping ''schemaName''
     in case lookup_def schemaDefinitions schemaName of
          None \<Rightarrow>
            results\<lparr>cw_warnings := [SchemaDefinitionNotFound schemaName tableName]\<rparr>
        | Some schemaDef \<Rightarrow>
           (let schemaProperties = properties_of schemaDef;
                requiredFields = required_of schemaDef;
                relevantSchemaProps =
                  filter (\<lambda>prop. \<not> shouldIgnoreField prop) (map fst schemaProperties);
                results1 = results\<lparr>cw_total := length relevantSchemaProps\<rparr>;
                (covered, results2) =
                  cw_columns tableName schemaName schemaProperties requiredFields columns
                    ([], results1);
                results3 = results2\<lparr>cw_found := min (length covered) (cw_total results2)\<rparr>;
                missingRequiredFields =
                  filter (\<lambda>field. JStr field \<notin> set covered \<and> \<not> shouldIgnoreField field)
                    requiredFields;
                results4 =
                  (if missingRequiredFields \<noteq> [] then
                     results3\<lparr>cw_errors := cw_errors results3
                                @ [RequiredNepaPropertyMissing
                                     (join '', '' missingRequiredFields) tableName],
                              cw_valid := False\<rparr>
                   else results3);
                results5 =
                  results4\<lparr>cw_unmatchedProperties :=
                             filter (\<lambda>prop. JStr prop \<notin> set covered) relevantSchemaProps\<rparr>
            in if missingRequiredFields \<noteq> [] then
                 results5\<lparr>cw_missingRequiredFields := Some missingRequiredFields\<rparr>
               else results5))"

subsection \<open>validateTable\<close>

record table_result =
  vt_tableName :: string
  vt_valid :: bool
  vt_errors :: "message list"
  vt_warnings :: "message list"
  vt_found :: nat
  vt_total :: nat
  vt_missingRequired :: "string list"

text \<open>The keys of \<open>dbColumnMap\<close>: each column name and, where it differs, its mapped name.\<close>

definition dbColumnMap_keys :: "string \<Rightarrow> crosswalk_column list \<Rightarrow> jsval list" where
  "dbColumnMap_keys tableName dbColumns =
    concat (map (\<lambda>col.
      (let mappedName = mapDatabaseFieldToSchema (column col) tableName
       in JStr (column col) # (if mappedName \<noteq> JStr (column col) then [mappedName] else [])))
      dbColumns)"

definition specificMappings :: props where
  "specificMappings =
    [(''comment'', JObj
       [(''parent_document_id'', JStr ''related_document_id''),
        (''commenter_entity'', JStr ''commenter_name''),
        (''content_text'', JStr ''content''),
        (''submission_method'', JStr ''method_of_submission''),
        (''public_acess'', JStr ''public_access'')]),
     (''decision_element'', JObj
       [(''process_model'', JStr ''process_model_id''),
        (''title'', JStr ''element_title''),
        (''description'', JStr ''element_description'')]),
     (''engagement'', JObj
       [(''parent_process_id'', JStr ''related_process_id''),
        (''type'', JStr ''type''),
        (''start_datetime'', JStr ''date'')]),
     (''gis_data'', JObj
       [(''format'', JStr ''data_type''),
        (''coordinate_system'', JStr ''coordinate_system'')]),
     (''process_decision_payload'', JObj
       [(''process'', JStr ''process_id''),
        (''payload_data'', JStr ''payload_data''),
        (''created_date'', JStr ''created_date'')]),
     (''process_instance'', JObj
       [(''parent_project_id'', JStr ''project_id''),
        (''type'', JStr ''process_type''),
        (''status'', JStr ''process_status'')])]"

text \<open>
  Lines 289 to 315: is the schema property found among the columns, directly, through
  the specific mappings of the table, or by mapping each column. \<open>Object.entries\<close> of
  a built-in (a table named like an inherited member) is empty.
\<close>

definition property_found :: "string \<Rightarrow> crosswalk_column list \<Rightarrow> string \<Rightarrow> bool" where
  "property_found tableName dbColumns propName =
    (let keys = dbColumnMap_keys tableName dbColumns;
         entries = (case obj_get specificMappings tableName of JObj kvs \<Rightarrow> kvs | _ \<Rightarrow> [])
     in JStr propName \<in> set keys
        \<or> (\<exists>(dbCol, schemaProp) \<in> set entries. schemaProp = JStr propName \<and> JStr dbCol \<in> set keys)
        \<or> (\<exists>col \<in> set dbColumns.
              mapDatabaseFieldToSchema (column col) tableName = JStr propName))"

text \<open>Lines 323 to 342: the required properties that count as present without being found.\<close>

definition known_mapping :: "string \<Rightarrow> crosswalk_column list \<Rightarrow> string \<Rightarrow> bool" where
  "known_mapping tableName dbColumns propName =
    (let has = (\<lambda>k. JStr k \<in> set (dbColumnMap_keys tableName dbColumns))
     in (tableName = ''comment'' \<and> propName = ''related_document_id'' \<and> has ''parent_document_id'')
        \<or> (tableName = ''decision_element'' \<and> propName = ''process_model_id'' \<and> has ''process_model'')
        \<or> (tableName = ''engagement'' \<and> propName = ''related_process_id'' \<and> has ''parent_process_id'')
        \<or> (tableName = ''gis_data'' \<and> propName = ''data_type'')
        \<or> (tableName = ''process_decision_payload'' \<and> propName = ''process_id'' \<and> has ''process'')
        \<or> (tableName = ''process_instance'' \<and> propName = ''project_id'' \<and> has ''parent_project_id''))"

text \<open>The coverage loop (lines 288 to 352).\<close>

fun vt_coverage ::
  "string \<Rightarrow> crosswalk_column list \<Rightarrow> string list \<Rightarrow> string list \<Rightarrow> table_result
     \<Rightarrow> table_result" where
  "vt_coverage tableName dbColumns requiredSchemaFields [] results = results"
| "vt_coverage tableName dbColumns requiredSchemaFields (propName # propNames) results =
    vt_coverage tableName dbColumns requiredSchemaFields propNames
      (if property_found tableName dbColumns propName then
         results\<lparr>vt_found := vt_found results + 1\<rparr>
       else if propName \<in> set requiredSchemaFields then
         (if known_mapping tableName dbColumns propName then
            results\<lparr>vt_found := vt_found results + 1\<rparr>
          else
            results\<lparr>vt_errors := vt_errors results
                       @ [RequiredSchemaPropertyMissing propName tableName],
                    vt_valid := False,
                    vt_missingRequired := vt_missingRequired results @ [propName]\<rparr>)
       else
         results\<lparr>vt_warnings := vt_warnings results
                    @ [SchemaPropertyNotFound propName tableName]\<rparr>)"

text \<open>Lines 361 to 370: does the column match a schema property.\<close>

definition hasSchemaMatch :: "string \<Rightarrow> props \<Rightarrow> string \<Rightarrow> bool" where
  "hasSchemaMatch tableName schemaProperties columnName =
    (let mappedName = mapDatabaseFieldToSchema columnName tableName;
         direct = truthy (js_or (obj_get schemaProperties (key_of mappedName))
                                (obj_get schemaProperties columnName));
         specificMapping = js_member (obj_get specificMappings tableName) columnName
     in direct
        \<or> (truthy (obj_get specificMappings tableName) \<and> truthy specificMapping
            \<and> truthy (obj_get schemaProperties (key_of specificMapping))))"

text \<open>The loop over the columns (lines 355 to 375).\<close>

fun vt_unmatched ::
  "string \<Rightarrow> jsval \<Rightarrow> props \<Rightarrow> crosswalk_column list \<Rightarrow> table_result \<Rightarrow> table_result" where
  "vt_unmatched tableName schemaName schemaProperties [] results = results"
| "vt_unmatched tableName schemaName schemaProperties (col # cols) results =
    (let columnName = column col
     in if shouldIgnoreField columnName then
          vt_unmatched tableName schemaName schemaProperties cols results
        else if \<not> hasSchemaMatch tableName schemaProperties columnName
                \<and> \<not> endsWith columnName ''_id'' \<and> \<not> startsWith columnName ''parent_'' then
          vt_unmatched tableName schemaName schemaProperties cols
            (results\<lparr>vt_warnings := vt_warnings results
                       @ [UnmatchedColumn tableName columnName
                            (mapDatabaseFieldToSchema columnName tableName) schemaName]\<rparr>)
        else vt_unmatched tableName schemaName schemaProperties cols results)"

definition validateTable ::
  "string \<Rightarrow> crosswalk_column list \<Rightarrow> schema_defs \<Rightarrow> table_result" where
  "validateTable tableName dbColumns nepaSchemaDefinitions =
    (let results = \<lparr>vt_tableName = tableName, vt_valid = True, vt_errors = [],
                     vt_warnings = [], vt_found = 0, vt_total = 0, vt_missingRequired = []\<rparr>;
         schemaMapping = getSchemaMapping tableName;
         schemaName = js_member schemaMapping ''schemaName''
     in case lookup_def nepaSchemaDefinitions schemaName of
          None \<Rightarrow> results\<lparr>vt_warnings := [NoNepaDefinition tableName schemaName]\<rparr>
        | Some schemaDefinition \<Rightarrow>
           (let schemaProperties = properties_of schemaDefinition;
                requiredSchemaFields = required_of schemaDefinition;
                relevantSchemaProps =
                  filter (\<lambda>prop. \<not> shouldIgnoreField prop) (map fst schemaProperties);
                results1 = results\<lparr>vt_total := length relevantSchemaProps\<rparr>;
                results2 =
                  vt_coverage tableName dbColumns requiredSchemaFields relevantSchemaProps
                    results1
            in vt_unmatched tableName schemaName schemaProperties dbColumns results2))"


text \<open>
  The number of canonical properties of the table's target entity that are not ignored
  (0 when the schema has no definition for it).
\<close>

definition relevant_count :: "schema_defs \<Rightarrow> string \<Rightarrow> nat" where
  "relevant_count defs tableName =
    (case lookup_def defs (js_member (getSchemaMapping tableName) ''schemaName'') of
       None \<Rightarrow> 0
     | Some d \<Rightarrow> length (filter (\<lambda>prop. \<not> shouldIgnoreField prop) (map fst (properties_of d))))"

text \<open>
  The definition \<open>public_comment\<close> of \<open>nepa.schema.json\<close>: its properties, each with
  the \<open>type\<close> of its descriptor, and its required names.
\<close>

definition nepa_public_comment :: schema_def where
  "nepa_public_comment =
    \<lparr>sd_properties = Some
       [(''id'', JObj [(''type'', JStr ''integer'')]),
        (''comment_id'', JObj [(''type'', JStr ''string'')]),
        (''commenter_name'', JObj [(''type'', JStr ''string'')]),
        (''content'', JObj [(''type'', JStr ''string'')]),
        (''date_submitted'', JObj [(''type'', JStr ''string'')]),
        (''related_document_id'', JObj [(''type'', JStr ''string'')]),
        (''method_of_submission'', JObj [(''type'', JStr ''string'')]),
        (''agency_response'', JObj [(''type'', JStr ''string'')]),
        (''public_source'', JObj [(''type'', JStr ''string'')]),
        (''content_json'', JObj [(''type'', JStr ''object'')]),
        (''response_json'', JObj [(''type'', JStr ''object'')]),
        (''public_access'', JObj [(''type'', JStr ''string'')])],
     sd_required = Some
       [''comment_id'', ''commenter_name'', ''content'', ''date_submitted'',
        ''related_document_id'']\<rparr>"


text \<open>What the loop of \<open>transformEntity\<close> leaves under the identifier key \<open>idf\<close>,
  given records whose identifier values are null, false, strings or numbers: nothing,
  \<open>false\<close> or a string.\<close>

definition id_slot :: "props \<Rightarrow> string \<Rightarrow> bool" where
  "id_slot out idf =
    (case map_of out idf of
       None \<Rightarrow> True
     | Some v \<Rightarrow> v = JBool False \<or> (\<exists>s. v = JStr s))"







section \<open>The transformer on a store of objects\<close>

text \<open>
  The transformers again, on the objects of the JavaScript heap: an object or array is a
  cell of the store and a value refers to it by its address, so that two references to
  one object, and an assignment through either, are what they are in the program. The
  functions of this section follow the source statement by statement: every object or
  array literal and every \<open>map\<close> allocates a cell, every assignment
  \<open>obj[key] = value\<close>, \<open>push\<close> and \<open>delete\<close> rewrites the cell of \<open>obj\<close>, and
  every \<open>fixes.push\<close> appends to the log.
\<close>

type_synonym addr = nat

datatype hval =
    HUndefined
  | HNull
  | HBool bool
  | HNum int
  | HStr string
  | HRef addr
  | HBuiltin string
  | HObjectPrototype

text \<open>
  A plain object holds its own properties in the order of their creation. An array holds
  its elements and the properties with other names that were assigned to it
  (\<open>transformedData.projects = []\<close> on a document that is an array).
\<close>

datatype cell = CObj "(string \<times> hval) list" | CArr "hval list" "(string \<times> hval) list"

record store =
  heap :: "cell list"
  fixes_log :: "string list"

text \<open>A computation on the store; a throw keeps the store it left behind.\<close>

type_synonym 'a run = "store \<Rightarrow> (js_error + 'a) \<times> store"

definition ret :: "'a \<Rightarrow> 'a run" where
  "ret x = (\<lambda>s. (Inr x, s))"

definition throw :: "js_error \<Rightarrow> 'a run" where
  "throw e = (\<lambda>s. (Inl e, s))"

definition bind :: "'a run \<Rightarrow> ('a \<Rightarrow> 'b run) \<Rightarrow> 'b run" where
  "bind m f = (\<lambda>s. case m s of (Inl e, s') \<Rightarrow> (Inl e, s') | (Inr x, s') \<Rightarrow> f x s')"

definition alloc :: "cell \<Rightarrow> addr run" where
  "alloc c = (\<lambda>s. (Inr (length (heap s)), s\<lparr>heap := heap s @ [c]\<rparr>))"

definition get_cell :: "addr \<Rightarrow> cell run" where
  "get_cell a = (\<lambda>s. if a < length (heap s) then (Inr (heap s ! a), s) else (Inl TypeError, s))"

definition put_cell :: "addr \<Rightarrow> cell \<Rightarrow> unit run" where
  "put_cell a c = (\<lambda>s. if a < length (heap s) then (Inr (), s\<lparr>heap := (heap s)[a := c]\<rparr>)
                        else (Inl TypeError, s))"

definition push_fix :: "string \<Rightarrow> unit run" where
  "push_fix msg = (\<lambda>s. (Inr (), s\<lparr>fixes_log := fixes_log s @ [msg]\<rparr>))"

text \<open>
  The value a reference stands for, as a tree: what \<open>JSON.stringify\<close> and \<open>String\<close>
  read. \<open>d\<close> bounds the depth of the descent (beyond it the call stack is exhausted,
  a RangeError); a structure that contains itself is a TypeError, as for
  \<open>JSON.stringify\<close>. The named properties of an array are not part of its JSON text.
\<close>

fun view :: "nat \<Rightarrow> cell list \<Rightarrow> addr list \<Rightarrow> hval \<Rightarrow> js_error + jsval" where
  "view d h path HUndefined = Inr JUndefined"
| "view d h path HNull = Inr JNull"
| "view d h path (HBool b) = Inr (JBool b)"
| "view d h path (HNum n) = Inr (JNum n)"
| "view d h path (HStr s) = Inr (JStr s)"
| "view d h path (HBuiltin f) = Inr (JBuiltin f)"
| "view d h path HObjectPrototype = Inr JObjectPrototype"
| "view 0 h path (HRef a) = Inl RangeError"
| "view (Suc d) h path (HRef a) =
    (if a \<in> set path \<or> \<not> a < length h then Inl TypeError
     else (case h ! a of
             CArr xs ex \<Rightarrow>
               (case sequence_err (map (view d h (a # path)) xs) of
                  Inl e \<Rightarrow> Inl e
                | Inr ys \<Rightarrow> Inr (JArr ys))
           | CObj kvs \<Rightarrow>
               (case sequence_err (map (\<lambda>p. view d h (a # path) (snd p)) kvs) of
                  Inl e \<Rightarrow> Inl e
                | Inr ys \<Rightarrow> Inr (JObj (zip (map fst kvs) ys)))))"

definition view_run :: "nat \<Rightarrow> hval \<Rightarrow> jsval run" where
  "view_run depth v = (\<lambda>s. (view depth (heap s) [] v, s))"

text \<open>\<open>JSON.parse\<close> of the text of a tree: new cells, the parts before the whole.\<close>

fun alloc_json :: "jsval \<Rightarrow> store \<Rightarrow> hval \<times> store"
  and alloc_list :: "jsval list \<Rightarrow> store \<Rightarrow> hval list \<times> store"
  and alloc_props :: "(string \<times> jsval) list \<Rightarrow> store \<Rightarrow> (string \<times> hval) list \<times> store"
where
  "alloc_json JUndefined s = (HUndefined, s)"
| "alloc_json JNull s = (HNull, s)"
| "alloc_json (JBool b) s = (HBool b, s)"
| "alloc_json (JNum n) s = (HNum n, s)"
| "alloc_json (JStr x) s = (HStr x, s)"
| "alloc_json (JBuiltin f) s = (HBuiltin f, s)"
| "alloc_json JObjectPrototype s = (HObjectPrototype, s)"
| "alloc_json (JArr xs) s =
    (case alloc_list xs s of
       (vs, s1) \<Rightarrow> (HRef (length (heap s1)), s1\<lparr>heap := heap s1 @ [CArr vs []]\<rparr>))"
| "alloc_json (JObj kvs) s =
    (case alloc_props kvs s of
       (ps, s1) \<Rightarrow> (HRef (length (heap s1)), s1\<lparr>heap := heap s1 @ [CObj ps]\<rparr>))"
| "alloc_list [] s = ([], s)"
| "alloc_list (x # xs) s =
    (case alloc_json x s of
       (v, s1) \<Rightarrow> (case alloc_list xs s1 of (vs, s2) \<Rightarrow> (v # vs, s2)))"
| "alloc_props [] s = ([], s)"
| "alloc_props ((k, x) # kvs) s =
    (case alloc_json x s of
       (v, s1) \<Rightarrow> (case alloc_props kvs s1 of (ps, s2) \<Rightarrow> ((k, v) # ps, s2)))"

definition json_parse :: "jsval \<Rightarrow> hval run" where
  "json_parse j = (\<lambda>s. case alloc_json j s of (v, s') \<Rightarrow> (Inr v, s'))"

text \<open>A value that is no object or array, as a value of the store.\<close>

fun prim :: "jsval \<Rightarrow> hval" where
  "prim JNull = HNull"
| "prim (JBool b) = HBool b"
| "prim (JNum n) = HNum n"
| "prim (JStr s) = HStr s"
| "prim (JBuiltin f) = HBuiltin f"
| "prim JObjectPrototype = HObjectPrototype"
| "prim v = HUndefined"

fun truthy_h :: "hval \<Rightarrow> bool" where
  "truthy_h HUndefined = False"
| "truthy_h HNull = False"
| "truthy_h (HBool b) = b"
| "truthy_h (HNum n) = (n \<noteq> 0)"
| "truthy_h (HStr s) = (s \<noteq> [])"
| "truthy_h v = True"

fun is_object_h :: "hval \<Rightarrow> bool" where
  "is_object_h (HRef a) = True"
| "is_object_h HObjectPrototype = True"
| "is_object_h v = False"

text \<open>
  Reading, enumerating and writing the properties of one cell. An assignment updates an
  own property, else creates one, except under the name \<open>__proto__\<close>, which then is the
  inherited accessor (the prototype it gives the object is no part of the cell; the
  object is one the call allocated). On an array the name of an element updates the
  element; the other
  names the program assigns to an array are the names of the target arrays, never an index
  or \<open>length\<close>.
\<close>

definition cell_get :: "cell \<Rightarrow> string \<Rightarrow> hval" where
  "cell_get c k =
    (case c of
       CObj kvs \<Rightarrow> (case map_of kvs k of Some v \<Rightarrow> v | None \<Rightarrow> prim (proto_get k))
     | CArr xs ex \<Rightarrow>
        (case map_of (index_entries xs) k of
           Some x \<Rightarrow> x
         | None \<Rightarrow>
            if k = ''length'' then HNum (int (length xs))
            else (case map_of ex k of Some v \<Rightarrow> v | None \<Rightarrow> prim (proto_get k))))"

definition cell_entries :: "cell \<Rightarrow> (string \<times> hval) list" where
  "cell_entries c = (case c of CObj kvs \<Rightarrow> kvs | CArr xs ex \<Rightarrow> index_entries xs @ ex)"

definition assign_prop :: "(string \<times> hval) list \<Rightarrow> string \<Rightarrow> hval \<Rightarrow> (string \<times> hval) list" where
  "assign_prop kvs k v = (if k \<in> fst ` set kvs then update_prop kvs k v else set_prop kvs k v)"

definition cell_assign :: "cell \<Rightarrow> string \<Rightarrow> hval \<Rightarrow> cell" where
  "cell_assign c k v =
    (case c of
       CObj kvs \<Rightarrow> CObj (assign_prop kvs k v)
     | CArr xs ex \<Rightarrow>
        if k \<in> fst ` set (index_entries xs)
        then CArr (map (\<lambda>p. if fst p = k then v else snd p) (index_entries xs)) ex
        else CArr xs (assign_prop ex k v))"

definition cell_delete :: "cell \<Rightarrow> string \<Rightarrow> cell" where
  "cell_delete c k =
    (case c of
       CObj kvs \<Rightarrow> CObj (delete_prop kvs k)
     | CArr xs ex \<Rightarrow> CArr xs (delete_prop ex k))"

definition get_prop :: "hval \<Rightarrow> string \<Rightarrow> hval run" where
  "get_prop v k =
    (case v of
       HRef a \<Rightarrow> bind (get_cell a) (\<lambda>c. ret (cell_get c k))
     | HStr s \<Rightarrow>
         ret (case map_of (index_entries s) k of
                Some c \<Rightarrow> HStr [c]
              | None \<Rightarrow> if k = ''length'' then HNum (int (length s)) else prim (proto_get k))
     | HUndefined \<Rightarrow> throw TypeError
     | HNull \<Rightarrow> throw TypeError
     | HObjectPrototype \<Rightarrow> ret (prim (proto_get k))
     | _ \<Rightarrow> ret HUndefined)"

text \<open>The keys and values a \<open>for (const key in v)\<close> loop visits.\<close>

definition entries_of :: "hval \<Rightarrow> (string \<times> hval) list run" where
  "entries_of v =
    (case v of
       HRef a \<Rightarrow> bind (get_cell a) (\<lambda>c. ret (cell_entries c))
     | HStr s \<Rightarrow> ret (index_entries (map (\<lambda>c. HStr [c]) s))
     | _ \<Rightarrow> ret [])"

definition is_array_h :: "hval \<Rightarrow> bool run" where
  "is_array_h v =
    (case v of
       HRef a \<Rightarrow> bind (get_cell a) (\<lambda>c. ret (case c of CArr xs ex \<Rightarrow> True | CObj kvs \<Rightarrow> False))
     | _ \<Rightarrow> ret False)"

definition array_elems :: "hval \<Rightarrow> hval list run" where
  "array_elems v =
    (case v of
       HRef a \<Rightarrow> bind (get_cell a) (\<lambda>c. ret (case c of CArr xs ex \<Rightarrow> xs | CObj kvs \<Rightarrow> []))
     | _ \<Rightarrow> ret [])"

definition set_prop_h :: "addr \<Rightarrow> string \<Rightarrow> hval \<Rightarrow> unit run" where
  "set_prop_h a k v = bind (get_cell a) (\<lambda>c. put_cell a (cell_assign c k v))"

definition delete_prop_h :: "addr \<Rightarrow> string \<Rightarrow> unit run" where
  "delete_prop_h a k = bind (get_cell a) (\<lambda>c. put_cell a (cell_delete c k))"

text \<open>\<open>target.push(v)\<close>: only an array has the method.\<close>

definition push_h :: "hval \<Rightarrow> hval \<Rightarrow> unit run" where
  "push_h target v =
    (case target of
       HRef a \<Rightarrow>
         bind (get_cell a) (\<lambda>c.
           case c of
             CArr xs ex \<Rightarrow> put_cell a (CArr (xs @ [v]) ex)
           | CObj kvs \<Rightarrow> throw TypeError)
     | _ \<Rightarrow> throw TypeError)"

text \<open>The value \<open>getDefaultValueForType\<close> returns: \<open>{}\<close> and \<open>[]\<close> are new cells.\<close>

definition alloc_default :: "jsval \<Rightarrow> hval run" where
  "alloc_default d =
    (case d of
       JObj kvs \<Rightarrow> bind (alloc (CObj [])) (\<lambda>a. ret (HRef a))
     | JArr xs \<Rightarrow> bind (alloc (CArr [] [])) (\<lambda>a. ret (HRef a))
     | _ \<Rightarrow> ret (prim d))"

definition tp_default_h :: "string \<Rightarrow> string \<Rightarrow> jsval \<Rightarrow> hval \<Rightarrow> hval run" where
  "tp_default_h entityType key expectedType v =
    (if v = HNull \<and> truthy expectedType then
       (let defaultValue = getDefaultValueForType expectedType
        in bind (alloc_default defaultValue) (\<lambda>dv.
             if defaultValue \<noteq> JNull \<or> endsWith key ''_id'' then
               (if defaultValue \<noteq> JNull then
                  bind (push_fix (''Replaced null with default '' @ [CHR 0x27]
                          @ key_of defaultValue @ [CHR 0x27] @ '' for '' @ entityType @ ''.''
                          @ key @ '' (expected '' @ key_of expectedType @ '')'')) (\<lambda>u.
                  ret dv)
                else ret v)
             else ret v))
     else ret v)"

text \<open>
  \<open>transformProperties\<close>. \<open>depth\<close> is the number of nested calls the stack still
  takes; with none left the call throws a RangeError.
\<close>

fun transformProperties_h :: "nat \<Rightarrow> hval \<Rightarrow> string \<Rightarrow> jsval \<Rightarrow> hval run"
  and tp_loop_h :: "nat \<Rightarrow> (string \<times> hval) list \<Rightarrow> string \<Rightarrow> jsval \<Rightarrow> addr \<Rightarrow> unit run"
where
  "transformProperties_h depth entity entityType schemaProperties =
    (if \<not> is_object_h entity then ret entity
     else
       (case depth of
          0 \<Rightarrow> throw RangeError
        | Suc d \<Rightarrow>
            bind (alloc (CObj [])) (\<lambda>out.
            bind (entries_of entity) (\<lambda>es.
            bind (tp_loop_h d es entityType
                    (if schemaProperties = JUndefined then JObj [] else schemaProperties) out)
              (\<lambda>u. ret (HRef out))))))"
| "tp_loop_h depth [] entityType sp out = ret ()"
| "tp_loop_h depth ((key, v) # rest) entityType sp out =
    bind (tp_default_h entityType key (js_get sp key) v) (\<lambda>val.
    bind (is_array_h val) (\<lambda>arr.
      if entityType = ''gis_data'' \<and> key = ''container_inventory'' \<and> arr then
        bind (array_elems val) (\<lambda>xs.
          case xs of
            x # xs' \<Rightarrow>
              bind (set_prop_h out key x) (\<lambda>u.
              bind (push_fix (''Fixed container_inventory structure to object for ''
                               @ entityType)) (\<lambda>u.
              tp_loop_h depth rest entityType sp out))
          | [] \<Rightarrow>
              bind (alloc (CObj [])) (\<lambda>a.
              bind (set_prop_h out key (HRef a)) (\<lambda>u.
              bind (push_fix (''Set empty container_inventory to object for ''
                               @ entityType)) (\<lambda>u.
              tp_loop_h depth rest entityType sp out))))
      else if is_object_h val \<and> \<not> arr then
        bind (transformProperties_h depth val (entityType @ ''.'' @ key) (nested_props sp key))
          (\<lambda>r.
        bind (set_prop_h out key r) (\<lambda>u.
        tp_loop_h depth rest entityType sp out))
      else
        bind (set_prop_h out key val) (\<lambda>u.
        tp_loop_h depth rest entityType sp out)))"

text \<open>\<open>xs.map(x => transformProperties(x, entityType, fixes, sp))\<close>, the elements of the new array.\<close>

fun tp_map_h :: "nat \<Rightarrow> hval list \<Rightarrow> string \<Rightarrow> jsval \<Rightarrow> hval list run" where
  "tp_map_h depth [] entityType sp = ret []"
| "tp_map_h depth (x # xs) entityType sp =
    bind (transformProperties_h depth x entityType sp) (\<lambda>r.
    bind (tp_map_h depth xs entityType sp) (\<lambda>rs.
    ret (r # rs)))"

text \<open>
  The value translators read the value as a tree. What they return is a string, a member
  of \<open>Object.prototype\<close> or the argument itself.
\<close>

definition translated :: "hval \<Rightarrow> jsval \<Rightarrow> hval" where
  "translated v r = (case r of JObj kvs \<Rightarrow> v | JArr xs \<Rightarrow> v | _ \<Rightarrow> prim r)"

definition te_translate_h :: "nat \<Rightarrow> jsval \<Rightarrow> string \<Rightarrow> string \<Rightarrow> hval \<Rightarrow> hval run" where
  "te_translate_h depth schemaKey originalType targetType v =
    bind (view_run depth v) (\<lambda>t.
      case te_translate schemaKey originalType targetType t of
        Inl e \<Rightarrow> throw e
      | Inr r \<Rightarrow> ret (translated v r))"

definition differs_from_default_h :: "hval \<Rightarrow> jsval \<Rightarrow> bool" where
  "differs_from_default_h a d =
    (case d of JObj kvs \<Rightarrow> True | JArr xs \<Rightarrow> True | _ \<Rightarrow> a \<noteq> prim d)"

definition te_default_h ::
  "string \<Rightarrow> string \<Rightarrow> jsval \<Rightarrow> jsval \<Rightarrow> jsval \<Rightarrow> hval \<Rightarrow> hval \<Rightarrow> hval run" where
  "te_default_h originalType key schemaKey idField expectedType itemValue v =
    (if v = HNull \<and> truthy expectedType then
       (let defaultValue = getDefaultValueForType expectedType
        in bind (alloc_default defaultValue) (\<lambda>dv.
             if defaultValue \<noteq> JNull \<or> schemaKey = idField then
               (if differs_from_default_h itemValue defaultValue then
                  bind (push_fix (''Replaced null with default '' @ [CHR 0x27]
                          @ key_of defaultValue @ [CHR 0x27] @ '' for '' @ originalType @ ''.''
                          @ key @ '' (mapped to '' @ key_of schemaKey
                          @ '', expected '' @ key_of expectedType @ '')'')) (\<lambda>u.
                  ret dv)
                else ret v)
             else ret v))
     else ret v)"

definition te_id_string_h :: "string \<Rightarrow> string \<Rightarrow> string \<Rightarrow> hval \<Rightarrow> hval run" where
  "te_id_string_h originalType key schemaKey v =
    (if endsWith schemaKey ''_id'' then
       (case v of
          HNum n \<Rightarrow>
            bind (push_fix (''Converted numeric ID '' @ originalType @ ''.'' @ key
                      @ '' (mapped to '' @ schemaKey @ '') to string: '' @ num_to_string n
                      @ '' -> '' @ num_to_string n)) (\<lambda>u.
            ret (HStr (num_to_string n)))
        | _ \<Rightarrow> ret v)
     else ret v)"

definition te_store_h :: "nat \<Rightarrow> string \<Rightarrow> string \<Rightarrow> jsval \<Rightarrow> hval \<Rightarrow> addr \<Rightarrow> unit run" where
  "te_store_h depth originalType schemaKey esp v out =
    bind (is_array_h v) (\<lambda>arr.
      if is_object_h v \<and> \<not> arr then
        bind (transformProperties_h depth v (originalType @ ''.'' @ schemaKey)
                (nested_props esp schemaKey)) (\<lambda>r.
        set_prop_h out schemaKey r)
      else if arr \<and> truthy (js_get esp schemaKey)
          \<and> truthy (js_member (js_get esp schemaKey) ''items'')
          \<and> truthy (js_member (js_member (js_get esp schemaKey) ''items'') ''properties'') then
        bind (array_elems v) (\<lambda>xs.
        bind (tp_map_h depth xs (originalType @ ''.'' @ schemaKey @ ''[]'')
                (js_member (js_member (js_get esp schemaKey) ''items'') ''properties'')) (\<lambda>rs.
        bind (alloc (CArr rs [])) (\<lambda>a.
        set_prop_h out schemaKey (HRef a))))
      else set_prop_h out schemaKey v)"

definition te_entry_h ::
  "nat \<Rightarrow> string \<Rightarrow> string \<Rightarrow> jsval \<Rightarrow> jsval \<Rightarrow> string \<Rightarrow> hval \<Rightarrow> addr \<Rightarrow> unit run" where
  "te_entry_h depth originalType targetType esp idField key itemValue out =
    (let schemaKey = mapDatabaseFieldToSchema key originalType
     in bind (te_translate_h depth schemaKey originalType targetType itemValue) (\<lambda>v1.
        bind (te_default_h originalType key schemaKey idField (js_get esp (key_of schemaKey))
                itemValue v1) (\<lambda>v2.
        case schemaKey of
          JStr sk \<Rightarrow>
            bind (te_id_string_h originalType key sk v2) (\<lambda>v3.
            te_store_h depth originalType sk esp v3 out)
        | _ \<Rightarrow> throw TypeError)))"

fun te_loop_h ::
  "nat \<Rightarrow> (string \<times> hval) list \<Rightarrow> string \<Rightarrow> string \<Rightarrow> jsval \<Rightarrow> jsval \<Rightarrow> addr \<Rightarrow> unit run"
where
  "te_loop_h depth [] originalType targetType esp idField out = ret ()"
| "te_loop_h depth ((key, itemValue) # rest) originalType targetType esp idField out =
    bind (te_entry_h depth originalType targetType esp idField key itemValue out) (\<lambda>u.
    te_loop_h depth rest originalType targetType esp idField out)"

definition te_target_id_h :: "string \<Rightarrow> jsval \<Rightarrow> addr \<Rightarrow> unit run" where
  "te_target_id_h targetType esp out =
    (let targetIdField = key_of (mapEntityId (slice_0_m1 targetType))
     in bind (get_prop (HRef out) targetIdField) (\<lambda>cur.
          if \<not> truthy_h cur \<and> truthy (js_get esp targetIdField) then
            (let idDefaultValue = getDefaultValueForType (js_get esp targetIdField)
             in bind (alloc_default idDefaultValue) (\<lambda>dv.
                  if idDefaultValue \<noteq> JNull then
                    bind (set_prop_h out targetIdField dv) (\<lambda>u.
                    push_fix (''Added missing ID field '' @ [CHR 0x27] @ targetIdField
                          @ [CHR 0x27] @ '' with default '' @ [CHR 0x27] @ key_of idDefaultValue
                          @ [CHR 0x27] @ '' for '' @ targetType))
                  else ret ()))
          else ret ()))"

definition te_gis_field_h :: "string \<Rightarrow> string \<Rightarrow> jsval \<Rightarrow> jsval \<Rightarrow> addr \<Rightarrow> unit run" where
  "te_gis_field_h originalType field fallback esp out =
    bind (get_prop (HRef out) field) (\<lambda>cur.
      if \<not> truthy_h cur \<and> truthy (js_get esp field) then
        bind (alloc_default (getDefaultValueForType (js_get esp field))) (\<lambda>dv.
        bind (set_prop_h out field (if truthy_h dv then dv else prim fallback)) (\<lambda>u.
        push_fix (''Added missing required '' @ field @ '' for '' @ originalType)))
      else ret ())"

definition te_gis_container_h :: "string \<Rightarrow> jsval \<Rightarrow> addr \<Rightarrow> unit run" where
  "te_gis_container_h originalType esp out =
    bind (get_prop (HRef out) ''container_inventory'') (\<lambda>ci.
      let expectsObject =
            (truthy (js_get esp ''container_inventory'')
             \<and> js_member (js_get esp ''container_inventory'') ''type'' = JStr ''object'')
      in if truthy_h ci \<and> \<not> is_object_h ci \<and> expectsObject then
           bind (alloc_default (getDefaultValueForType (JStr ''object''))) (\<lambda>dv.
           bind (set_prop_h out ''container_inventory'' dv) (\<lambda>u.
           push_fix (''Fixed container_inventory structure to object for '' @ originalType)))
         else if \<not> truthy_h ci \<and> expectsObject then
           bind (alloc_default (getDefaultValueForType (JStr ''object''))) (\<lambda>dv.
           bind (set_prop_h out ''container_inventory'' dv) (\<lambda>u.
           push_fix (''Added missing container_inventory as empty object for ''
                       @ originalType)))
         else ret ())"

definition transformEntity_h ::
  "int \<Rightarrow> nat \<Rightarrow> hval \<Rightarrow> string \<Rightarrow> string \<Rightarrow> jsval \<Rightarrow> hval run" where
  "transformEntity_h now depth item originalType targetType entitySchemaProperties =
    (let esp = (if entitySchemaProperties = JUndefined then JObj [] else entitySchemaProperties);
         idField = mapEntityId originalType
     in bind (alloc (CObj [])) (\<lambda>out.
        bind (entries_of item) (\<lambda>es.
        bind (te_loop_h depth es originalType targetType esp idField out) (\<lambda>u.
        bind (te_target_id_h targetType esp out) (\<lambda>u.
        bind (if originalType = ''gis_data'' \<or> targetType = ''gis_data'' then
                bind (te_gis_field_h originalType ''gis_id''
                        (JStr (''gis-'' @ num_to_string now)) esp out) (\<lambda>u.
                bind (te_gis_field_h originalType ''data_type'' (JStr ''point'') esp out) (\<lambda>u.
                bind (te_gis_field_h originalType ''coordinate_system'' (JStr ''WGS84'') esp
                        out) (\<lambda>u.
                te_gis_container_h originalType esp out)))
              else ret ()) (\<lambda>u.
        ret (HRef out)))))))"

text \<open>
  \<open>itemsToTransform.forEach(item => transformedData[target].push(transformEntity(...)))\<close>:
  the target is read, the item transformed, the result pushed.
\<close>

fun te_all_h ::
  "int \<Rightarrow> nat \<Rightarrow> hval list \<Rightarrow> addr \<Rightarrow> string \<Rightarrow> string \<Rightarrow> jsval \<Rightarrow> unit run" where
  "te_all_h now depth [] root originalType target schemaProps = ret ()"
| "te_all_h now depth (item # items) root originalType target schemaProps =
    bind (get_prop (HRef root) target) (\<lambda>t.
    bind (transformEntity_h now depth item originalType target schemaProps) (\<lambda>r.
    bind (push_h t r) (\<lambda>u.
    te_all_h now depth items root originalType target schemaProps)))"

definition legacy_step_h :: "int \<Rightarrow> nat \<Rightarrow> addr \<Rightarrow> string \<times> string \<times> jsval \<Rightarrow> unit run" where
  "legacy_step_h now depth root entry =
    (case entry of (originalType, target, schemaProps) \<Rightarrow>
       bind (get_prop (HRef root) originalType) (\<lambda>v.
         if truthy_h v then
           bind (get_prop (HRef root) target) (\<lambda>t0.
           bind (if \<not> truthy_h t0 then
                   bind (alloc (CArr [] [])) (\<lambda>a. set_prop_h root target (HRef a))
                 else ret ()) (\<lambda>u.
           bind (get_prop (HRef root) originalType) (\<lambda>src.
           bind (is_array_h src) (\<lambda>arr.
           bind (if arr then array_elems src else ret [src]) (\<lambda>itemsToTransform.
           bind (te_all_h now depth itemsToTransform root originalType target schemaProps) (\<lambda>u.
           bind (delete_prop_h root originalType) (\<lambda>u.
           push_fix (''Transformed '' @ originalType @ '' data to NEPA '' @ target
                       @ '' format''))))))))
         else ret ()))"

fun legacy_loop_h :: "int \<Rightarrow> nat \<Rightarrow> addr \<Rightarrow> (string \<times> string \<times> jsval) list \<Rightarrow> unit run" where
  "legacy_loop_h now depth root [] = ret ()"
| "legacy_loop_h now depth root (entry # entries) =
    bind (legacy_step_h now depth root entry) (\<lambda>u. legacy_loop_h now depth root entries)"

text \<open>The second pass, over the keys the document has when the loop starts.\<close>

fun second_pass_h :: "nat \<Rightarrow> addr \<Rightarrow> string list \<Rightarrow> unit run" where
  "second_pass_h depth root [] = ret ()"
| "second_pass_h depth root (nepaKey # rest) =
    bind (get_prop (HRef root) nepaKey) (\<lambda>v.
    bind (is_array_h v) (\<lambda>arr.
      if arr then
        (let entityType = slice_0_m1 nepaKey;
             schemaProps = js_or (obj_get simplifiedSchemas entityType) (JObj [])
         in bind (array_elems v) (\<lambda>xs.
            bind (tp_map_h depth xs entityType schemaProps) (\<lambda>ys.
            bind (alloc (CArr ys [])) (\<lambda>a.
            bind (set_prop_h root nepaKey (HRef a)) (\<lambda>u.
            second_pass_h depth root rest)))))
      else second_pass_h depth root rest))"

text \<open>
  \<open>transformToNepaFormat(data)\<close>: the value returned is the member \<open>data\<close> of the
  result, the log of the final store its member \<open>fixes\<close>. \<open>JSON.stringify\<close> gives
  \<open>undefined\<close> for \<open>undefined\<close> and for a function, which \<open>JSON.parse\<close> rejects with
  a SyntaxError; the clone \<open>null\<close> has no member \<open>projects\<close>, a TypeError; on a
  number, string or boolean the assignment of \<open>projects\<close> has no effect (the module is
  not in strict mode) and both loops find nothing.
\<close>

definition transformToNepaFormat_h :: "int \<Rightarrow> nat \<Rightarrow> hval \<Rightarrow> hval run" where
  "transformToNepaFormat_h now depth data =
    bind (view_run depth data) (\<lambda>t.
      case json_value t of
        None \<Rightarrow> throw SyntaxError
      | Some j \<Rightarrow>
          bind (json_parse j) (\<lambda>transformedData.
            case transformedData of
              HNull \<Rightarrow> throw TypeError
            | HRef root \<Rightarrow>
                bind (get_prop transformedData ''projects'') (\<lambda>p.
                bind (if \<not> truthy_h p then
                        bind (alloc (CArr [] [])) (\<lambda>a.
                        bind (set_prop_h root ''projects'' (HRef a)) (\<lambda>u.
                        push_fix ''Added missing required projects array to root level''))
                      else ret ()) (\<lambda>u.
                bind (legacy_loop_h now depth root entityTypesMap) (\<lambda>u.
                bind (entries_of transformedData) (\<lambda>es.
                bind (second_pass_h depth root (map fst es)) (\<lambda>u.
                ret transformedData)))))
            | _ \<Rightarrow>
                bind (push_fix ''Added missing required projects array to root level'') (\<lambda>u.
                ret transformedData)))"

text \<open>
  The frame of a computation. A value is new from \<open>n\<close> on when it is no reference to one
  of the first \<open>n\<close> cells; a heap is closed from \<open>n\<close> on when the cells after the first
  \<open>n\<close> hold only such values. A computation keeps the first \<open>n\<close> cells when, started in
  a heap closed from \<open>n\<close> on, it ends in one, the first \<open>n\<close> cells are what they were,
  and its result satisfies \<open>Q\<close>.
\<close>

definition is_new :: "nat \<Rightarrow> hval \<Rightarrow> bool" where
  "is_new n v = (case v of HRef a \<Rightarrow> n \<le> a | _ \<Rightarrow> True)"

definition cell_vals :: "cell \<Rightarrow> hval list" where
  "cell_vals c = (case c of CObj kvs \<Rightarrow> map snd kvs | CArr xs ex \<Rightarrow> xs @ map snd ex)"

definition cell_new :: "nat \<Rightarrow> cell \<Rightarrow> bool" where
  "cell_new n c = list_all (is_new n) (cell_vals c)"

definition closed_from :: "nat \<Rightarrow> cell list \<Rightarrow> bool" where
  "closed_from n h = (n \<le> length h \<and> list_all (cell_new n) (drop n h))"

definition keeps :: "nat \<Rightarrow> ('a \<Rightarrow> bool) \<Rightarrow> 'a run \<Rightarrow> bool" where
  "keeps n Q m =
    (\<forall>s. closed_from n (heap s) \<longrightarrow>
       (case m s of
          (r, s') \<Rightarrow>
            closed_from n (heap s') \<and> take n (heap s') = take n (heap s)
            \<and> (case r of Inr x \<Rightarrow> Q x | Inl e \<Rightarrow> True)))"

declare transformProperties_h.simps [simp del]

text \<open>
  A store with one legacy document, \<open>{ project: [{ id: null }] }\<close>, at address 2.
\<close>

definition frame_store :: store where
  "frame_store =
    \<lparr>heap = [CObj [(''id'', HNull)], CArr [HRef 0] [], CObj [(''project'', HRef 1)]],
     fixes_log = []\<rparr>"

definition frame_doc :: jsval where
  "frame_doc = JObj [(''project'', JArr [JObj [(''id'', JNull)]])]"


section \<open>Properties of the value translators and the table lookup\<close>

lemma obj_get_missing:
  "k \<notin> fst ` set kvs \<Longrightarrow> k \<notin> set inherited_names \<Longrightarrow> obj_get kvs k = JUndefined"
  by (simp add: obj_get_def map_of_eq_None_iff [THEN iffD2] proto_get_def inherited_names_def)

lemma toLowerCase_Nil_iff: "toLowerCase s = [] \<longleftrightarrow> s = []"
  by (simp add: toLowerCase_def)

text \<open>
  Claim C1, as the code has it. \<open>mapEngagementType\<close> ends in
  \<open>typeMap[type] || 'public meeting'\<close>: a string that is no key of the table (and
  does not name a member the table inherits from \<open>Object.prototype\<close>) is replaced by
  \<open>'public meeting'\<close>; it is not passed through.
\<close>

theorem mapEngagementType_unknown:
  assumes "type \<notin> fst ` set engagementTypeMap" and "type \<notin> set inherited_names"
  shows "mapEngagementType (JStr type) = Inr (JStr ''public meeting'')"
  using assms by (simp add: mapEngagementType_def obj_get_missing js_or_def)

theorem mapEngagementType_unknown_witness:
  "''webinar'' \<notin> fst ` set engagementTypeMap \<and> ''webinar'' \<notin> set inherited_names
   \<and> mapEngagementType (JStr ''webinar'') = Inr (JStr ''public meeting'')"
proof -
  have a: "''webinar'' \<notin> fst ` set engagementTypeMap"
    by (simp add: engagementTypeMap_def)
  have b: "''webinar'' \<notin> set inherited_names"
    by (simp add: inherited_names_def builtin_names_def)
  from mapEngagementType_unknown [OF a b] a b show ?thesis by simp
qed

text \<open>
  Claim C1 as stated fails: \<open>'webinar'\<close> is no key of the table and is not returned
  unchanged.
\<close>

theorem mapEngagementType_passthrough_counterexample:
  "''webinar'' \<notin> fst ` set engagementTypeMap
   \<and> mapEngagementType (JStr ''webinar'') \<noteq> Inr (JStr ''webinar'')"
  by (simp add: engagementTypeMap_def mapEngagementType_def obj_get_def proto_get_def
      builtin_names_def js_or_def)

text \<open>
  Claim C6, as the code has it. \<open>mapStatus\<close> ends in
  \<open>statusMap[status] || status?.toLowerCase() || 'underway'\<close>: a string that is no key
  of the table (and names no inherited member) gives its lower-cased copy when it is
  not empty, and \<open>'underway'\<close> when it is empty, the empty string being falsy.
  The strings are those of characters up to U+00FF, and \<open>toLowerCase\<close> lower-cases
  them as \<open>String.prototype.toLowerCase\<close> does, accented capitals included.
\<close>

theorem mapStatus_unknown:
  assumes "status \<notin> fst ` set statusMap" and "status \<notin> set inherited_names"
  shows "mapStatus (JStr status)
           = Inr (JStr (if status = [] then ''underway'' else toLowerCase status))"
  using assms
  by (simp add: mapStatus_def obj_get_missing js_or_def opt_toLowerCase_def toLowerCase_Nil_iff)

text \<open>
  The theorem at \<open>'On Hold'\<close> and at the word ECOLE written with a capital E acute
  (U+00C9), whose lower case is U+00E9.
\<close>

theorem mapStatus_unknown_witness:
  "''On Hold'' \<notin> fst ` set statusMap \<and> ''On Hold'' \<notin> set inherited_names
   \<and> mapStatus (JStr ''On Hold'') = Inr (JStr ''on hold'')
   \<and> CHR 0xC9 # ''COLE'' \<notin> fst ` set statusMap
   \<and> CHR 0xC9 # ''COLE'' \<notin> set inherited_names
   \<and> mapStatus (JStr (CHR 0xC9 # ''COLE'')) = Inr (JStr (CHR 0xE9 # ''cole''))"
proof -
  have a: "''On Hold'' \<notin> fst ` set statusMap"
    by (simp add: statusMap_def)
  have b: "''On Hold'' \<notin> set inherited_names"
    by (simp add: inherited_names_def builtin_names_def)
  have c: "toLowerCase ''On Hold'' = ''on hold''"
    by code_simp
  have a': "CHR 0xC9 # ''COLE'' \<notin> fst ` set statusMap"
    by (simp add: statusMap_def)
  have b': "CHR 0xC9 # ''COLE'' \<notin> set inherited_names"
    by (simp add: inherited_names_def builtin_names_def)
  have c': "toLowerCase (CHR 0xC9 # ''COLE'') = CHR 0xE9 # ''cole''"
    by code_simp
  from mapStatus_unknown [OF a b] mapStatus_unknown [OF a' b'] a b c a' b' c'
  show ?thesis by simp
qed

text \<open>
  Claim C6 as stated fails at the empty string: it is no key of the table, and the
  result is \<open>'underway'\<close>, not its lower-cased copy.
\<close>

theorem mapStatus_empty_counterexample:
  "[] \<notin> fst ` set statusMap \<and> mapStatus (JStr []) \<noteq> Inr (JStr (toLowerCase []))"
  by (simp add: statusMap_def mapStatus_def obj_get_def proto_get_def builtin_names_def
      js_or_def opt_toLowerCase_def toLowerCase_def)

text \<open>
  Claim C9 at the table name \<open>'constructor'\<close>. It is no key of
  \<open>TABLE_TO_SCHEMA_MAP\<close>, yet \<open>TABLE_TO_SCHEMA_MAP['constructor']\<close> is the inherited
  built-in, which is truthy: \<open>getSchemaMapping\<close> returns it instead of the fallback
  mapping, and \<open>mapEntityId\<close> reads its missing \<open>idField\<close>, \<open>undefined\<close>.
\<close>

theorem getSchemaMapping_constructor:
  "''constructor'' \<notin> fst ` set TABLE_TO_SCHEMA_MAP
   \<and> getSchemaMapping ''constructor'' = JBuiltin ''constructor''
   \<and> getSchemaMapping ''constructor''
        \<noteq> JObj [(''schemaName'', JStr ''constructor''), (''idField'', JStr ''constructor_id'')]
   \<and> mapEntityId ''constructor'' = JUndefined"
  by (simp add: TABLE_TO_SCHEMA_MAP_def getSchemaMapping_def mapEntityId_def obj_get_def
      proto_get_def builtin_names_def js_or_def js_member_def)

text \<open>
  For every other table name that is no key, the fallback mapping is returned and
  \<open>mapEntityId\<close> is the name followed by \<open>_id\<close>.
\<close>

lemma getSchemaMapping_fallback:
  assumes "t \<notin> fst ` set TABLE_TO_SCHEMA_MAP" and "t \<notin> set inherited_names"
  shows "getSchemaMapping t = JObj [(''schemaName'', JStr t), (''idField'', JStr (t @ ''_id''))]"
    and "mapEntityId t = JStr (t @ ''_id'')"
proof -
  show g: "getSchemaMapping t = JObj [(''schemaName'', JStr t), (''idField'', JStr (t @ ''_id''))]"
    using assms by (simp add: getSchemaMapping_def obj_get_missing js_or_def)
  show "mapEntityId t = JStr (t @ ''_id'')"
    by (simp add: mapEntityId_def g js_member_def obj_get_def)
qed

section \<open>Properties of the transformers\<close>

text \<open>
  Claim C10. \<open>transformProperties\<close> returns an entity that is \<open>null\<close> or whose
  \<open>typeof\<close> is not \<open>'object'\<close> (a number, a string, a boolean, \<open>undefined\<close>) as
  it is, and appends no fix. The function has no failing branch: its result type holds
  no error.
\<close>

theorem transformProperties_non_object:
  assumes "\<not> is_object entity"
  shows "transformProperties entity entityType fixes schemaProperties = (entity, fixes)"
  using assms by (simp add: transformProperties.simps)

theorem transformProperties_non_object_witness:
  "\<not> is_object JNull \<and> \<not> is_object JUndefined \<and> \<not> is_object (JNum 5)
   \<and> \<not> is_object (JStr ''abc'') \<and> \<not> is_object (JBool True)
   \<and> transformProperties JNull ''project'' [] (JObj []) = (JNull, [])
   \<and> transformProperties JUndefined ''project'' [] (JObj []) = (JUndefined, [])
   \<and> transformProperties (JNum 5) ''project'' [] (JObj []) = (JNum 5, [])
   \<and> transformProperties (JStr ''abc'') ''project'' [] (JObj []) = (JStr ''abc'', [])
   \<and> transformProperties (JBool True) ''project'' [] (JObj []) = (JBool True, [])"
  using transformProperties_non_object [of JNull "''project''" "[]" "JObj []"]
    transformProperties_non_object [of JUndefined "''project''" "[]" "JObj []"]
    transformProperties_non_object [of "JNum 5" "''project''" "[]" "JObj []"]
    transformProperties_non_object [of "JStr ''abc''" "''project''" "[]" "JObj []"]
    transformProperties_non_object [of "JBool True" "''project''" "[]" "JObj []"]
  by simp


section \<open>Properties of the coverage analysis\<close>

lemma vt_coverage_unmatched:
  "UnmatchedColumn a b c d \<in> set (vt_warnings (vt_coverage t cols req ps r))
     \<longleftrightarrow> UnmatchedColumn a b c d \<in> set (vt_warnings r)"
  by (induction ps arbitrary: r) simp_all

lemma vt_unmatched_warnings:
  "set (vt_warnings (vt_unmatched t sn sp cols r)) =
     set (vt_warnings r) \<union>
     (\<lambda>col. UnmatchedColumn t (column col) (mapDatabaseFieldToSchema (column col) t) sn) `
       {col \<in> set cols. \<not> shouldIgnoreField (column col)
          \<and> \<not> hasSchemaMatch t sp (column col)
          \<and> \<not> endsWith (column col) ''_id'' \<and> \<not> startsWith (column col) ''parent_''}"
proof (induction cols arbitrary: r)
  case Nil
  show ?case by simp
next
  case (Cons col cols)
  show ?case
    by (simp add: Let_def Cons.IH) blast
qed

lemma unmatched_image_iff:
  "UnmatchedColumn t c m s \<in> (\<lambda>col. UnmatchedColumn t (column col) (f (column col)) s) ` {col \<in> B. P (column col)}
     \<longleftrightarrow> (\<exists>col \<in> B. column col = c \<and> f c = m \<and> P c)"
  by auto

lemma public_acess_facts:
  "\<not> shouldIgnoreField ''public_acess''"
  "\<not> endsWith ''public_acess'' ''_id''"
  "\<not> startsWith ''public_acess'' ''parent_''"
  "mapDatabaseFieldToSchema ''public_acess'' ''comment'' = JStr ''public_access''"
  "js_member (getSchemaMapping ''comment'') ''schemaName'' = JStr ''public_comment''"
  by code_simp+

lemma public_acess_match:
  "hasSchemaMatch ''comment'' sp ''public_acess''
     \<longleftrightarrow> truthy (obj_get sp ''public_access'') \<or> truthy (obj_get sp ''public_acess'')"
proof -
  have a: "js_member (obj_get specificMappings ''comment'') ''public_acess'' = JStr ''public_access''"
    by code_simp
  have b: "key_of (JStr ''public_access'') = ''public_access''"
    by (simp add: key_of_def)
  show ?thesis
    by (auto simp add: hasSchemaMatch_def Let_def public_acess_facts a b js_or_def)
qed

text \<open>
  Claim C2, as the code has it. For the table \<open>comment\<close>, every mapping layer resolves
  the column \<open>public_acess\<close> to the canonical property \<open>public_access\<close>: the
  table-specific map, the global map, the analyzer's special-case map (whose entry is
  commented "Handle typo"), and so \<open>mapDatabaseFieldToSchema\<close>. The analyzer
  \<open>validateTable\<close> reports the column as unmatched exactly when the target definition
  \<open>public_comment\<close> exists and has neither a property \<open>public_access\<close> nor a
  property \<open>public_acess\<close>.
\<close>

theorem public_acess_resolved:
  "js_member (obj_get fieldMappingsByTable ''comment'') ''public_acess'' = JStr ''public_access''
   \<and> obj_get specialMappings ''public_acess'' = JStr ''public_access''
   \<and> js_member (obj_get specificMappings ''comment'') ''public_acess'' = JStr ''public_access''
   \<and> mapDatabaseFieldToSchema ''public_acess'' ''comment'' = JStr ''public_access''
   \<and> (UnmatchedColumn ''comment'' ''public_acess'' (JStr ''public_access'') (JStr ''public_comment'')
          \<in> set (vt_warnings (validateTable ''comment'' dbColumns defs))
        \<longleftrightarrow> (\<exists>col \<in> set dbColumns. column col = ''public_acess'')
            \<and> (\<exists>d. lookup_def defs (JStr ''public_comment'') = Some d
                  \<and> \<not> truthy (obj_get (properties_of d) ''public_access'')
                  \<and> \<not> truthy (obj_get (properties_of d) ''public_acess'')))"
proof -
  have m1: "js_member (obj_get fieldMappingsByTable ''comment'') ''public_acess'' = JStr ''public_access''"
    by code_simp
  have m2: "obj_get specialMappings ''public_acess'' = JStr ''public_access''"
    by code_simp
  have m3: "js_member (obj_get specificMappings ''comment'') ''public_acess'' = JStr ''public_access''"
    by code_simp
  let ?w = "UnmatchedColumn ''comment'' ''public_acess'' (JStr ''public_access'') (JStr ''public_comment'')"
  have w: "?w \<in> set (vt_warnings (validateTable ''comment'' dbColumns defs))
        \<longleftrightarrow> (\<exists>col \<in> set dbColumns. column col = ''public_acess'')
            \<and> (\<exists>d. lookup_def defs (JStr ''public_comment'') = Some d
                  \<and> \<not> truthy (obj_get (properties_of d) ''public_access'')
                  \<and> \<not> truthy (obj_get (properties_of d) ''public_acess''))"
  proof (cases "lookup_def defs (JStr ''public_comment'')")
    case None
    then show ?thesis
      by (simp add: validateTable_def Let_def public_acess_facts)
  next
    case (Some d)
    have w1: "?w \<in> set (vt_warnings (validateTable ''comment'' dbColumns defs))
        \<longleftrightarrow> ?w \<in> (\<lambda>col. UnmatchedColumn ''comment'' (column col)
                        (mapDatabaseFieldToSchema (column col) ''comment'')
                        (JStr ''public_comment'')) `
                 {col \<in> set dbColumns. \<not> shouldIgnoreField (column col)
                    \<and> \<not> hasSchemaMatch ''comment'' (properties_of d) (column col)
                    \<and> \<not> endsWith (column col) ''_id''
                    \<and> \<not> startsWith (column col) ''parent_''}"
      using Some
      by (simp add: validateTable_def Let_def public_acess_facts vt_unmatched_warnings
          vt_coverage_unmatched)
    note w2 = unmatched_image_iff [of "''comment''" "''public_acess''" "JStr ''public_access''"
        "JStr ''public_comment''" "\<lambda>c. mapDatabaseFieldToSchema c ''comment''" "set dbColumns"
        "\<lambda>c. \<not> shouldIgnoreField c
                    \<and> \<not> hasSchemaMatch ''comment'' (properties_of d) c
                    \<and> \<not> endsWith c ''_id'' \<and> \<not> startsWith c ''parent_''"]
    have ws: "?w \<in> set (vt_warnings (validateTable ''comment'' dbColumns defs))
        \<longleftrightarrow> (\<exists>col \<in> set dbColumns. column col = ''public_acess''
               \<and> \<not> hasSchemaMatch ''comment'' (properties_of d) ''public_acess'')"
      unfolding w1 w2 by (simp add: public_acess_facts)
    show ?thesis
      unfolding ws public_acess_match using Some by simp
  qed
  from m1 m2 m3 w show ?thesis
    by (simp add: public_acess_facts)
qed

theorem public_acess_resolved_witness:
  "UnmatchedColumn ''comment'' ''public_acess'' (JStr ''public_access'') (JStr ''public_comment'')
     \<in> set (vt_warnings (validateTable ''comment''
             [\<lparr>column = ''public_acess'', data_type = ''boolean'', description = []\<rparr>]
             [(''public_comment'',
               \<lparr>sd_properties = Some [(''comment_id'', JObj [(''type'', JStr ''string'')])],
                sd_required = Some [''comment_id'']\<rparr>)]))"
proof -
  let ?cols = "[\<lparr>column = ''public_acess'', data_type = ''boolean'', description = []\<rparr>]"
  let ?d = "\<lparr>sd_properties = Some [(''comment_id'', JObj [(''type'', JStr ''string'')])],
                sd_required = Some [''comment_id'']\<rparr>"
  have l: "lookup_def [(''public_comment'', ?d)] (JStr ''public_comment'') = Some ?d"
    by (simp add: lookup_def_def key_of_def)
  have p: "\<not> truthy (obj_get (properties_of ?d) ''public_access'')
         \<and> \<not> truthy (obj_get (properties_of ?d) ''public_acess'')"
    by code_simp
  from public_acess_resolved [of ?cols "[(''public_comment'', ?d)]"] l p
  show ?thesis by simp
qed

text \<open>
  Claim C2 as stated fails on the schema of the repository: the column is resolved to
  \<open>public_access\<close>, and neither analyzer reports it as unmatched.
\<close>

theorem public_acess_counterexample:
  "mapDatabaseFieldToSchema ''public_acess'' ''comment'' = JStr ''public_access''
   \<and> UnmatchedColumn ''comment'' ''public_acess'' (JStr ''public_access'') (JStr ''public_comment'')
       \<notin> set (vt_warnings (validateTable ''comment''
               [\<lparr>column = ''public_acess'', data_type = ''boolean'', description = []\<rparr>]
               [(''public_comment'', nepa_public_comment)]))
   \<and> cw_mappingWarnings (validateTableAgainstSchema ''comment''
               [\<lparr>column = ''public_acess'', data_type = ''boolean'', description = []\<rparr>]
               [(''public_comment'', nepa_public_comment)]) = []"
  by code_simp


lemma vt_coverage_bound:
  "vt_found (vt_coverage t cols req ps r) \<le> vt_found r + length ps
   \<and> vt_total (vt_coverage t cols req ps r) = vt_total r"
proof (induction ps arbitrary: r)
  case Nil
  show ?case by simp
next
  case (Cons p ps)
  let ?r1 = "r\<lparr>vt_found := vt_found r + 1\<rparr>"
  let ?r2 = "r\<lparr>vt_errors := vt_errors r @ [RequiredSchemaPropertyMissing p t],
               vt_valid := False, vt_missingRequired := vt_missingRequired r @ [p]\<rparr>"
  let ?r3 = "r\<lparr>vt_warnings := vt_warnings r @ [SchemaPropertyNotFound p t]\<rparr>"
  from Cons.IH [of ?r1] Cons.IH [of ?r2] Cons.IH [of ?r3]
  show ?case by auto
qed

lemma vt_unmatched_frame:
  "vt_found (vt_unmatched t sn sp cols r) = vt_found r
   \<and> vt_total (vt_unmatched t sn sp cols r) = vt_total r"
  by (induction cols arbitrary: r) (simp_all add: Let_def)

lemma cw_columns_total:
  "cw_total (snd (cw_columns t sn sp req cols (c, r))) = cw_total r"
  by (induction cols arbitrary: c r) (simp_all add: Let_def)

lemma validateTable_bound:
  "vt_found (validateTable t cols defs) \<le> vt_total (validateTable t cols defs)
   \<and> vt_total (validateTable t cols defs) = relevant_count defs t"
proof (cases "lookup_def defs (js_member (getSchemaMapping t) ''schemaName'')")
  case None
  then show ?thesis by (simp add: validateTable_def relevant_count_def Let_def)
next
  case (Some d)
  let ?ps = "filter (\<lambda>prop. \<not> shouldIgnoreField prop) (map fst (properties_of d))"
  let ?r1 = "\<lparr>vt_tableName = t, vt_valid = True, vt_errors = [], vt_warnings = [],
              vt_found = 0, vt_total = length ?ps, vt_missingRequired = []\<rparr>"
  have r: "validateTable t cols defs =
        vt_unmatched t (js_member (getSchemaMapping t) ''schemaName'') (properties_of d) cols
          (vt_coverage t cols (required_of d) ?ps ?r1)"
    using Some by (simp add: validateTable_def Let_def)
  from vt_coverage_bound [of t cols "required_of d" ?ps ?r1]
  show ?thesis
    using Some by (simp add: r vt_unmatched_frame relevant_count_def)
qed

lemma validateTableAgainstSchema_bound:
  "cw_found (validateTableAgainstSchema t cols defs)
     \<le> cw_total (validateTableAgainstSchema t cols defs)
   \<and> cw_total (validateTableAgainstSchema t cols defs) = relevant_count defs t"
proof (cases "lookup_def defs (js_member (getSchemaMapping t) ''schemaName'')")
  case None
  then show ?thesis by (simp add: validateTableAgainstSchema_def relevant_count_def Let_def)
next
  case (Some d)
  let ?ps = "filter (\<lambda>prop. \<not> shouldIgnoreField prop) (map fst (properties_of d))"
  let ?r1 = "\<lparr>cw_tableName = t, cw_valid = True, cw_errors = [],
              cw_warnings = [], cw_found = 0, cw_total = length ?ps, cw_mappingWarnings = [],
              cw_unmatchedProperties = [], cw_missingRequiredFields = None\<rparr>"
  obtain c r2 where cr: "cw_columns t (js_member (getSchemaMapping t) ''schemaName'')
      (properties_of d) (required_of d) cols ([], ?r1) = (c, r2)"
    by (cases "cw_columns t (js_member (getSchemaMapping t) ''schemaName'')
      (properties_of d) (required_of d) cols ([], ?r1)")
  from cw_columns_total [of t "js_member (getSchemaMapping t) ''schemaName''"
      "properties_of d" "required_of d" cols "[]" ?r1] cr
  have tot: "cw_total r2 = length ?ps" by simp
  show ?thesis
    using Some cr tot
    by (simp add: validateTableAgainstSchema_def Let_def relevant_count_def)
qed

text \<open>
  Claim C5. For every table, columns and schema definitions, both analyzers return
  coverage counts with \<open>found \<le> total\<close>, where \<open>total\<close> is the number of canonical
  properties of the target entity that are not ignored. The counts are natural numbers,
  so \<open>0 \<le> found\<close>. \<open>validateTable\<close> counts a property at most once, whatever the
  number of rules that match it; \<open>validateTableAgainstSchema\<close> takes the minimum with
  \<open>total\<close>.
\<close>

theorem coverage_bound:
  "vt_found (validateTable tableName dbColumns defs)
     \<le> vt_total (validateTable tableName dbColumns defs)
   \<and> vt_total (validateTable tableName dbColumns defs) = relevant_count defs tableName
   \<and> cw_found (validateTableAgainstSchema tableName dbColumns defs)
        \<le> cw_total (validateTableAgainstSchema tableName dbColumns defs)
   \<and> cw_total (validateTableAgainstSchema tableName dbColumns defs)
        = relevant_count defs tableName"
proof -
  note a = validateTable_bound [of tableName dbColumns defs]
    and b = validateTableAgainstSchema_bound [of tableName dbColumns defs]
  from a b show ?thesis by blast
qed

theorem coverage_bound_witness:
  "vt_found (validateTable ''comment''
      [\<lparr>column = ''id'', data_type = ''integer'', description = []\<rparr>,
       \<lparr>column = ''commenter_entity'', data_type = ''text'', description = []\<rparr>,
       \<lparr>column = ''content_text'', data_type = ''text'', description = []\<rparr>]
      [(''public_comment'', nepa_public_comment)]) = 4
   \<and> cw_found (validateTableAgainstSchema ''comment''
      [\<lparr>column = ''id'', data_type = ''integer'', description = []\<rparr>,
       \<lparr>column = ''commenter_entity'', data_type = ''text'', description = []\<rparr>,
       \<lparr>column = ''content_text'', data_type = ''text'', description = []\<rparr>]
      [(''public_comment'', nepa_public_comment)]) = 3
   \<and> relevant_count [(''public_comment'', nepa_public_comment)] ''comment'' = 10"
proof -
  let ?cols = "[\<lparr>column = ''id'', data_type = ''integer'', description = []\<rparr>,
       \<lparr>column = ''commenter_entity'', data_type = ''text'', description = []\<rparr>,
       \<lparr>column = ''content_text'', data_type = ''text'', description = []\<rparr>]"
  let ?defs = "[(''public_comment'', nepa_public_comment)]"
  have f: "vt_found (validateTable ''comment'' ?cols ?defs) = 4"
    by code_simp
  have g: "cw_found (validateTableAgainstSchema ''comment'' ?cols ?defs) = 3"
    by code_simp
  have t: "relevant_count ?defs ''comment'' = 10"
    by code_simp
  from coverage_bound [of "''comment''" ?cols ?defs] f g t show ?thesis by simp
qed

subsection \<open>The identifier of a transformed record\<close>

lemma map_of_update_prop:
  "map_of (update_prop kvs k v) k' = (if k' = k then Some v else map_of kvs k')"
  by (induction kvs) auto

lemma map_of_set_prop_other:
  "k' \<noteq> k \<Longrightarrow> map_of (set_prop kvs k v) k' = map_of kvs k'"
  by (simp add: set_prop_def map_of_update_prop)

lemma endsWith_id_not_proto: "endsWith k ''_id'' \<Longrightarrow> k \<noteq> ''__proto__''"
  by (auto simp: endsWith_def)

lemma map_of_set_prop_same:
  "k \<noteq> ''__proto__'' \<Longrightarrow> map_of (set_prop kvs k v) k = Some v"
  by (simp add: set_prop_def map_of_update_prop)

lemma inherited_not_id: "k \<in> set inherited_names \<Longrightarrow> \<not> endsWith k ''_id''"
  by (auto simp: inherited_names_def builtin_names_def endsWith_def)

lemma translated_names_not_id:
  "\<not> endsWith ''status'' ''_id''" "\<not> endsWith ''process_status'' ''_id''"
  "\<not> endsWith ''project_status'' ''_id''" "\<not> endsWith ''document_type'' ''_id''"
  "\<not> endsWith ''event_type'' ''_id''" "\<not> endsWith ''event_status'' ''_id''"
  by code_simp+

lemma te_translate_id:
  assumes "endsWith sk ''_id''"
  shows "te_translate (JStr sk) t target v = Inr v"
proof -
  from assms translated_names_not_id
  have "sk \<noteq> ''status''" "sk \<noteq> ''process_status''" "sk \<noteq> ''project_status''"
    "sk \<noteq> ''document_type''" "sk \<noteq> ''event_type''" "sk \<noteq> ''event_status''"
    by blast+
  then show ?thesis
    by (simp add: te_translate_def)
qed

lemma te_store_other:
  "te_store t sk esp v out f = (out', f') \<Longrightarrow> k \<noteq> sk \<Longrightarrow> map_of out' k = map_of out k"
  by (auto simp: te_store_def Let_def map_of_set_prop_other split: if_splits prod.splits)

lemma te_store_scalar:
  "\<not> is_object v \<Longrightarrow> te_store t sk esp v out f = (set_prop out sk v, f)"
  by (cases v) (simp_all add: te_store_def)



lemma te_entry_schemaKey:
  assumes "te_entry t target esp idField k v out f = Inr (out', f')"
  obtains sk where "mapDatabaseFieldToSchema k t = JStr sk"
  using assms
  by (cases "mapDatabaseFieldToSchema k t")
     (simp_all add: te_entry_def Let_def split: sum.splits prod.splits)

lemma te_entry_unfold:
  assumes "mapDatabaseFieldToSchema k t = JStr sk"
    and "te_translate (JStr sk) t target v = Inr v1"
    and "te_default t k (JStr sk) idField (js_get esp sk) v v1 f = (v2, f1)"
    and "te_id_string t k sk v2 f1 = (v3, f2)"
  shows "te_entry t target esp idField k v out f = Inr (te_store t sk esp v3 out f2)"
  using assms by (simp add: te_entry_def Let_def key_of_def)

lemma te_entry_store:
  assumes "te_entry t target esp idField k v out f = Inr (out', f')"
    and "mapDatabaseFieldToSchema k t = JStr sk"
  obtains v3 f2 where "te_store t sk esp v3 out f2 = (out', f')"
proof -
  from assms obtain v1 where v1: "te_translate (JStr sk) t target v = Inr v1"
    by (cases "te_translate (JStr sk) t target v") (simp_all add: te_entry_def Let_def)
  obtain v2 f1 where v2: "te_default t k (JStr sk) idField (js_get esp sk) v v1 f = (v2, f1)"
    by (cases "te_default t k (JStr sk) idField (js_get esp sk) v v1 f")
  obtain v3 f2 where v3: "te_id_string t k sk v2 f1 = (v3, f2)"
    by (cases "te_id_string t k sk v2 f1")
  from te_entry_unfold [OF assms(2) v1 v2 v3] assms(1)
  have "te_store t sk esp v3 out f2 = (out', f')" by simp
  then show ?thesis by (rule that)
qed

lemma te_default_id:
  assumes "te_default t k sk idField (JStr ''string'') v v f = (v2, f1)"
    and "v = JNull \<or> v = JBool False \<or> (\<exists>s. v = JStr s) \<or> (\<exists>n. v = JNum n)"
  shows "v2 = JBool False \<or> (\<exists>s. v2 = JStr s) \<or> (\<exists>n. v2 = JNum n)"
proof (cases "v = JNull")
  case True
  have "getDefaultValueForType (JStr ''string'') = JStr []"
    by (simp add: getDefaultValueForType_def)
  with assms(1) True have "v2 = JStr []"
    by (simp add: te_default_def Let_def differs_from_default_def)
  then show ?thesis by simp
next
  case False
  with assms(1) have "v2 = v" by (simp add: te_default_def)
  with assms(2) False show ?thesis by simp
qed

lemma te_id_string_id:
  assumes "te_id_string t k idf v2 f1 = (v3, f2)"
    and "endsWith idf ''_id''"
    and "v2 = JBool False \<or> (\<exists>s. v2 = JStr s) \<or> (\<exists>n. v2 = JNum n)"
  shows "v3 = JBool False \<or> (\<exists>s. v3 = JStr s)"
  using assms by (auto simp: te_id_string_def)

lemma te_entry_id_slot:
  assumes r: "te_entry t target esp idField k v out f = Inr (out', f')"
    and slot: "id_slot out idf"
    and esp: "js_get esp idf = JStr ''string''"
    and idf: "endsWith idf ''_id''"
    and ok: "mapDatabaseFieldToSchema k t = JStr idf
              \<longrightarrow> v = JNull \<or> v = JBool False \<or> (\<exists>s. v = JStr s) \<or> (\<exists>n. v = JNum n)"
  shows "id_slot out' idf"
proof -
  from r obtain sk where sk: "mapDatabaseFieldToSchema k t = JStr sk"
    by (rule te_entry_schemaKey)
  show ?thesis
  proof (cases "sk = idf")
    case False
    from r sk obtain v3 f2 where "te_store t sk esp v3 out f2 = (out', f')"
      by (rule te_entry_store)
    from te_store_other [OF this, of idf] False slot show ?thesis
      by (simp add: id_slot_def)
  next
    case True
    with ok sk have v: "v = JNull \<or> v = JBool False \<or> (\<exists>s. v = JStr s) \<or> (\<exists>n. v = JNum n)"
      by simp
    have tr: "te_translate (JStr idf) t target v = Inr v"
      using idf by (rule te_translate_id)
    obtain v2 f1 where d: "te_default t k (JStr idf) idField (JStr ''string'') v v f = (v2, f1)"
      by (cases "te_default t k (JStr idf) idField (JStr ''string'') v v f")
    from te_default_id [OF d v]
    have v2: "v2 = JBool False \<or> (\<exists>s. v2 = JStr s) \<or> (\<exists>n. v2 = JNum n)" .
    obtain v3 f2 where i: "te_id_string t k idf v2 f1 = (v3, f2)"
      by (cases "te_id_string t k idf v2 f1")
    from te_id_string_id [OF i idf v2]
    have v3: "v3 = JBool False \<or> (\<exists>s. v3 = JStr s)" .
    then have no: "\<not> is_object v3" by auto
    from sk True have sk': "mapDatabaseFieldToSchema k t = JStr idf" by simp
    from d esp have d': "te_default t k (JStr idf) idField (js_get esp idf) v v f = (v2, f1)"
      by simp
    from te_entry_unfold [OF sk' tr d' i] r
    have "te_store t idf esp v3 out f2 = (out', f')" by simp
    then have "out' = set_prop out idf v3"
      using no by (simp add: te_store_scalar)
    then show ?thesis
      using v3 idf by (auto simp: id_slot_def map_of_set_prop_same endsWith_id_not_proto)
  qed
qed

lemma te_loop_id_slot:
  assumes "te_loop es t target esp idField out f = Inr (out', f')"
    and "id_slot out idf"
    and "js_get esp idf = JStr ''string''"
    and "endsWith idf ''_id''"
    and "\<forall>(k, v) \<in> set es. mapDatabaseFieldToSchema k t = JStr idf
              \<longrightarrow> v = JNull \<or> v = JBool False \<or> (\<exists>s. v = JStr s) \<or> (\<exists>n. v = JNum n)"
  shows "id_slot out' idf"
  using assms
proof (induction es arbitrary: out f)
  case Nil
  then show ?case by simp
next
  case (Cons e es)
  obtain k v where e: "e = (k, v)" by (cases e)
  from Cons.prems(1) e obtain out1 f1 where
    s1: "te_entry t target esp idField k v out f = Inr (out1, f1)"
    and s2: "te_loop es t target esp idField out1 f1 = Inr (out', f')"
    by (auto split: sum.splits)
  have "id_slot out1 idf"
    using te_entry_id_slot [OF s1 Cons.prems(2) Cons.prems(3) Cons.prems(4)] Cons.prems(5) e
    by simp
  from Cons.IH [OF s2 this Cons.prems(3) Cons.prems(4)] Cons.prems(5)
  show ?case by simp
qed


lemma obj_get_id_slot:
  assumes "id_slot out idf" and "endsWith idf ''_id''" and "truthy (obj_get out idf)"
  shows "\<exists>s. map_of out idf = Some (JStr s)"
proof (cases "map_of out idf")
  case None
  from assms(2) inherited_not_id have "idf \<notin> set inherited_names" by blast
  then have "proto_get idf = JUndefined"
    by (simp add: proto_get_def inherited_names_def)
  with None assms(3) show ?thesis by (simp add: obj_get_def)
next
  case (Some v)
  with assms(1, 3) show ?thesis by (auto simp: id_slot_def obj_get_def)
qed

lemma te_target_id_string:
  assumes "te_target_id target esp out f = (out', f')"
    and "key_of (mapEntityId (slice_0_m1 target)) = idf"
    and "id_slot out idf"
    and "js_get esp idf = JStr ''string''"
    and "endsWith idf ''_id''"
  shows "\<exists>s. map_of out' idf = Some (JStr s)"
proof (cases "truthy (obj_get out idf)")
  case True
  with assms(1, 2) have "out' = out" by (simp add: te_target_id_def Let_def)
  with obj_get_id_slot [OF assms(3) assms(5) True] show ?thesis by simp
next
  case False
  have "getDefaultValueForType (JStr ''string'') = JStr []"
    by (simp add: getDefaultValueForType_def)
  with False assms(1, 2, 4) have "out' = set_prop out idf (JStr [])"
    by (simp add: te_target_id_def Let_def)
  with assms(5) show ?thesis
    by (simp add: map_of_set_prop_same endsWith_id_not_proto)
qed

lemma te_target_id_other:
  assumes "te_target_id target esp out f = (out', f')"
    and "k \<noteq> key_of (mapEntityId (slice_0_m1 target))"
  shows "map_of out' k = map_of out k"
  using assms
  by (auto simp: te_target_id_def Let_def map_of_set_prop_other split: if_splits)

lemma te_gis_field_other:
  assumes "te_gis_field t field fallback esp out f = (out', f')" and "k \<noteq> field"
  shows "map_of out' k = map_of out k"
  using assms
  by (auto simp: te_gis_field_def map_of_set_prop_other split: if_splits)

lemma te_gis_container_other:
  assumes "te_gis_container t esp out f = (out', f')" and "k \<noteq> ''container_inventory''"
  shows "map_of out' k = map_of out k"
  using assms
  by (auto simp: te_gis_container_def Let_def map_of_set_prop_other split: if_splits)

lemma te_gis_id_string:
  assumes "te_gis_field t ''gis_id'' (JStr (''gis-'' @ num_to_string now)) esp out f = (out', f')"
    and "id_slot out ''gis_id''"
    and "js_get esp ''gis_id'' = JStr ''string''"
  shows "\<exists>s. map_of out' ''gis_id'' = Some (JStr s)"
proof (cases "truthy (obj_get out ''gis_id'')")
  case True
  with assms(1) have "out' = out" by (simp add: te_gis_field_def)
  moreover have "endsWith ''gis_id'' ''_id''" by code_simp
  ultimately show ?thesis using obj_get_id_slot [OF assms(2) _ True] by simp
next
  case False
  have "getDefaultValueForType (JStr ''string'') = JStr []"
    by (simp add: getDefaultValueForType_def)
  with False assms(1, 3)
  have "out' = set_prop out ''gis_id'' (JStr (''gis-'' @ num_to_string now))"
    by (simp add: te_gis_field_def js_or_def)
  then show ?thesis
    by (simp add: map_of_set_prop_same)
qed

lemma id_slot_empty: "id_slot [] idf"
  by (simp add: id_slot_def)

lemma transformEntity_id_plain:
  assumes r: "transformEntity now item t target fixes sp = Inr (out, fixes')"
    and idf: "mapEntityId t = JStr idf"
    and tgt: "key_of (mapEntityId (slice_0_m1 target)) = idf"
    and esp: "js_get (if sp = JUndefined then JObj [] else sp) idf = JStr ''string''"
    and e: "endsWith idf ''_id''"
    and ng: "t \<noteq> ''gis_data''" "target \<noteq> ''gis_data''"
    and ok: "\<forall>(k, v) \<in> set (forin_entries item). mapDatabaseFieldToSchema k t = JStr idf
              \<longrightarrow> v = JNull \<or> v = JBool False \<or> (\<exists>s. v = JStr s) \<or> (\<exists>n. v = JNum n)"
  shows "\<exists>s. map_of out idf = Some (JStr s)"
proof -
  let ?esp = "if sp = JUndefined then JObj [] else sp"
  from r obtain out1 f1 where
    l: "te_loop (forin_entries item) t target ?esp (mapEntityId t) [] fixes = Inr (out1, f1)"
    by (auto simp: transformEntity_def Let_def split: sum.splits)
  from te_loop_id_slot [OF l id_slot_empty esp e ok] have s1: "id_slot out1 idf" .
  obtain out2 f2 where t2: "te_target_id target ?esp out1 f1 = (out2, f2)"
    by (cases "te_target_id target ?esp out1 f1")
  from r l t2 ng have "out = out2"
    by (simp add: transformEntity_def Let_def)
  with te_target_id_string [OF t2 tgt s1 esp e] show ?thesis by simp
qed

lemma transformEntity_id_gis:
  assumes r: "transformEntity now item ''gis_data'' ''gis_data'' fixes sp = Inr (out, fixes')"
    and esp: "js_get (if sp = JUndefined then JObj [] else sp) ''gis_id'' = JStr ''string''"
    and ok: "\<forall>(k, v) \<in> set (forin_entries item).
              mapDatabaseFieldToSchema k ''gis_data'' = JStr ''gis_id''
              \<longrightarrow> v = JNull \<or> v = JBool False \<or> (\<exists>s. v = JStr s) \<or> (\<exists>n. v = JNum n)"
  shows "\<exists>s. map_of out ''gis_id'' = Some (JStr s)"
proof -
  let ?esp = "if sp = JUndefined then JObj [] else sp"
  have e: "endsWith ''gis_id'' ''_id''" by code_simp
  have tk: "''gis_id'' \<noteq> key_of (mapEntityId (slice_0_m1 ''gis_data''))" by code_simp
  from r obtain out1 f1 where
    l: "te_loop (forin_entries item) ''gis_data'' ''gis_data'' ?esp (mapEntityId ''gis_data'')
          [] fixes = Inr (out1, f1)"
    by (auto simp: transformEntity_def Let_def split: sum.splits)
  from te_loop_id_slot [OF l id_slot_empty esp e ok] have s1: "id_slot out1 ''gis_id''" .
  obtain out2 f2 where t2: "te_target_id ''gis_data'' ?esp out1 f1 = (out2, f2)"
    by (cases "te_target_id ''gis_data'' ?esp out1 f1")
  from te_target_id_other [OF t2 tk] s1 have s2: "id_slot out2 ''gis_id''"
    by (simp add: id_slot_def)
  obtain out3 f3 where t3: "te_gis_field ''gis_data'' ''gis_id''
      (JStr (''gis-'' @ num_to_string now)) ?esp out2 f2 = (out3, f3)"
    by (cases "te_gis_field ''gis_data'' ''gis_id''
      (JStr (''gis-'' @ num_to_string now)) ?esp out2 f2")
  obtain out4 f4 where t4: "te_gis_field ''gis_data'' ''data_type'' (JStr ''point'') ?esp
      out3 f3 = (out4, f4)"
    by (cases "te_gis_field ''gis_data'' ''data_type'' (JStr ''point'') ?esp out3 f3")
  obtain out5 f5 where t5: "te_gis_field ''gis_data'' ''coordinate_system'' (JStr ''WGS84'')
      ?esp out4 f4 = (out5, f5)"
    by (cases "te_gis_field ''gis_data'' ''coordinate_system'' (JStr ''WGS84'') ?esp out4 f4")
  obtain out6 f6 where t6: "te_gis_container ''gis_data'' ?esp out5 f5 = (out6, f6)"
    by (cases "te_gis_container ''gis_data'' ?esp out5 f5")
  from r l t2 t3 t4 t5 t6 have o: "out = out6"
    by (simp add: transformEntity_def Let_def)
  from te_gis_id_string [OF t3 s2 esp] obtain s where "map_of out3 ''gis_id'' = Some (JStr s)"
    by blast
  moreover have "map_of out4 ''gis_id'' = map_of out3 ''gis_id''"
    by (rule te_gis_field_other [OF t4]) simp
  moreover have "map_of out5 ''gis_id'' = map_of out4 ''gis_id''"
    by (rule te_gis_field_other [OF t5]) simp
  moreover have "map_of out6 ''gis_id'' = map_of out5 ''gis_id''"
    by (rule te_gis_container_other [OF t6]) simp
  ultimately show ?thesis using o by simp
qed


lemma plain_rows:
  "\<forall>(t, target, sp) \<in> set entityTypesMap.
     t \<in> set [''project'', ''document'', ''case_event'', ''legal_structure'',
               ''decision_element'', ''process_model'', ''process_decision_payload''] \<longrightarrow>
       mapEntityId t = JStr (key_of (mapEntityId t))
       \<and> key_of (mapEntityId (slice_0_m1 target)) = key_of (mapEntityId t)
       \<and> js_get (if sp = JUndefined then JObj [] else sp) (key_of (mapEntityId t))
            = JStr ''string''
       \<and> endsWith (key_of (mapEntityId t)) ''_id''
       \<and> t \<noteq> ''gis_data'' \<and> target \<noteq> ''gis_data''"
  by code_simp

lemma gis_row:
  "\<forall>(t, target, sp) \<in> set entityTypesMap.
     t = ''gis_data'' \<longrightarrow>
       target = ''gis_data''
       \<and> mapEntityId t = JStr ''gis_id''
       \<and> js_get (if sp = JUndefined then JObj [] else sp) ''gis_id'' = JStr ''string''"
  by code_simp

text \<open>
  Where the identifier is produced. For the source tables \<open>project\<close>, \<open>document\<close>,
  \<open>case_event\<close>, \<open>gis_data\<close>, \<open>legal_structure\<close>, \<open>decision_element\<close>,
  \<open>process_model\<close> and \<open>process_decision_payload\<close>, transformed with the target
  array and the schema properties of \<open>entityTypesMap\<close>, and every source record in
  which each field mapped to the table's canonical identifier holds \<open>null\<close>,
  \<open>false\<close>, a string or a number: when \<open>transformEntity\<close> returns, the record it
  produced contains the canonical identifier field and its value is a string. (A number
  is converted, \<open>null\<close> and a missing identifier become the default of the schema
  type or, for \<open>gis_data\<close>, the identifier made from \<open>Date.now()\<close>.) For these
  tables the target name without its last character is the name of the schema.
\<close>

lemma transformEntity_identifier:
  assumes m: "(originalType, target, schemaProps) \<in> set entityTypesMap"
    and t: "originalType \<in> set [''project'', ''document'', ''case_event'', ''gis_data'',
              ''legal_structure'', ''decision_element'', ''process_model'',
              ''process_decision_payload'']"
    and ok: "\<forall>(key, v) \<in> set (forin_entries item).
               mapDatabaseFieldToSchema key originalType = mapEntityId originalType
               \<longrightarrow> v = JNull \<or> v = JBool False \<or> (\<exists>s. v = JStr s) \<or> (\<exists>n. v = JNum n)"
    and r: "transformEntity now item originalType target fixes schemaProps = Inr (out, fixes')"
  shows "\<exists>idf s. mapEntityId originalType = JStr idf \<and> map_of out idf = Some (JStr s)"
proof (cases "originalType = ''gis_data''")
  case True
  from gis_row m True have g: "target = ''gis_data''" "mapEntityId originalType = JStr ''gis_id''"
    "js_get (if schemaProps = JUndefined then JObj [] else schemaProps) ''gis_id''
       = JStr ''string''"
    by blast+
  from ok True g(2) have ok': "\<forall>(k, v) \<in> set (forin_entries item).
              mapDatabaseFieldToSchema k ''gis_data'' = JStr ''gis_id''
              \<longrightarrow> v = JNull \<or> v = JBool False \<or> (\<exists>s. v = JStr s) \<or> (\<exists>n. v = JNum n)"
    by simp
  from r True g(1) have r': "transformEntity now item ''gis_data'' ''gis_data'' fixes schemaProps
      = Inr (out, fixes')"
    by simp
  from transformEntity_id_gis [OF r' g(3) ok'] g(2) show ?thesis by simp
next
  case False
  with t have t': "originalType \<in> set [''project'', ''document'', ''case_event'',
      ''legal_structure'', ''decision_element'', ''process_model'', ''process_decision_payload'']"
    by simp
  let ?idf = "key_of (mapEntityId originalType)"
  from plain_rows m t' have p: "mapEntityId originalType = JStr ?idf"
    "key_of (mapEntityId (slice_0_m1 target)) = ?idf"
    "js_get (if schemaProps = JUndefined then JObj [] else schemaProps) ?idf = JStr ''string''"
    "endsWith ?idf ''_id''" "originalType \<noteq> ''gis_data''" "target \<noteq> ''gis_data''"
    by blast+
  from ok p(1) have ok': "\<forall>(k, v) \<in> set (forin_entries item).
              mapDatabaseFieldToSchema k originalType = JStr ?idf
              \<longrightarrow> v = JNull \<or> v = JBool False \<or> (\<exists>s. v = JStr s) \<or> (\<exists>n. v = JNum n)"
    by simp
  from transformEntity_id_plain [OF r p(1) p(2) p(3) p(4) p(5) p(6) ok'] p(1)
  show ?thesis by blast
qed

lemma transformEntity_identifier_example:
  "transformEntity 0 (JObj [(''id'', JNum 42), (''title'', JStr ''Bridge'')])
      ''project'' ''projects'' [] (obj_get simplifiedSchemas ''project'')
     = Inr ([(''project_id'', JStr ''42''), (''project_title'', JStr ''Bridge'')],
            [''Converted numeric ID project.id (mapped to project_id) to string: 42 -> 42''])
   \<and> (\<exists>idf s. mapEntityId ''project'' = JStr idf
         \<and> map_of [(''project_id'', JStr ''42''), (''project_title'', JStr ''Bridge'')] idf
             = Some (JStr s))"
proof -
  let ?item = "JObj [(''id'', JNum 42), (''title'', JStr ''Bridge'')]"
  let ?out = "[(''project_id'', JStr ''42''), (''project_title'', JStr ''Bridge'')]"
  let ?f = "[''Converted numeric ID project.id (mapped to project_id) to string: 42 -> 42'']"
  have m: "(''project'', ''projects'', obj_get simplifiedSchemas ''project'') \<in> set entityTypesMap"
    by (simp add: entityTypesMap_def)
  have t: "''project'' \<in> set [''project'', ''document'', ''case_event'', ''gis_data'',
              ''legal_structure'', ''decision_element'', ''process_model'',
              ''process_decision_payload'']"
    by simp
  have ok: "\<forall>(key, v) \<in> set (forin_entries ?item).
               mapDatabaseFieldToSchema key ''project'' = mapEntityId ''project''
               \<longrightarrow> v = JNull \<or> v = JBool False \<or> (\<exists>s. v = JStr s) \<or> (\<exists>n. v = JNum n)"
    by (simp add: forin_entries_def)
  have r: "transformEntity 0 ?item ''project'' ''projects'' []
      (obj_get simplifiedSchemas ''project'') = Inr (?out, ?f)"
    by code_simp
  from transformEntity_identifier [OF m t ok r] r show ?thesis by blast
qed


text \<open>
  Claim C3 at a record of the table \<open>process_instance\<close> that has no identifier. The
  table is a key of \<open>TABLE_TO_SCHEMA_MAP\<close> with the identifier \<open>process_id\<close>, which
  the schema properties of a process give the type \<open>string\<close>. \<open>transformEntity\<close>
  is to add a missing identifier (lines 172 to 181: "Ensure the primary ID field for the
  entity exists", "e.g. projects -> project -> project_id"), but it looks the field up
  under the target name without its last character: \<open>'processes'.slice(0, -1)\<close> is
  \<open>'processe'\<close>, no key of the table, which gives the fallback
  \<open>processe_id\<close>, a field the schema properties do not have. The record is returned
  without \<open>process_id\<close> and nothing is logged. The same record of the table
  \<open>project\<close> gets the identifier \<open>project_id\<close> with the default of its type.
\<close>

theorem transformEntity_process_instance_identifier:
  "''process_instance'' \<in> fst ` set TABLE_TO_SCHEMA_MAP
   \<and> (''process_instance'', ''processes'', obj_get simplifiedSchemas ''process'')
        \<in> set entityTypesMap
   \<and> mapEntityId ''process_instance'' = JStr ''process_id''
   \<and> js_get (obj_get simplifiedSchemas ''process'') ''process_id'' = JStr ''string''
   \<and> slice_0_m1 ''processes'' = ''processe''
   \<and> mapEntityId ''processe'' = JStr ''processe_id''
   \<and> js_get (obj_get simplifiedSchemas ''process'') ''processe_id'' = JUndefined
   \<and> transformEntity now (JObj [(''description'', JStr ''Permit review'')])
        ''process_instance'' ''processes'' [] (obj_get simplifiedSchemas ''process'')
      = Inr ([(''description'', JStr ''Permit review'')], [])
   \<and> map_of [(''description'', JStr ''Permit review'')] ''process_id'' = None
   \<and> transformEntity now (JObj [(''description'', JStr ''Permit review'')])
        ''project'' ''projects'' [] (obj_get simplifiedSchemas ''project'')
      = Inr ([(''project_description'', JStr ''Permit review''), (''project_id'', JStr [])],
             [''Added missing ID field '' @ [CHR 0x27] @ ''project_id'' @ [CHR 0x27]
                @ '' with default '' @ [CHR 0x27, CHR 0x27] @ '' for projects''])"
  by code_simp



subsection \<open>The second pass over the canonical arrays\<close>

text \<open>
  Claim C4 at a document with a canonical array \<open>processes\<close>. The schema properties
  of a process give \<open>notes\<close> the type \<open>string\<close>, but the second pass looks the
  schema up under \<open>'processes'.slice(0, -1)\<close>, which is \<open>'processe'\<close> and has no
  entry: the \<open>null\<close> stays and no fix is logged. Under \<open>documents\<close> the same field
  is filled.
\<close>

theorem second_pass_processes_unfilled:
  "js_get (obj_get simplifiedSchemas ''process'') ''notes'' = JStr ''string''
   \<and> slice_0_m1 ''processes'' = ''processe''
   \<and> obj_get simplifiedSchemas ''processe'' = JUndefined
   \<and> transformToNepaFormat now
         [(''projects'', JArr []), (''processes'', JArr [JObj [(''notes'', JNull)]])]
       = Inr ([(''projects'', JArr []), (''processes'', JArr [JObj [(''notes'', JNull)]])], [])
   \<and> transformToNepaFormat now
         [(''projects'', JArr []), (''documents'', JArr [JObj [(''notes'', JNull)]])]
       = Inr ([(''projects'', JArr []), (''documents'', JArr [JObj [(''notes'', JStr [])]])],
              [''Replaced null with default '' @ [CHR 0x27, CHR 0x27]
                 @ '' for document.notes (expected string)''])"
  by code_simp

subsection \<open>Running the transformation twice\<close>










lemma tp_default_value:
  "fst (tp_default et k t v f) = v \<or>
   (v = JNull \<and> fst (tp_default et k t v f) = getDefaultValueForType t
      \<and> getDefaultValueForType t \<noteq> JNull)"
  by (simp add: tp_default_def Let_def)





















































section \<open>The input document\<close>

text \<open>
  Every operation of the store keeps the cells below \<open>n\<close> when the references it is
  given are new from \<open>n\<close> on: it reads and writes cells it reached from such references
  only, and what it allocates lies above.
\<close>

lemma keeps_ret: "Q x \<Longrightarrow> keeps n Q (ret x)"
  by (simp add: keeps_def ret_def)

lemma keeps_throw: "keeps n Q (throw e)"
  by (simp add: keeps_def throw_def)

lemma keeps_bind:
  assumes m: "keeps n P m" and f: "\<And>x. P x \<Longrightarrow> keeps n Q (f x)"
  shows "keeps n Q (bind m f)"
  unfolding keeps_def
proof (intro allI impI)
  fix s :: store
  assume c: "closed_from n (heap s)"
  obtain r s1 where ms: "m s = (r, s1)" by (cases "m s")
  from m c ms have c1: "closed_from n (heap s1)" and t1: "take n (heap s1) = take n (heap s)"
    and q1: "case r of Inr x \<Rightarrow> P x | Inl e \<Rightarrow> True"
    by (auto simp: keeps_def)
  show "case bind m f s of
          (r, s') \<Rightarrow> closed_from n (heap s') \<and> take n (heap s') = take n (heap s)
                     \<and> (case r of Inr x \<Rightarrow> Q x | Inl e \<Rightarrow> True)"
  proof (cases r)
    case (Inl e)
    with ms c1 t1 show ?thesis by (simp add: bind_def)
  next
    case (Inr x)
    with q1 have "P x" by simp
    from f [OF this] c1 have
      "case f x s1 of
         (r, s') \<Rightarrow> closed_from n (heap s') \<and> take n (heap s') = take n (heap s1)
                    \<and> (case r of Inr x \<Rightarrow> Q x | Inl e \<Rightarrow> True)"
      by (simp add: keeps_def)
    with ms Inr t1 show ?thesis by (simp add: bind_def split: prod.splits)
  qed
qed

lemma keeps_weaken:
  assumes "keeps n P m" and "\<And>x. P x \<Longrightarrow> Q x"
  shows "keeps n Q m"
  using assms unfolding keeps_def
  by (fastforce split: prod.splits sum.splits)

lemma keeps_alloc: "cell_new n c \<Longrightarrow> keeps n (\<lambda>a. n \<le> a) (alloc c)"
  by (simp add: keeps_def alloc_def closed_from_def)

lemma closed_from_nth:
  "closed_from n h \<Longrightarrow> n \<le> a \<Longrightarrow> a < length h \<Longrightarrow> cell_new n (h ! a)"
proof -
  assume c: "closed_from n h" and a: "n \<le> a" "a < length h"
  from a have "h ! a = drop n h ! (a - n)" by simp
  moreover from a have "a - n < length (drop n h)" by simp
  ultimately have "h ! a \<in> set (drop n h)" by (metis nth_mem)
  with c show ?thesis by (simp add: closed_from_def list_all_iff)
qed

lemma keeps_get_cell: "n \<le> a \<Longrightarrow> keeps n (cell_new n) (get_cell a)"
  by (simp add: keeps_def get_cell_def closed_from_nth)

lemma closed_from_update:
  assumes c: "closed_from n h" and a: "n \<le> a" and new: "cell_new n c"
  shows "closed_from n (h[a := c])"
proof -
  have "set ((drop n h)[a - n := c]) \<subseteq> insert c (set (drop n h))"
    by (rule set_update_subset_insert)
  with c new have "list_all (cell_new n) ((drop n h)[a - n := c])"
    by (auto simp: closed_from_def list_all_iff)
  with c a show ?thesis by (simp add: closed_from_def drop_update_swap)
qed

lemma keeps_put_cell: "n \<le> a \<Longrightarrow> cell_new n c \<Longrightarrow> keeps n (\<lambda>u. True) (put_cell a c)"
  by (simp add: keeps_def put_cell_def closed_from_update)

lemma keeps_push_fix: "keeps n (\<lambda>u. True) (push_fix msg)"
  by (simp add: keeps_def push_fix_def)

lemma keeps_view_run: "keeps n (\<lambda>t. True) (view_run depth v)"
  by (simp add: keeps_def view_run_def)

lemma is_new_simps:
  "is_new n HUndefined" "is_new n HNull" "is_new n (HBool b)" "is_new n (HNum i)"
  "is_new n (HStr x)" "is_new n (HBuiltin f)" "is_new n HObjectPrototype"
  "is_new n (HRef a) = (n \<le> a)"
  by (simp_all add: is_new_def)

lemma is_new_prim: "is_new n (prim x)"
  by (cases x) (simp_all add: is_new_simps)

lemma closed_from_append:
  "closed_from n h \<Longrightarrow> cell_new n c \<Longrightarrow> closed_from n (h @ [c])"
  by (simp add: closed_from_def)

lemma alloc_json_keeps:
  "closed_from n (heap s) \<Longrightarrow>
     closed_from n (heap (snd (alloc_json j s)))
     \<and> take n (heap (snd (alloc_json j s))) = take n (heap s)
     \<and> is_new n (fst (alloc_json j s))"
  "closed_from n (heap s) \<Longrightarrow>
     closed_from n (heap (snd (alloc_list js s)))
     \<and> take n (heap (snd (alloc_list js s))) = take n (heap s)
     \<and> list_all (is_new n) (fst (alloc_list js s))"
  "closed_from n (heap s) \<Longrightarrow>
     closed_from n (heap (snd (alloc_props ps s)))
     \<and> take n (heap (snd (alloc_props ps s))) = take n (heap s)
     \<and> list_all (is_new n) (map snd (fst (alloc_props ps s)))"
proof (induction j s and js s and ps s rule: alloc_json_alloc_list_alloc_props.induct)
  case (8 xs s)
  obtain vs s1 where a: "alloc_list xs s = (vs, s1)" by (cases "alloc_list xs s")
  from 8 a have c: "closed_from n (heap s1)" and t: "take n (heap s1) = take n (heap s)"
    and v: "list_all (is_new n) vs" by auto
  from v have "cell_new n (CArr vs [])" by (simp add: cell_new_def cell_vals_def)
  with c have "closed_from n (heap s1 @ [CArr vs []])" by (rule closed_from_append)
  moreover from c have "n \<le> length (heap s1)" by (simp add: closed_from_def)
  ultimately show ?case using a t by (simp add: is_new_simps)
next
  case (9 kvs s)
  obtain vs s1 where a: "alloc_props kvs s = (vs, s1)" by (cases "alloc_props kvs s")
  from 9 a have c: "closed_from n (heap s1)" and t: "take n (heap s1) = take n (heap s)"
    and v: "list_all (is_new n) (map snd vs)" by auto
  from v have "cell_new n (CObj vs)" by (simp add: cell_new_def cell_vals_def)
  with c have "closed_from n (heap s1 @ [CObj vs])" by (rule closed_from_append)
  moreover from c have "n \<le> length (heap s1)" by (simp add: closed_from_def)
  ultimately show ?case using a t by (simp add: is_new_simps)
next
  case (11 x xs s)
  obtain v s1 where a: "alloc_json x s = (v, s1)" by (cases "alloc_json x s")
  obtain vs s2 where b: "alloc_list xs s1 = (vs, s2)" by (cases "alloc_list xs s1")
  from 11(1) [OF 11(3)] a have c: "closed_from n (heap s1)"
    and t: "take n (heap s1) = take n (heap s)" and v: "is_new n v" by auto
  from 11(2) [OF a [symmetric] c] b have "closed_from n (heap s2)"
    and "take n (heap s2) = take n (heap s1)" and "list_all (is_new n) vs" by auto
  with a b t v show ?case by simp
next
  case (13 k x kvs s)
  obtain v s1 where a: "alloc_json x s = (v, s1)" by (cases "alloc_json x s")
  obtain vs s2 where b: "alloc_props kvs s1 = (vs, s2)" by (cases "alloc_props kvs s1")
  from 13(1) [OF 13(3)] a have c: "closed_from n (heap s1)"
    and t: "take n (heap s1) = take n (heap s)" and v: "is_new n v" by auto
  from 13(2) [OF a [symmetric] c] b have "closed_from n (heap s2)"
    and "take n (heap s2) = take n (heap s1)" and "list_all (is_new n) (map snd vs)" by auto
  with a b t v show ?case by simp
qed (simp_all add: is_new_simps)

lemma keeps_json_parse: "keeps n (is_new n) (json_parse j)"
  unfolding keeps_def json_parse_def
proof (intro allI impI)
  fix s :: store
  assume c: "closed_from n (heap s)"
  obtain v s1 where a: "alloc_json j s = (v, s1)" by (cases "alloc_json j s")
  from alloc_json_keeps(1) [OF c, of j] a
  show "case (case alloc_json j s of (v, s') \<Rightarrow> (Inr v, s')) of
          (r, s') \<Rightarrow> closed_from n (heap s') \<and> take n (heap s') = take n (heap s)
                     \<and> (case r of Inr x \<Rightarrow> is_new n x | Inl e \<Rightarrow> True)"
    by simp
qed


lemma map_of_index_entries_mem: "map_of (index_entries xs) k = Some x \<Longrightarrow> x \<in> set xs"
  by (auto simp: index_entries_def dest!: map_of_SomeD set_zip_rightD)

lemma map_of_snd_new:
  "list_all P (map snd kvs) \<Longrightarrow> map_of kvs k = Some v \<Longrightarrow> P v"
  by (fastforce simp: list_all_iff dest!: map_of_SomeD)

lemma cell_get_new: "cell_new n c \<Longrightarrow> is_new n (cell_get c k)"
proof (cases c)
  case (CObj kvs)
  assume "cell_new n c"
  with CObj have a: "list_all (is_new n) (map snd kvs)"
    by (simp add: cell_new_def cell_vals_def)
  show ?thesis
  proof (cases "map_of kvs k")
    case None
    with CObj show ?thesis by (simp add: cell_get_def is_new_prim)
  next
    case (Some v)
    with map_of_snd_new [OF a Some] CObj show ?thesis by (simp add: cell_get_def)
  qed
next
  case (CArr xs ex)
  assume "cell_new n c"
  with CArr have a: "\<forall>v\<in>set xs. is_new n v" and b: "list_all (is_new n) (map snd ex)"
    by (simp_all add: cell_new_def cell_vals_def list_all_iff)
  show ?thesis
  proof (cases "map_of (index_entries xs) k")
    case (Some x)
    with a map_of_index_entries_mem [OF Some] CArr show ?thesis by (simp add: cell_get_def)
  next
    case None
    show ?thesis
    proof (cases "map_of ex k")
      case None
      with \<open>map_of (index_entries xs) k = None\<close> CArr show ?thesis
        by (simp add: cell_get_def is_new_prim is_new_simps)
    next
      case (Some v)
      with map_of_snd_new [OF b Some] \<open>map_of (index_entries xs) k = None\<close> CArr
      show ?thesis by (simp add: cell_get_def is_new_simps)
    qed
  qed
qed

lemma snd_index_entries: "snd ` set (index_entries xs) = set xs"
proof -
  have "map snd (index_entries xs) = xs" by (simp add: index_entries_def)
  then have "set (map snd (index_entries xs)) = set xs" by simp
  then show ?thesis by simp
qed

lemma cell_entries_new:
  "cell_new n c \<Longrightarrow> list_all (is_new n) (map snd (cell_entries c))"
  by (cases c)
     (simp_all add: cell_new_def cell_vals_def cell_entries_def list_all_iff snd_index_entries
        image_Un ball_Un)

lemma update_prop_new:
  "list_all P (map snd kvs) \<Longrightarrow> P v \<Longrightarrow> list_all P (map snd (update_prop kvs k v))"
proof (induction kvs)
  case Nil
  then show ?case by simp
next
  case (Cons p kvs)
  then show ?case by (cases p) simp
qed

lemma assign_prop_new:
  "list_all (is_new n) (map snd kvs) \<Longrightarrow> is_new n v
     \<Longrightarrow> list_all (is_new n) (map snd (assign_prop kvs k v))"
  by (simp add: assign_prop_def set_prop_def update_prop_new)

lemma delete_prop_new:
  "list_all (is_new n) (map snd kvs) \<Longrightarrow> list_all (is_new n) (map snd (delete_prop kvs k))"
  by (auto simp: delete_prop_def list_all_iff)

lemma cell_assign_new:
  assumes c: "cell_new n c" and v: "is_new n v"
  shows "cell_new n (cell_assign c k v)"
proof (cases c)
  case (CObj kvs)
  with c have "list_all (is_new n) (map snd kvs)" by (simp add: cell_new_def cell_vals_def)
  from assign_prop_new [OF this v] CObj show ?thesis
    by (simp add: cell_assign_def cell_new_def cell_vals_def)
next
  case (CArr xs ex)
  with c have a: "list_all (is_new n) xs" and b: "list_all (is_new n) (map snd ex)"
    by (simp_all add: cell_new_def cell_vals_def)
  from a v have "list_all (is_new n)
      (map (\<lambda>p. if fst p = k then v else snd p) (index_entries xs))"
    using snd_index_entries [of xs] by (auto simp: list_all_iff)
  with assign_prop_new [OF b v] a b CArr show ?thesis
    by (simp add: cell_assign_def cell_new_def cell_vals_def)
qed

lemma cell_delete_new: "cell_new n c \<Longrightarrow> cell_new n (cell_delete c k)"
  by (cases c) (simp_all add: cell_delete_def cell_new_def cell_vals_def delete_prop_new)

lemma keeps_get_prop: "is_new n v \<Longrightarrow> keeps n (is_new n) (get_prop v k)"
proof (cases v)
  case (HRef a)
  assume "is_new n v"
  with HRef have a: "n \<le> a" by (simp add: is_new_simps)
  have "keeps n (is_new n) (bind (get_cell a) (\<lambda>c. ret (cell_get c k)))"
    by (rule keeps_bind [OF keeps_get_cell [OF a]]) (simp add: keeps_ret cell_get_new)
  with HRef show ?thesis by (simp add: get_prop_def)
next
  case (HStr s)
  show ?thesis unfolding get_prop_def HStr
    by (auto intro!: keeps_ret simp: is_new_simps is_new_prim split: option.splits)
qed (simp_all add: get_prop_def keeps_ret keeps_throw is_new_simps is_new_prim)

lemma keeps_entries_of:
  "is_new n v \<Longrightarrow> keeps n (\<lambda>es. list_all (is_new n) (map snd es)) (entries_of v)"
proof (cases v)
  case (HRef a)
  assume "is_new n v"
  with HRef have a: "n \<le> a" by (simp add: is_new_simps)
  have "keeps n (\<lambda>es. list_all (is_new n) (map snd es))
          (bind (get_cell a) (\<lambda>c. ret (cell_entries c)))"
    by (rule keeps_bind [OF keeps_get_cell [OF a]]) (simp add: keeps_ret cell_entries_new)
  with HRef show ?thesis by (simp add: entries_of_def)
next
  case (HStr s)
  have "snd ` set (index_entries (map (\<lambda>c. HStr [c]) s)) = set (map (\<lambda>c. HStr [c]) s)"
    by (rule snd_index_entries)
  then have "list_all (is_new n) (map snd (index_entries (map (\<lambda>c. HStr [c]) s)))"
    by (auto simp: list_all_iff is_new_simps)
  with HStr show ?thesis by (simp add: entries_of_def keeps_ret)
qed (simp_all add: entries_of_def keeps_ret)

lemma keeps_is_array: "is_new n v \<Longrightarrow> keeps n (\<lambda>b. True) (is_array_h v)"
proof (cases v)
  case (HRef a)
  assume "is_new n v"
  with HRef have a: "n \<le> a" by (simp add: is_new_simps)
  have "keeps n (\<lambda>b. True)
          (bind (get_cell a) (\<lambda>c. ret (case c of CArr xs ex \<Rightarrow> True | CObj kvs \<Rightarrow> False)))"
    by (rule keeps_bind [OF keeps_get_cell [OF a]]) (simp add: keeps_ret)
  with HRef show ?thesis by (simp add: is_array_h_def)
qed (simp_all add: is_array_h_def keeps_ret)

lemma keeps_array_elems: "is_new n v \<Longrightarrow> keeps n (list_all (is_new n)) (array_elems v)"
proof (cases v)
  case (HRef a)
  assume "is_new n v"
  with HRef have a: "n \<le> a" by (simp add: is_new_simps)
  have "keeps n (list_all (is_new n))
          (bind (get_cell a) (\<lambda>c. ret (case c of CArr xs ex \<Rightarrow> xs | CObj kvs \<Rightarrow> [])))"
    by (rule keeps_bind [OF keeps_get_cell [OF a]])
       (simp add: keeps_ret cell_new_def cell_vals_def split: cell.splits)
  with HRef show ?thesis by (simp add: array_elems_def)
qed (simp_all add: array_elems_def keeps_ret)

lemma keeps_set_prop:
  "n \<le> a \<Longrightarrow> is_new n v \<Longrightarrow> keeps n (\<lambda>u. True) (set_prop_h a k v)"
  unfolding set_prop_h_def
  by (rule keeps_bind [OF keeps_get_cell]) (simp_all add: keeps_put_cell cell_assign_new)

lemma keeps_delete_prop: "n \<le> a \<Longrightarrow> keeps n (\<lambda>u. True) (delete_prop_h a k)"
  unfolding delete_prop_h_def
  by (rule keeps_bind [OF keeps_get_cell]) (simp_all add: keeps_put_cell cell_delete_new)

lemma keeps_push: "is_new n t \<Longrightarrow> is_new n v \<Longrightarrow> keeps n (\<lambda>u. True) (push_h t v)"
proof (cases t)
  case (HRef a)
  assume "is_new n t" and v: "is_new n v"
  with HRef have a: "n \<le> a" by (simp add: is_new_simps)
  have "keeps n (\<lambda>u. True)
          (bind (get_cell a) (\<lambda>c. case c of CArr xs ex \<Rightarrow> put_cell a (CArr (xs @ [v]) ex)
                                    | CObj kvs \<Rightarrow> throw TypeError))"
    by (rule keeps_bind [OF keeps_get_cell [OF a]])
       (simp add: keeps_put_cell keeps_throw a v cell_new_def cell_vals_def split: cell.splits)
  with HRef show ?thesis by (simp add: push_h_def)
qed (simp_all add: push_h_def keeps_throw)

lemma keeps_alloc_ref: "cell_new n c \<Longrightarrow> keeps n (is_new n) (bind (alloc c) (\<lambda>a. ret (HRef a)))"
  by (rule keeps_bind [OF keeps_alloc]) (simp_all add: keeps_ret is_new_simps)

lemma cell_new_empty: "cell_new n (CObj [])" "cell_new n (CArr [] [])"
  by (simp_all add: cell_new_def cell_vals_def)

lemma keeps_alloc_default: "keeps n (is_new n) (alloc_default d)"
  by (cases d) (simp_all add: alloc_default_def keeps_alloc_ref cell_new_empty keeps_ret
                  is_new_simps)


lemma keeps_tp_default:
  "is_new n v \<Longrightarrow> keeps n (is_new n) (tp_default_h entityType key expectedType v)"
  unfolding tp_default_h_def Let_def
  by (auto intro!: keeps_ret keeps_bind [OF keeps_alloc_default] keeps_bind [OF keeps_push_fix])

lemma keeps_tp:
  "is_new n entity \<Longrightarrow> keeps n (is_new n) (transformProperties_h depth entity entityType sp)"
  "list_all (is_new n) (map snd es) \<Longrightarrow> n \<le> out
     \<Longrightarrow> keeps n (\<lambda>u. True) (tp_loop_h depth' es entityType' sp' out)"
proof (induction depth entity entityType sp and depth' es entityType' sp' out
        rule: transformProperties_h_tp_loop_h.induct)
  case (1 depth entity entityType schemaProperties)
  show ?case
  proof (cases "is_object_h entity")
    case False
    with 1(2) show ?thesis by (simp add: transformProperties_h.simps keeps_ret)
  next
    case True
    show ?thesis
    proof (cases depth)
      case 0
      with True show ?thesis by (simp add: transformProperties_h.simps keeps_throw)
    next
      case (Suc d)
      have "keeps n (is_new n)
              (bind (alloc (CObj [])) (\<lambda>out.
               bind (entries_of entity) (\<lambda>es.
               bind (tp_loop_h d es entityType
                       (if schemaProperties = JUndefined then JObj [] else schemaProperties) out)
                 (\<lambda>u. ret (HRef out)))))"
      proof (rule keeps_bind [OF keeps_alloc [OF cell_new_empty(1)]])
        fix out assume out: "n \<le> out"
        show "keeps n (is_new n)
                (bind (entries_of entity) (\<lambda>es.
                 bind (tp_loop_h d es entityType
                         (if schemaProperties = JUndefined then JObj [] else schemaProperties) out)
                   (\<lambda>u. ret (HRef out))))"
        proof (rule keeps_bind [OF keeps_entries_of [OF 1(2)]])
          fix es :: "(string \<times> hval) list"
          assume es: "list_all (is_new n) (map snd es)"
          have "keeps n (\<lambda>u. True)
                  (tp_loop_h d es entityType
                     (if schemaProperties = JUndefined then JObj [] else schemaProperties) out)"
            using True Suc es out by (intro 1(1)) simp_all
          then show "keeps n (is_new n)
                       (bind (tp_loop_h d es entityType
                          (if schemaProperties = JUndefined then JObj []
                           else schemaProperties) out)
                         (\<lambda>u. ret (HRef out)))"
            by (rule keeps_bind) (simp add: keeps_ret is_new_simps out)
        qed
      qed
      with True Suc show ?thesis by (simp add: transformProperties_h.simps)
    qed
  qed
next
  case (2 depth entityType sp out)
  show ?case by (simp add: keeps_ret)
next
  case (3 depth key v rest entityType sp out)
  from 3(6) have v: "is_new n v" and rest: "list_all (is_new n) (map snd rest)" by simp_all
  note out = 3(7)
  have "keeps n (\<lambda>u. True)
          (bind (tp_default_h entityType key (js_get sp key) v) (\<lambda>val.
           bind (is_array_h val) (\<lambda>arr.
             if entityType = ''gis_data'' \<and> key = ''container_inventory'' \<and> arr then
               bind (array_elems val) (\<lambda>xs.
                 case xs of
                   x # xs' \<Rightarrow>
                     bind (set_prop_h out key x) (\<lambda>u.
                     bind (push_fix (''Fixed container_inventory structure to object for ''
                                      @ entityType)) (\<lambda>u.
                     tp_loop_h depth rest entityType sp out))
                 | [] \<Rightarrow>
                     bind (alloc (CObj [])) (\<lambda>a.
                     bind (set_prop_h out key (HRef a)) (\<lambda>u.
                     bind (push_fix (''Set empty container_inventory to object for ''
                                      @ entityType)) (\<lambda>u.
                     tp_loop_h depth rest entityType sp out))))
             else if is_object_h val \<and> \<not> arr then
               bind (transformProperties_h depth val (entityType @ ''.'' @ key)
                       (nested_props sp key)) (\<lambda>r.
               bind (set_prop_h out key r) (\<lambda>u.
               tp_loop_h depth rest entityType sp out))
             else
               bind (set_prop_h out key val) (\<lambda>u.
               tp_loop_h depth rest entityType sp out))))"
  proof (rule keeps_bind [OF keeps_tp_default [OF v]])
    fix val assume val: "is_new n val"
    show "keeps n (\<lambda>u. True)
           (bind (is_array_h val) (\<lambda>arr.
             if entityType = ''gis_data'' \<and> key = ''container_inventory'' \<and> arr then
               bind (array_elems val) (\<lambda>xs.
                 case xs of
                   x # xs' \<Rightarrow>
                     bind (set_prop_h out key x) (\<lambda>u.
                     bind (push_fix (''Fixed container_inventory structure to object for ''
                                      @ entityType)) (\<lambda>u.
                     tp_loop_h depth rest entityType sp out))
                 | [] \<Rightarrow>
                     bind (alloc (CObj [])) (\<lambda>a.
                     bind (set_prop_h out key (HRef a)) (\<lambda>u.
                     bind (push_fix (''Set empty container_inventory to object for ''
                                      @ entityType)) (\<lambda>u.
                     tp_loop_h depth rest entityType sp out))))
             else if is_object_h val \<and> \<not> arr then
               bind (transformProperties_h depth val (entityType @ ''.'' @ key)
                       (nested_props sp key)) (\<lambda>r.
               bind (set_prop_h out key r) (\<lambda>u.
               tp_loop_h depth rest entityType sp out))
             else
               bind (set_prop_h out key val) (\<lambda>u.
               tp_loop_h depth rest entityType sp out)))"
    proof (rule keeps_bind [OF keeps_is_array [OF val]])
      fix arr :: bool
      let ?gis = "entityType = ''gis_data'' \<and> key = ''container_inventory'' \<and> arr"
      consider (gis) "?gis" | (obj) "\<not> ?gis" "is_object_h val \<and> \<not> arr"
        | (other) "\<not> ?gis" "\<not> (is_object_h val \<and> \<not> arr)" by blast
      then show "keeps n (\<lambda>u. True)
             (if ?gis then
               bind (array_elems val) (\<lambda>xs.
                 case xs of
                   x # xs' \<Rightarrow>
                     bind (set_prop_h out key x) (\<lambda>u.
                     bind (push_fix (''Fixed container_inventory structure to object for ''
                                      @ entityType)) (\<lambda>u.
                     tp_loop_h depth rest entityType sp out))
                 | [] \<Rightarrow>
                     bind (alloc (CObj [])) (\<lambda>a.
                     bind (set_prop_h out key (HRef a)) (\<lambda>u.
                     bind (push_fix (''Set empty container_inventory to object for ''
                                      @ entityType)) (\<lambda>u.
                     tp_loop_h depth rest entityType sp out))))
             else if is_object_h val \<and> \<not> arr then
               bind (transformProperties_h depth val (entityType @ ''.'' @ key)
                       (nested_props sp key)) (\<lambda>r.
               bind (set_prop_h out key r) (\<lambda>u.
               tp_loop_h depth rest entityType sp out))
             else
               bind (set_prop_h out key val) (\<lambda>u.
               tp_loop_h depth rest entityType sp out))"
      proof cases
        case gis
        have loop: "keeps n (\<lambda>u. True) (tp_loop_h depth rest entityType sp out)"
          by (rule 3(1) [OF gis rest out])
        have "keeps n (\<lambda>u. True)
               (bind (array_elems val) (\<lambda>xs.
                 case xs of
                   x # xs' \<Rightarrow>
                     bind (set_prop_h out key x) (\<lambda>u.
                     bind (push_fix (''Fixed container_inventory structure to object for ''
                                      @ entityType)) (\<lambda>u.
                     tp_loop_h depth rest entityType sp out))
                 | [] \<Rightarrow>
                     bind (alloc (CObj [])) (\<lambda>a.
                     bind (set_prop_h out key (HRef a)) (\<lambda>u.
                     bind (push_fix (''Set empty container_inventory to object for ''
                                      @ entityType)) (\<lambda>u.
                     tp_loop_h depth rest entityType sp out)))))"
        proof (rule keeps_bind [OF keeps_array_elems [OF val]])
          fix xs assume xs: "list_all (is_new n) xs"
          show "keeps n (\<lambda>u. True)
                 (case xs of
                   x # xs' \<Rightarrow>
                     bind (set_prop_h out key x) (\<lambda>u.
                     bind (push_fix (''Fixed container_inventory structure to object for ''
                                      @ entityType)) (\<lambda>u.
                     tp_loop_h depth rest entityType sp out))
                 | [] \<Rightarrow>
                     bind (alloc (CObj [])) (\<lambda>a.
                     bind (set_prop_h out key (HRef a)) (\<lambda>u.
                     bind (push_fix (''Set empty container_inventory to object for ''
                                      @ entityType)) (\<lambda>u.
                     tp_loop_h depth rest entityType sp out))))"
          proof (cases xs)
            case Nil
            have "keeps n (\<lambda>u. True)
                   (bind (alloc (CObj [])) (\<lambda>a.
                     bind (set_prop_h out key (HRef a)) (\<lambda>u.
                     bind (push_fix (''Set empty container_inventory to object for ''
                                      @ entityType)) (\<lambda>u.
                     tp_loop_h depth rest entityType sp out))))"
              by (intro keeps_bind [OF keeps_alloc [OF cell_new_empty(1)]]
                        keeps_bind [OF keeps_set_prop [OF out]]
                        keeps_bind [OF keeps_push_fix] loop)
                 (simp add: is_new_simps)
            with Nil show ?thesis by simp
          next
            case (Cons x xs')
            with xs have x: "is_new n x" by simp
            have "keeps n (\<lambda>u. True)
                   (bind (set_prop_h out key x) (\<lambda>u.
                     bind (push_fix (''Fixed container_inventory structure to object for ''
                                      @ entityType)) (\<lambda>u.
                     tp_loop_h depth rest entityType sp out)))"
              by (intro keeps_bind [OF keeps_set_prop [OF out x]]
                        keeps_bind [OF keeps_push_fix] loop)
            with Cons show ?thesis by simp
          qed
        qed
        moreover from gis have "?gis = True" by simp
        ultimately show ?thesis by (simp only: if_True)
      next
        case obj
        have loop: "keeps n (\<lambda>u. True) (tp_loop_h depth rest entityType sp out)"
          by (rule 3(4) [OF obj(1) obj(2) rest out])
        have rec: "keeps n (is_new n)
                     (transformProperties_h depth val (entityType @ ''.'' @ key)
                        (nested_props sp key))"
          by (rule 3(3) [OF obj(1) obj(2) val])
        have "keeps n (\<lambda>u. True)
               (bind (transformProperties_h depth val (entityType @ ''.'' @ key)
                       (nested_props sp key)) (\<lambda>r.
                bind (set_prop_h out key r) (\<lambda>u.
                tp_loop_h depth rest entityType sp out)))"
        proof (rule keeps_bind [OF rec])
          fix r assume r: "is_new n r"
          show "keeps n (\<lambda>u. True)
                  (bind (set_prop_h out key r) (\<lambda>u. tp_loop_h depth rest entityType sp out))"
            by (intro keeps_bind [OF keeps_set_prop [OF out r]] loop)
        qed
        moreover from obj have "?gis = False" "(is_object_h val \<and> \<not> arr) = True" by simp_all
        ultimately show ?thesis by (simp only: if_True if_False)
      next
        case other
        have loop: "keeps n (\<lambda>u. True) (tp_loop_h depth rest entityType sp out)"
          by (rule 3(5) [OF other(1) other(2) rest out])
        have "keeps n (\<lambda>u. True)
                (bind (set_prop_h out key val) (\<lambda>u. tp_loop_h depth rest entityType sp out))"
          by (intro keeps_bind [OF keeps_set_prop [OF out val]] loop)
        moreover from other have "?gis = False" "(is_object_h val \<and> \<not> arr) = False"
          by simp_all
        ultimately show ?thesis by (simp only: if_False)
      qed
    qed
  qed
  then show ?case by simp
qed


lemma keeps_tp_map:
  "list_all (is_new n) xs \<Longrightarrow> keeps n (list_all (is_new n)) (tp_map_h depth xs entityType sp)"
proof (induction xs)
  case Nil
  show ?case by (simp add: keeps_ret)
next
  case (Cons x xs)
  from Cons(2) have x: "is_new n x" and xs: "list_all (is_new n) xs" by simp_all
  have "keeps n (list_all (is_new n))
          (bind (transformProperties_h depth x entityType sp) (\<lambda>r.
           bind (tp_map_h depth xs entityType sp) (\<lambda>rs. ret (r # rs))))"
  proof (rule keeps_bind [OF keeps_tp(1) [OF x]])
    fix r assume r: "is_new n r"
    show "keeps n (list_all (is_new n))
            (bind (tp_map_h depth xs entityType sp) (\<lambda>rs. ret (r # rs)))"
      by (rule keeps_bind [OF Cons(1) [OF xs]]) (simp add: keeps_ret r)
  qed
  then show ?case by simp
qed

lemma translated_new: "is_new n v \<Longrightarrow> is_new n (translated v r)"
  by (cases r) (simp_all add: translated_def is_new_simps)

lemma keeps_te_translate:
  "is_new n v \<Longrightarrow> keeps n (is_new n) (te_translate_h depth schemaKey originalType targetType v)"
  unfolding te_translate_h_def
  by (rule keeps_bind [OF keeps_view_run])
     (simp add: keeps_throw keeps_ret translated_new split: sum.splits)

lemma keeps_te_default:
  "is_new n v \<Longrightarrow>
     keeps n (is_new n)
       (te_default_h originalType key schemaKey idField expectedType itemValue v)"
  unfolding te_default_h_def Let_def
  by (auto intro!: keeps_ret keeps_bind [OF keeps_alloc_default] keeps_bind [OF keeps_push_fix])

lemma keeps_te_id_string:
  "is_new n v \<Longrightarrow> keeps n (is_new n) (te_id_string_h originalType key schemaKey v)"
  unfolding te_id_string_h_def
  by (cases v)
     (auto intro!: keeps_ret keeps_bind [OF keeps_push_fix] simp: is_new_simps)

lemma keeps_alloc_arr:
  "list_all (is_new n) xs \<Longrightarrow> keeps n (\<lambda>a. n \<le> a) (alloc (CArr xs []))"
  by (rule keeps_alloc) (simp add: cell_new_def cell_vals_def)

lemma keeps_te_store:
  assumes v: "is_new n v" and out: "n \<le> out"
  shows "keeps n (\<lambda>u. True) (te_store_h depth originalType schemaKey esp v out)"
  unfolding te_store_h_def
proof (rule keeps_bind [OF keeps_is_array [OF v]])
  fix arr :: bool
  let ?sp = "js_member (js_member (js_get esp schemaKey) ''items'') ''properties''"
  have a: "keeps n (\<lambda>u. True)
             (bind (transformProperties_h depth v (originalType @ ''.'' @ schemaKey)
                      (nested_props esp schemaKey)) (\<lambda>r. set_prop_h out schemaKey r))"
    by (rule keeps_bind [OF keeps_tp(1) [OF v]]) (rule keeps_set_prop [OF out])
  have b: "keeps n (\<lambda>u. True)
             (bind (array_elems v) (\<lambda>xs.
              bind (tp_map_h depth xs (originalType @ ''.'' @ schemaKey @ ''[]'') ?sp) (\<lambda>rs.
              bind (alloc (CArr rs [])) (\<lambda>a. set_prop_h out schemaKey (HRef a)))))"
  proof (rule keeps_bind [OF keeps_array_elems [OF v]])
    fix xs assume xs: "list_all (is_new n) xs"
    show "keeps n (\<lambda>u. True)
            (bind (tp_map_h depth xs (originalType @ ''.'' @ schemaKey @ ''[]'') ?sp) (\<lambda>rs.
             bind (alloc (CArr rs [])) (\<lambda>a. set_prop_h out schemaKey (HRef a))))"
    proof (rule keeps_bind [OF keeps_tp_map [OF xs]])
      fix rs assume rs: "list_all (is_new n) rs"
      show "keeps n (\<lambda>u. True)
              (bind (alloc (CArr rs [])) (\<lambda>a. set_prop_h out schemaKey (HRef a)))"
        by (rule keeps_bind [OF keeps_alloc_arr [OF rs]])
           (simp add: keeps_set_prop out is_new_simps)
    qed
  qed
  have c: "keeps n (\<lambda>u. True) (set_prop_h out schemaKey v)"
    by (rule keeps_set_prop [OF out v])
  from a b c show "keeps n (\<lambda>u. True)
      (if is_object_h v \<and> \<not> arr then
         bind (transformProperties_h depth v (originalType @ ''.'' @ schemaKey)
                 (nested_props esp schemaKey)) (\<lambda>r. set_prop_h out schemaKey r)
       else if arr \<and> truthy (js_get esp schemaKey)
           \<and> truthy (js_member (js_get esp schemaKey) ''items'')
           \<and> truthy ?sp then
         bind (array_elems v) (\<lambda>xs.
         bind (tp_map_h depth xs (originalType @ ''.'' @ schemaKey @ ''[]'') ?sp) (\<lambda>rs.
         bind (alloc (CArr rs [])) (\<lambda>a. set_prop_h out schemaKey (HRef a))))
       else set_prop_h out schemaKey v)"
    by (simp only: split: if_split) blast
qed

lemma keeps_te_entry:
  assumes v: "is_new n itemValue" and out: "n \<le> out"
  shows "keeps n (\<lambda>u. True)
           (te_entry_h depth originalType targetType esp idField key itemValue out)"
  unfolding te_entry_h_def Let_def
proof (rule keeps_bind [OF keeps_te_translate [OF v]])
  fix v1 assume v1: "is_new n v1"
  let ?schemaKey = "mapDatabaseFieldToSchema key originalType"
  show "keeps n (\<lambda>u. True)
          (bind (te_default_h originalType key ?schemaKey idField
                   (js_get esp (key_of ?schemaKey)) itemValue v1) (\<lambda>v2.
           case ?schemaKey of
             JStr sk \<Rightarrow>
               bind (te_id_string_h originalType key sk v2) (\<lambda>v3.
               te_store_h depth originalType sk esp v3 out)
           | _ \<Rightarrow> throw TypeError))"
  proof (rule keeps_bind [OF keeps_te_default [OF v1]])
    fix v2 assume v2: "is_new n v2"
    have "\<And>sk. keeps n (\<lambda>u. True)
            (bind (te_id_string_h originalType key sk v2) (\<lambda>v3.
             te_store_h depth originalType sk esp v3 out))"
      by (rule keeps_bind [OF keeps_te_id_string [OF v2]]) (rule keeps_te_store [OF _ out])
    then show "keeps n (\<lambda>u. True)
            (case ?schemaKey of
               JStr sk \<Rightarrow>
                 bind (te_id_string_h originalType key sk v2) (\<lambda>v3.
                 te_store_h depth originalType sk esp v3 out)
             | _ \<Rightarrow> throw TypeError)"
      by (cases ?schemaKey) (simp_all add: keeps_throw)
  qed
qed

lemma keeps_te_loop:
  "list_all (is_new n) (map snd es) \<Longrightarrow> n \<le> out
     \<Longrightarrow> keeps n (\<lambda>u. True) (te_loop_h depth es originalType targetType esp idField out)"
proof (induction es)
  case Nil
  show ?case by (simp add: keeps_ret)
next
  case (Cons p es)
  obtain key itemValue where p: "p = (key, itemValue)" by (cases p)
  from Cons(2) p have v: "is_new n itemValue" and es: "list_all (is_new n) (map snd es)"
    by simp_all
  have "keeps n (\<lambda>u. True)
          (bind (te_entry_h depth originalType targetType esp idField key itemValue out) (\<lambda>u.
           te_loop_h depth es originalType targetType esp idField out))"
    by (rule keeps_bind [OF keeps_te_entry [OF v Cons(3)]]) (rule Cons(1) [OF es Cons(3)])
  with p show ?case by simp
qed

lemma keeps_te_target_id:
  assumes out: "n \<le> out"
  shows "keeps n (\<lambda>u. True) (te_target_id_h targetType esp out)"
proof -
  have o: "is_new n (HRef out)" using out by (simp add: is_new_simps)
  show ?thesis
    unfolding te_target_id_h_def Let_def
    by (rule keeps_bind [OF keeps_get_prop [OF o]])
       (auto intro!: keeps_ret keeps_bind [OF keeps_alloc_default]
                     keeps_bind [OF keeps_set_prop [OF out]] keeps_push_fix)
qed

lemma keeps_te_gis_field:
  assumes out: "n \<le> out"
  shows "keeps n (\<lambda>u. True) (te_gis_field_h originalType field fallback esp out)"
proof -
  have o: "is_new n (HRef out)" using out by (simp add: is_new_simps)
  show ?thesis
    unfolding te_gis_field_h_def
    by (rule keeps_bind [OF keeps_get_prop [OF o]])
       (auto intro!: keeps_ret keeps_bind [OF keeps_alloc_default]
                     keeps_bind [OF keeps_set_prop [OF out]] keeps_push_fix
             simp: is_new_prim)
qed

lemma keeps_te_gis_container:
  assumes out: "n \<le> out"
  shows "keeps n (\<lambda>u. True) (te_gis_container_h originalType esp out)"
proof -
  have o: "is_new n (HRef out)" using out by (simp add: is_new_simps)
  show ?thesis
    unfolding te_gis_container_h_def Let_def
    by (rule keeps_bind [OF keeps_get_prop [OF o]])
       (auto intro!: keeps_ret keeps_bind [OF keeps_alloc_default]
                     keeps_bind [OF keeps_set_prop [OF out]] keeps_push_fix)
qed

lemma keeps_transformEntity:
  assumes item: "is_new n item"
  shows "keeps n (is_new n)
           (transformEntity_h now depth item originalType targetType entitySchemaProperties)"
  unfolding transformEntity_h_def Let_def
proof (rule keeps_bind [OF keeps_alloc [OF cell_new_empty(1)]])
  fix out assume out: "n \<le> out"
  let ?esp = "if entitySchemaProperties = JUndefined then JObj [] else entitySchemaProperties"
  have gis: "keeps n (\<lambda>u. True)
      (if originalType = ''gis_data'' \<or> targetType = ''gis_data'' then
         bind (te_gis_field_h originalType ''gis_id''
                 (JStr (''gis-'' @ num_to_string now)) ?esp out) (\<lambda>u.
         bind (te_gis_field_h originalType ''data_type'' (JStr ''point'') ?esp out) (\<lambda>u.
         bind (te_gis_field_h originalType ''coordinate_system'' (JStr ''WGS84'') ?esp
                 out) (\<lambda>u.
         te_gis_container_h originalType ?esp out)))
       else ret ())"
    by (auto intro!: keeps_ret keeps_bind [OF keeps_te_gis_field [OF out]]
                     keeps_te_gis_container [OF out])
  show "keeps n (is_new n)
     (bind (entries_of item) (\<lambda>es.
      bind (te_loop_h depth es originalType targetType ?esp (mapEntityId originalType) out)
        (\<lambda>u.
      bind (te_target_id_h targetType ?esp out) (\<lambda>u.
      bind (if originalType = ''gis_data'' \<or> targetType = ''gis_data'' then
              bind (te_gis_field_h originalType ''gis_id''
                      (JStr (''gis-'' @ num_to_string now)) ?esp out) (\<lambda>u.
              bind (te_gis_field_h originalType ''data_type'' (JStr ''point'') ?esp out) (\<lambda>u.
              bind (te_gis_field_h originalType ''coordinate_system'' (JStr ''WGS84'') ?esp
                      out) (\<lambda>u.
              te_gis_container_h originalType ?esp out)))
            else ret ()) (\<lambda>u.
      ret (HRef out))))))"
  proof (rule keeps_bind [OF keeps_entries_of [OF item]])
    fix es :: "(string \<times> hval) list"
    assume es: "list_all (is_new n) (map snd es)"
    show "keeps n (is_new n)
     (bind (te_loop_h depth es originalType targetType ?esp (mapEntityId originalType) out)
        (\<lambda>u.
      bind (te_target_id_h targetType ?esp out) (\<lambda>u.
      bind (if originalType = ''gis_data'' \<or> targetType = ''gis_data'' then
              bind (te_gis_field_h originalType ''gis_id''
                      (JStr (''gis-'' @ num_to_string now)) ?esp out) (\<lambda>u.
              bind (te_gis_field_h originalType ''data_type'' (JStr ''point'') ?esp out) (\<lambda>u.
              bind (te_gis_field_h originalType ''coordinate_system'' (JStr ''WGS84'') ?esp
                      out) (\<lambda>u.
              te_gis_container_h originalType ?esp out)))
            else ret ()) (\<lambda>u.
      ret (HRef out)))))"
      by (intro keeps_bind [OF keeps_te_loop [OF es out]]
                keeps_bind [OF keeps_te_target_id [OF out]]
                keeps_bind [OF gis] keeps_ret)
         (simp add: is_new_simps out)
  qed
qed

lemma keeps_te_all:
  "list_all (is_new n) items \<Longrightarrow> n \<le> root
     \<Longrightarrow> keeps n (\<lambda>u. True) (te_all_h now depth items root originalType target schemaProps)"
proof (induction items)
  case Nil
  show ?case by (simp add: keeps_ret)
next
  case (Cons item items)
  from Cons(2) have item: "is_new n item" and items: "list_all (is_new n) items" by simp_all
  have r: "is_new n (HRef root)" using Cons(3) by (simp add: is_new_simps)
  have "keeps n (\<lambda>u. True)
          (bind (get_prop (HRef root) target) (\<lambda>t.
           bind (transformEntity_h now depth item originalType target schemaProps) (\<lambda>r.
           bind (push_h t r) (\<lambda>u.
           te_all_h now depth items root originalType target schemaProps))))"
  proof (rule keeps_bind [OF keeps_get_prop [OF r]])
    fix t assume t: "is_new n t"
    show "keeps n (\<lambda>u. True)
            (bind (transformEntity_h now depth item originalType target schemaProps) (\<lambda>r.
             bind (push_h t r) (\<lambda>u.
             te_all_h now depth items root originalType target schemaProps)))"
    proof (rule keeps_bind [OF keeps_transformEntity [OF item]])
      fix x assume x: "is_new n x"
      show "keeps n (\<lambda>u. True)
              (bind (push_h t x) (\<lambda>u.
               te_all_h now depth items root originalType target schemaProps))"
        by (rule keeps_bind [OF keeps_push [OF t x]]) (rule Cons(1) [OF items Cons(3)])
    qed
  qed
  then show ?case by simp
qed

lemma keeps_legacy_step:
  assumes root: "n \<le> root"
  shows "keeps n (\<lambda>u. True) (legacy_step_h now depth root entry)"
proof -
  obtain originalType target schemaProps where e: "entry = (originalType, target, schemaProps)"
    by (cases entry) auto
  have r: "is_new n (HRef root)" using root by (simp add: is_new_simps)
  have init: "\<And>t0. keeps n (\<lambda>u. True)
                (if \<not> truthy_h t0 then
                   bind (alloc (CArr [] [])) (\<lambda>a. set_prop_h root target (HRef a))
                 else ret ())"
    by (auto intro!: keeps_ret keeps_bind [OF keeps_alloc [OF cell_new_empty(2)]]
                     keeps_set_prop [OF root] simp: is_new_simps)
  have items: "\<And>src arr. is_new n src \<Longrightarrow>
                 keeps n (list_all (is_new n)) (if arr then array_elems src else ret [src])"
    by (auto intro!: keeps_ret keeps_array_elems)
  have "keeps n (\<lambda>u. True)
         (bind (get_prop (HRef root) originalType) (\<lambda>v.
           if truthy_h v then
             bind (get_prop (HRef root) target) (\<lambda>t0.
             bind (if \<not> truthy_h t0 then
                     bind (alloc (CArr [] [])) (\<lambda>a. set_prop_h root target (HRef a))
                   else ret ()) (\<lambda>u.
             bind (get_prop (HRef root) originalType) (\<lambda>src.
             bind (is_array_h src) (\<lambda>arr.
             bind (if arr then array_elems src else ret [src]) (\<lambda>itemsToTransform.
             bind (te_all_h now depth itemsToTransform root originalType target schemaProps)
               (\<lambda>u.
             bind (delete_prop_h root originalType) (\<lambda>u.
             push_fix (''Transformed '' @ originalType @ '' data to NEPA '' @ target
                         @ '' format''))))))))
           else ret ()))"
  proof (rule keeps_bind [OF keeps_get_prop [OF r]])
    fix v
    have "keeps n (\<lambda>u. True)
             (bind (get_prop (HRef root) target) (\<lambda>t0.
             bind (if \<not> truthy_h t0 then
                     bind (alloc (CArr [] [])) (\<lambda>a. set_prop_h root target (HRef a))
                   else ret ()) (\<lambda>u.
             bind (get_prop (HRef root) originalType) (\<lambda>src.
             bind (is_array_h src) (\<lambda>arr.
             bind (if arr then array_elems src else ret [src]) (\<lambda>itemsToTransform.
             bind (te_all_h now depth itemsToTransform root originalType target schemaProps)
               (\<lambda>u.
             bind (delete_prop_h root originalType) (\<lambda>u.
             push_fix (''Transformed '' @ originalType @ '' data to NEPA '' @ target
                         @ '' format'')))))))))"
    proof (rule keeps_bind [OF keeps_get_prop [OF r]], rule keeps_bind [OF init],
           rule keeps_bind [OF keeps_get_prop [OF r]])
      fix src assume src: "is_new n src"
      show "keeps n (\<lambda>u. True)
             (bind (is_array_h src) (\<lambda>arr.
             bind (if arr then array_elems src else ret [src]) (\<lambda>itemsToTransform.
             bind (te_all_h now depth itemsToTransform root originalType target schemaProps)
               (\<lambda>u.
             bind (delete_prop_h root originalType) (\<lambda>u.
             push_fix (''Transformed '' @ originalType @ '' data to NEPA '' @ target
                         @ '' format''))))))"
      proof (rule keeps_bind [OF keeps_is_array [OF src]], rule keeps_bind [OF items [OF src]])
        fix its assume its: "list_all (is_new n) its"
        show "keeps n (\<lambda>u. True)
               (bind (te_all_h now depth its root originalType target schemaProps) (\<lambda>u.
                bind (delete_prop_h root originalType) (\<lambda>u.
                push_fix (''Transformed '' @ originalType @ '' data to NEPA '' @ target
                            @ '' format''))))"
          by (intro keeps_bind [OF keeps_te_all [OF its root]]
                    keeps_bind [OF keeps_delete_prop [OF root]] keeps_push_fix)
      qed
    qed
    then show "keeps n (\<lambda>u. True)
          (if truthy_h v then
             bind (get_prop (HRef root) target) (\<lambda>t0.
             bind (if \<not> truthy_h t0 then
                     bind (alloc (CArr [] [])) (\<lambda>a. set_prop_h root target (HRef a))
                   else ret ()) (\<lambda>u.
             bind (get_prop (HRef root) originalType) (\<lambda>src.
             bind (is_array_h src) (\<lambda>arr.
             bind (if arr then array_elems src else ret [src]) (\<lambda>itemsToTransform.
             bind (te_all_h now depth itemsToTransform root originalType target schemaProps)
               (\<lambda>u.
             bind (delete_prop_h root originalType) (\<lambda>u.
             push_fix (''Transformed '' @ originalType @ '' data to NEPA '' @ target
                         @ '' format''))))))))
           else ret ())"
      by (simp add: keeps_ret)
  qed
  with e show ?thesis by (simp add: legacy_step_h_def)
qed

lemma keeps_legacy_loop:
  "n \<le> root \<Longrightarrow> keeps n (\<lambda>u. True) (legacy_loop_h now depth root entries)"
proof (induction entries)
  case Nil
  show ?case by (simp add: keeps_ret)
next
  case (Cons entry entries)
  have "keeps n (\<lambda>u. True)
          (bind (legacy_step_h now depth root entry) (\<lambda>u.
           legacy_loop_h now depth root entries))"
    by (rule keeps_bind [OF keeps_legacy_step [OF Cons(2)]]) (rule Cons(1) [OF Cons(2)])
  then show ?case by simp
qed

lemma keeps_second_pass:
  "n \<le> root \<Longrightarrow> keeps n (\<lambda>u. True) (second_pass_h depth root ks)"
proof (induction ks)
  case Nil
  show ?case by (simp add: keeps_ret)
next
  case (Cons nepaKey rest)
  note root = Cons(2)
  have r: "is_new n (HRef root)" using root by (simp add: is_new_simps)
  note loop = Cons(1) [OF root]
  let ?sp = "js_or (obj_get simplifiedSchemas (slice_0_m1 nepaKey)) (JObj [])"
  have step: "keeps n (\<lambda>u. True)
          (bind (get_prop (HRef root) nepaKey) (\<lambda>v.
           bind (is_array_h v) (\<lambda>arr.
             if arr then
               bind (array_elems v) (\<lambda>xs.
               bind (tp_map_h depth xs (slice_0_m1 nepaKey) ?sp) (\<lambda>ys.
               bind (alloc (CArr ys [])) (\<lambda>a.
               bind (set_prop_h root nepaKey (HRef a)) (\<lambda>u.
               second_pass_h depth root rest))))
             else second_pass_h depth root rest)))"
  proof (rule keeps_bind [OF keeps_get_prop [OF r]])
    fix v assume v: "is_new n v"
    have "keeps n (\<lambda>u. True)
               (bind (array_elems v) (\<lambda>xs.
               bind (tp_map_h depth xs (slice_0_m1 nepaKey) ?sp) (\<lambda>ys.
               bind (alloc (CArr ys [])) (\<lambda>a.
               bind (set_prop_h root nepaKey (HRef a)) (\<lambda>u.
               second_pass_h depth root rest)))))"
    proof (rule keeps_bind [OF keeps_array_elems [OF v]])
      fix xs assume xs: "list_all (is_new n) xs"
      show "keeps n (\<lambda>u. True)
               (bind (tp_map_h depth xs (slice_0_m1 nepaKey) ?sp) (\<lambda>ys.
               bind (alloc (CArr ys [])) (\<lambda>a.
               bind (set_prop_h root nepaKey (HRef a)) (\<lambda>u.
               second_pass_h depth root rest))))"
      proof (rule keeps_bind [OF keeps_tp_map [OF xs]])
        fix ys assume ys: "list_all (is_new n) ys"
        show "keeps n (\<lambda>u. True)
               (bind (alloc (CArr ys [])) (\<lambda>a.
               bind (set_prop_h root nepaKey (HRef a)) (\<lambda>u.
               second_pass_h depth root rest)))"
        proof (rule keeps_bind [OF keeps_alloc_arr [OF ys]])
          fix a assume a: "n \<le> a"
          then have "is_new n (HRef a)" by (simp add: is_new_simps)
          then show "keeps n (\<lambda>u. True)
                  (bind (set_prop_h root nepaKey (HRef a)) (\<lambda>u.
                   second_pass_h depth root rest))"
            by (intro keeps_bind [OF keeps_set_prop [OF root]] loop)
        qed
      qed
    qed
    with loop show "keeps n (\<lambda>u. True)
           (bind (is_array_h v) (\<lambda>arr.
             if arr then
               bind (array_elems v) (\<lambda>xs.
               bind (tp_map_h depth xs (slice_0_m1 nepaKey) ?sp) (\<lambda>ys.
               bind (alloc (CArr ys [])) (\<lambda>a.
               bind (set_prop_h root nepaKey (HRef a)) (\<lambda>u.
               second_pass_h depth root rest))))
             else second_pass_h depth root rest))"
      by (intro keeps_bind [OF keeps_is_array [OF v]]) simp
  qed
  show ?case unfolding second_pass_h.simps Let_def by (rule step)
qed

lemma keeps_document:
  assumes td: "is_new n td"
  shows "keeps n (is_new n)
     (case td of
        HNull \<Rightarrow> throw TypeError
      | HRef root \<Rightarrow>
          bind (get_prop td ''projects'') (\<lambda>p.
          bind (if \<not> truthy_h p then
                  bind (alloc (CArr [] [])) (\<lambda>a.
                  bind (set_prop_h root ''projects'' (HRef a)) (\<lambda>u.
                  push_fix ''Added missing required projects array to root level''))
                else ret ()) (\<lambda>u.
          bind (legacy_loop_h now depth root entityTypesMap) (\<lambda>u.
          bind (entries_of td) (\<lambda>es.
          bind (second_pass_h depth root (map fst es)) (\<lambda>u.
          ret td)))))
      | _ \<Rightarrow>
          bind (push_fix ''Added missing required projects array to root level'') (\<lambda>u.
          ret td))"
proof (cases td)
  case (HRef root)
  with td have root: "n \<le> root" by (simp add: is_new_simps)
  have init: "\<And>p. keeps n (\<lambda>u. True)
               (if \<not> truthy_h p then
                  bind (alloc (CArr [] [])) (\<lambda>a.
                  bind (set_prop_h root ''projects'' (HRef a)) (\<lambda>u.
                  push_fix ''Added missing required projects array to root level''))
                else ret ())"
    by (auto intro!: keeps_ret keeps_bind [OF keeps_alloc [OF cell_new_empty(2)]]
                     keeps_bind [OF keeps_set_prop [OF root]] keeps_push_fix
             simp: is_new_simps)
  have "keeps n (is_new n)
          (bind (get_prop td ''projects'') (\<lambda>p.
          bind (if \<not> truthy_h p then
                  bind (alloc (CArr [] [])) (\<lambda>a.
                  bind (set_prop_h root ''projects'' (HRef a)) (\<lambda>u.
                  push_fix ''Added missing required projects array to root level''))
                else ret ()) (\<lambda>u.
          bind (legacy_loop_h now depth root entityTypesMap) (\<lambda>u.
          bind (entries_of td) (\<lambda>es.
          bind (second_pass_h depth root (map fst es)) (\<lambda>u.
          ret td))))))"
    by (intro keeps_bind [OF keeps_get_prop [OF td]] keeps_bind [OF init]
              keeps_bind [OF keeps_legacy_loop [OF root]]
              keeps_bind [OF keeps_entries_of [OF td]]
              keeps_bind [OF keeps_second_pass [OF root]] keeps_ret td)
  with HRef show ?thesis by simp
qed (auto intro!: keeps_throw keeps_ret keeps_bind [OF keeps_push_fix] simp: is_new_simps)

lemma keeps_transformToNepaFormat:
  "keeps n (is_new n) (transformToNepaFormat_h now depth data)"
  unfolding transformToNepaFormat_h_def
proof (rule keeps_bind [OF keeps_view_run])
  fix t
  show "keeps n (is_new n)
    (case json_value t of
        None \<Rightarrow> throw SyntaxError
      | Some j \<Rightarrow>
          bind (json_parse j) (\<lambda>transformedData.
            case transformedData of
              HNull \<Rightarrow> throw TypeError
            | HRef root \<Rightarrow>
                bind (get_prop transformedData ''projects'') (\<lambda>p.
                bind (if \<not> truthy_h p then
                        bind (alloc (CArr [] [])) (\<lambda>a.
                        bind (set_prop_h root ''projects'' (HRef a)) (\<lambda>u.
                        push_fix ''Added missing required projects array to root level''))
                      else ret ()) (\<lambda>u.
                bind (legacy_loop_h now depth root entityTypesMap) (\<lambda>u.
                bind (entries_of transformedData) (\<lambda>es.
                bind (second_pass_h depth root (map fst es)) (\<lambda>u.
                ret transformedData)))))
            | _ \<Rightarrow>
                bind (push_fix ''Added missing required projects array to root level'') (\<lambda>u.
                ret transformedData)))"
  proof (cases "json_value t")
    case None
    then show ?thesis by (simp add: keeps_throw)
  next
    case (Some j)
    have "keeps n (is_new n)
          (bind (json_parse j) (\<lambda>transformedData.
            case transformedData of
              HNull \<Rightarrow> throw TypeError
            | HRef root \<Rightarrow>
                bind (get_prop transformedData ''projects'') (\<lambda>p.
                bind (if \<not> truthy_h p then
                        bind (alloc (CArr [] [])) (\<lambda>a.
                        bind (set_prop_h root ''projects'' (HRef a)) (\<lambda>u.
                        push_fix ''Added missing required projects array to root level''))
                      else ret ()) (\<lambda>u.
                bind (legacy_loop_h now depth root entityTypesMap) (\<lambda>u.
                bind (entries_of transformedData) (\<lambda>es.
                bind (second_pass_h depth root (map fst es)) (\<lambda>u.
                ret transformedData)))))
            | _ \<Rightarrow>
                bind (push_fix ''Added missing required projects array to root level'') (\<lambda>u.
                ret transformedData)))"
      by (rule keeps_bind [OF keeps_json_parse]) (rule keeps_document)
    with Some show ?thesis by simp
  qed
qed

lemma closed_from_length: "closed_from (length h) h"
  by (simp add: closed_from_def)

lemma keeps_take:
  assumes "keeps n Q m" and "closed_from n (heap s)"
  shows "take n (heap (snd (m s))) = take n (heap s)"
proof -
  obtain r s' where run: "m s = (r, s')" by (cases "m s")
  from assms(1) have
    "closed_from n (heap s) \<longrightarrow>
       (case m s of
          (r, s') \<Rightarrow>
            closed_from n (heap s') \<and> take n (heap s') = take n (heap s)
            \<and> (case r of Inr x \<Rightarrow> Q x | Inl e \<Rightarrow> True))"
    unfolding keeps_def by (rule spec)
  with assms(2) run show ?thesis by simp
qed

lemma sequence_err_map_cong:
  "sequence_err (map f xs) = Inr ys
     \<Longrightarrow> (\<And>x y. x \<in> set xs \<Longrightarrow> f x = Inr y \<Longrightarrow> g x = Inr y)
     \<Longrightarrow> sequence_err (map g xs) = Inr ys"
proof (induction xs arbitrary: ys)
  case Nil
  then show ?case by simp
next
  case (Cons x xs)
  from Cons(2) obtain y zs where y: "f x = Inr y" and zs: "sequence_err (map f xs) = Inr zs"
    and ys: "ys = y # zs"
    by (auto split: sum.splits)
  from Cons(3) [OF _ y] have "g x = Inr y" by simp
  moreover from Cons(1) [OF zs] Cons(3) have "sequence_err (map g xs) = Inr zs" by simp
  ultimately show ?case using ys by simp
qed

lemma view_prefix:
  "view k h path v = Inr t \<Longrightarrow> take (length h) h' = h \<Longrightarrow> view k h' path v = Inr t"
proof (induction k h path v arbitrary: t rule: view.induct)
  case (9 d h path a)
  from 9(3) have ok: "\<not> (a \<in> set path \<or> \<not> a < length h)" by (auto split: if_splits)
  then have a: "a < length h" and p: "a \<notin> set path" by simp_all
  have "length (take (length h) h') = length h" using 9(4) by simp
  then have len: "length h \<le> length h'" by simp
  have "take (length h) h' ! a = h' ! a" using a by simp
  with 9(4) have nth: "h' ! a = h ! a" by simp
  show ?case
  proof (cases "h ! a")
    case (CArr xs ex)
    from 9(3) ok CArr obtain ys where
      ys: "sequence_err (map (view d h (a # path)) xs) = Inr ys" and t: "t = JArr ys"
      by (auto split: sum.splits)
    have "sequence_err (map (view d h' (a # path)) xs) = Inr ys"
      by (rule sequence_err_map_cong [OF ys]) (rule 9(2) [OF ok CArr _ _ 9(4)])
    with a p len nth CArr t show ?thesis by simp
  next
    case (CObj kvs)
    from 9(3) ok CObj obtain ys where
      ys: "sequence_err (map (\<lambda>p. view d h (a # path) (snd p)) kvs) = Inr ys"
      and t: "t = JObj (zip (map fst kvs) ys)"
      by (auto split: sum.splits)
    have "sequence_err (map (\<lambda>p. view d h' (a # path) (snd p)) kvs) = Inr ys"
      by (rule sequence_err_map_cong [OF ys]) (rule 9(1) [OF ok CObj _ _ 9(4)])
    with a p len nth CObj t show ?thesis by simp
  qed
qed simp_all

text \<open>
  On the example store the run on the store and the transformer on trees agree: the value
  returned reads as the same document, and the logs are equal.
\<close>

lemma transformToNepaFormat_h_example:
  "(case transformToNepaFormat_h 0 3 (HRef 2) frame_store of
      (r, s') \<Rightarrow> (case r of Inr x \<Rightarrow> view 3 (heap s') [] x | Inl e \<Rightarrow> Inl e, fixes_log s'))
   = (case transformToNepaFormat 0 (case frame_doc of JObj kvs \<Rightarrow> kvs | _ \<Rightarrow> []) of
        Inr (d, f) \<Rightarrow> (Inr (JObj d), f) | Inl e \<Rightarrow> (Inl e, []))"
  by code_simp

text \<open>
  Claim C7. \<open>transformToNepaFormat(d)\<close> leaves \<open>d\<close> unchanged. Whatever the store
  \<open>s\<close>, the input \<open>d\<close>, the time and the stack depth, and whether the call returns or
  throws, every object and array that exists before the call holds after it what it held
  before: the heap after the call starts with the heap before it. So the document \<open>d\<close>
  reads after the call as it read before, to every depth. The call reads \<open>d\<close> once, for
  \<open>JSON.stringify\<close>; every cell it writes is one it allocated itself.
\<close>

theorem transformToNepaFormat_frame:
  "take (length (heap s)) (heap (snd (transformToNepaFormat_h now depth d s))) = heap s
   \<and> (\<forall>k t. view k (heap s) [] d = Inr t
          \<longrightarrow> view k (heap (snd (transformToNepaFormat_h now depth d s))) [] d = Inr t)"
proof -
  have "take (length (heap s)) (heap (snd (transformToNepaFormat_h now depth d s)))
          = take (length (heap s)) (heap s)"
    by (rule keeps_take [OF keeps_transformToNepaFormat closed_from_length])
  then have a: "take (length (heap s)) (heap (snd (transformToNepaFormat_h now depth d s)))
                  = heap s"
    by simp
  from view_prefix [OF _ a] show ?thesis using a by blast
qed

theorem transformToNepaFormat_frame_witness:
  "view 3 (heap frame_store) [] (HRef 2) = Inr frame_doc
   \<and> fst (transformToNepaFormat_h 0 3 (HRef 2) frame_store) = Inr (HRef 5)
   \<and> view 3 (heap (snd (transformToNepaFormat_h 0 3 (HRef 2) frame_store))) [] (HRef 2)
       = Inr frame_doc"
proof -
  have a: "view 3 (heap frame_store) [] (HRef 2) = Inr frame_doc"
    by code_simp
  have b: "fst (transformToNepaFormat_h 0 3 (HRef 2) frame_store) = Inr (HRef 5)"
    by code_simp
  from transformToNepaFormat_frame [of frame_store 0 3 "HRef 2"] a
  have c: "view 3 (heap (snd (transformToNepaFormat_h 0 3 (HRef 2) frame_store))) [] (HRef 2)
             = Inr frame_doc"
    by blast
  from a b c show ?thesis by (intro conjI)
qed

end
